theory Spec2Isabelle
  imports Main "HOL-Library.Sublist"
begin

section \<open>Package constants (volsync handler)\<close>

definition VolumeSnapshotKind :: string where
  "VolumeSnapshotKind = ''VolumeSnapshot''"

definition VRGOwnerLabel :: string where
  "VRGOwnerLabel = ''volumereplicationgroups-owner''"

definition FinalSyncTriggerString :: string where
  "FinalSyncTriggerString = ''vrg-final-sync''"

definition SchedulingIntervalMinLength :: nat where
  "SchedulingIntervalMinLength = 2"

definition CronSpecMaxDayOfMonth :: int where
  "CronSpecMaxDayOfMonth = 28"

section \<open>Errors\<close>

text \<open>
  Every error value the handler can return. \<open>NotFound\<close> is the API server's
  not-found status (the one \<open>kerrors.IsNotFound\<close> recognises); \<open>ApiFailure\<close> is any
  other failure of a client call. The Go code wraps errors with \<open>fmt.Errorf("... (%w)")\<close>;
  wrapping keeps the cause (and \<open>IsNotFound\<close> sees through it), so the model returns
  the cause itself.
\<close>

datatype error =
    NotFound
  | ApiFailure
  | AlreadyExists
  | AlreadyOwned
  | NotVolSyncEnabled string
  | NoStorageClassName
  | NoVolumeSnapshotClassFound string
  | NoLatestImage string
  | SchedulingIntervalInvalid string
  | SchedulingPrefixNotInt string
  | SchedulingUnitInvalid string
  | PVCNeedsRecreation string
  | OwnerNamespaced
  | OwnerCrossNamespace
  | MutateChangedKey

section \<open>Cron schedule translator\<close>

text \<open>
  Go strings are byte sequences and so are Isabelle's: \<open>len\<close> is \<open>length\<close>, and the
  slices \<open>s[len(s)-1:]\<close> and \<open>s[:len(s)-1]\<close> are \<open>drop\<close> and \<open>take\<close>.

  \<open>strconv.Atoi\<close> (Go standard library, 64-bit \<open>int\<close>): an optional sign \<open>+\<close> or \<open>-\<close>,
  then at least one decimal digit and nothing else; a value outside the range of
  \<open>int\<close> is a range error. The digit loop subtracts \<open>'0'\<close> from the byte with
  wrap-around and rejects a result above 9.
\<close>

fun atoi_digits :: "string \<Rightarrow> int \<Rightarrow> int option" where
  "atoi_digits [] n = Some n"
| "atoi_digits (ch # s) n =
     (let d = (of_char ch + 256 - 48) mod 256 :: nat
      in if d > 9 then None else atoi_digits s (n * 10 + int d))"

definition strconv_Atoi :: "string \<Rightarrow> int option" where
  "strconv_Atoi s0 =
     (case s0 of
        [] \<Rightarrow> None
      | c # rest \<Rightarrow>
          (let s = (if c = CHR ''-'' \<or> c = CHR ''+'' then rest else s0)
           in if length s < 1 then None
              else (case atoi_digits s 0 of
                      None \<Rightarrow> None
                    | Some n \<Rightarrow>
                        (let r = (if c = CHR ''-'' then - n else n)
                         in if - (2 ^ 63) \<le> r \<and> r < 2 ^ 63 then Some r else None))))"

text \<open>
  \<open>strings.ToLower\<close> on a string of one byte, the only way the translator calls it:
  an ASCII upper-case letter is lowered, any other ASCII byte is kept, and a byte of
  128 or more (not valid UTF-8 by itself) becomes the three bytes of U+FFFD.
\<close>

definition strings_ToLower :: "string \<Rightarrow> string" where
  "strings_ToLower s =
     (case s of
        [c] \<Rightarrow>
          (let b = of_char c :: nat
           in if b \<ge> 128 then [char_of (239::nat), char_of (191::nat), char_of (189::nat)]
              else if 65 \<le> b \<and> b \<le> 90 then [char_of (b + 32)]
              else [c])
      | _ \<Rightarrow> s)"

definition ConvertSchedulingIntervalToCronSpec :: "string \<Rightarrow> error + string" where
  "ConvertSchedulingIntervalToCronSpec schedulingInterval =
     (if length schedulingInterval < SchedulingIntervalMinLength
      then Inl (SchedulingIntervalInvalid schedulingInterval)
      else
        (let mhd = strings_ToLower (drop (length schedulingInterval - 1) schedulingInterval);
             num = take (length schedulingInterval - 1) schedulingInterval
         in case strconv_Atoi num of
              None \<Rightarrow> Inl (SchedulingPrefixNotInt num)
            | Some numInt \<Rightarrow>
                (let cronSpec =
                       (if mhd = ''m'' then ''*/'' @ num @ '' * * * *''
                        else if mhd = ''h'' then ''0 */'' @ num @ '' * * *''
                        else if mhd = ''d'' then
                          ''0 0 */'' @ (if numInt > CronSpecMaxDayOfMonth then ''28'' else num)
                            @ '' * *''
                        else '''')
                 in if cronSpec = '''' then Inl (SchedulingUnitInvalid schedulingInterval)
                    else Inr cronSpec)))"


section \<open>Kubernetes objects\<close>

text \<open>
  The objects the handler reads and writes, with the fields it touches. Every object
  embeds \<open>metav1.ObjectMeta\<close>, so each kind is a record that extends \<open>ObjectMeta\<close>, and the
  helpers written against \<open>metav1.Object\<close> or \<open>client.Object\<close> are functions on any such
  extension. A Go pointer field is an \<open>option\<close>; a \<open>map[string]string\<close> is a map, where
  the nil map and the empty map read alike (\<open>equality.Semantic.DeepEqual\<close>, used by
  \<open>CreateOrUpdate\<close>, does not tell them apart either); \<open>metav1.Time\<close> is a number with
  \<open>0\<close> the zero time; a \<open>resource.Quantity\<close> is a number.
  Owner references carry group, kind, name and the controller flag: the fields
  \<open>referSameObject\<close> compares and \<open>GetControllerOf\<close> reads.
\<close>

record OwnerReference =
  ref_Group :: string
  ref_Kind :: string
  ref_Name :: string
  ref_Controller :: bool

record ObjectMeta =
  Name :: string
  Namespace :: string
  Labels :: "string \<rightharpoonup> string"
  Annotations :: "string \<rightharpoonup> string"
  OwnerReferences :: "OwnerReference list"
  CreationTimestamp :: nat

record TypedLocalObjectReference =
  APIGroup :: "string option"
  Kind :: string
  RefName :: string

datatype CopyMethodType = CopyMethodNone | CopyMethodClone | CopyMethodSnapshot

record ResourceRequirements =
  Limits :: "string \<rightharpoonup> nat"
  Requests :: "string \<rightharpoonup> nat"

text \<open>The volume descriptor the caller passes in (\<open>ramendrv1alpha1.ProtectedPVC\<close>).\<close>

record ProtectedPVC =
  PVCName :: string
  ProtectedByVolSync :: bool
  StorageClassName :: "string option"
  AccessModes :: "string list"
  Resources :: ResourceRequirements
  PVCLabels :: "string \<rightharpoonup> string"

record VolSyncReplicationDestinationSpec =
  RDProtectedPVC :: ProtectedPVC

record VolSyncReplicationSourceSpec =
  RSProtectedPVC :: ProtectedPVC

record ReplicationDestinationRsyncSpec =
  RDServiceType :: "string option"
  RDSSHKeys :: "string option"
  RDCopyMethod :: CopyMethodType
  RDCapacity :: "nat option"
  RDStorageClassName :: "string option"
  RDAccessModes :: "string list"
  RDVolumeSnapshotClassName :: "string option"

record ReplicationDestinationRsyncStatus =
  RDAddress :: "string option"

record ReplicationDestinationStatus =
  RDStatusRsync :: "ReplicationDestinationRsyncStatus option"
  LatestImage :: "TypedLocalObjectReference option"

record ReplicationDestination = ObjectMeta +
  RDSpecRsync :: "ReplicationDestinationRsyncSpec option"
  RDStatus :: "ReplicationDestinationStatus option"

record ReplicationSourceTriggerSpec =
  Schedule :: "string option"
  Manual :: string

record ReplicationSourceRsyncSpec =
  RSSSHKeys :: "string option"
  RSAddress :: "string option"
  RSCopyMethod :: CopyMethodType
  RSVolumeSnapshotClassName :: "string option"

record ReplicationSourceStatus =
  LastSyncTime :: "nat option"
  LastManualSync :: string

record ReplicationSource = ObjectMeta +
  SourcePVC :: string
  Trigger :: "ReplicationSourceTriggerSpec option"
  RSSpecRsync :: "ReplicationSourceRsyncSpec option"
  RSStatus :: "ReplicationSourceStatus option"

record PersistentVolumeClaim = ObjectMeta +
  SpecAccessModes :: "string list"
  SpecStorageClassName :: "string option"
  SpecDataSource :: "TypedLocalObjectReference option"
  SpecResources :: ResourceRequirements
  StatusPhase :: string

record PodVolume =
  PersistentVolumeClaimName :: "string option"

record Pod = ObjectMeta +
  Volumes :: "PodVolume list"

record StorageClass = ObjectMeta +
  Provisioner :: string

record VolumeSnapshotClass = ObjectMeta +
  Driver :: string

type_synonym Secret = ObjectMeta
type_synonym VolumeSnapshot = ObjectMeta
type_synonym ServiceExport = ObjectMeta

definition ReadWriteOnce :: string where
  "ReadWriteOnce = ''ReadWriteOnce''"

definition ClaimBound :: string where
  "ClaimBound = ''Bound''"

definition ResourceStorage :: string where
  "ResourceStorage = ''storage''"

text \<open>\<open>ResourceList.Storage()\<close>: the storage quantity, the zero quantity when there is none.\<close>

definition Storage :: "(string \<rightharpoonup> nat) \<Rightarrow> nat" where
  "Storage rl = (case rl ResourceStorage of Some q \<Rightarrow> q | None \<Rightarrow> 0)"

section \<open>The cluster behind \<open>client.Client\<close>\<close>

text \<open>
  The API server as the handler sees it through \<open>client.Client\<close>: one list of stored
  objects per kind, found by namespace and name. A client call can fail for reasons
  outside the handler (the branches \<open>if err != nil\<close> of the source): \<open>faults\<close> is the set
  of calls, by verb, kind and object name (the empty name for a list), that fail with
  an error other than not-found. A delete removes the object at once.
\<close>

datatype verb = VGet | VList | VCreate | VUpdate | VDelete

datatype kind =
    KSecret | KReplicationSource | KReplicationDestination | KPersistentVolumeClaim | KPod
  | KStorageClass | KVolumeSnapshotClass | KVolumeSnapshot | KServiceExport

record cluster =
  secrets :: "Secret list"
  replicationSources :: "ReplicationSource list"
  replicationDestinations :: "ReplicationDestination list"
  persistentVolumeClaims :: "PersistentVolumeClaim list"
  pods :: "Pod list"
  storageClasses :: "StorageClass list"
  volumeSnapshotClasses :: "VolumeSnapshotClass list"
  volumeSnapshots :: "VolumeSnapshot list"
  serviceExports :: "ServiceExport list"
  now :: nat
  faults :: "(verb \<times> kind \<times> string) set"

text \<open>How the generic client reaches the objects of one kind.\<close>

record 'a resource =
  res_kind :: kind
  res_sel :: "cluster \<Rightarrow> 'a list"
  res_upd :: "'a list \<Rightarrow> cluster \<Rightarrow> cluster"

definition Secrets :: "Secret resource" where
  "Secrets = \<lparr>res_kind = KSecret, res_sel = secrets, res_upd = (\<lambda>objs c. c\<lparr>secrets := objs\<rparr>)\<rparr>"

definition ReplicationSources :: "ReplicationSource resource" where
  "ReplicationSources = \<lparr>res_kind = KReplicationSource, res_sel = replicationSources,
     res_upd = (\<lambda>objs c. c\<lparr>replicationSources := objs\<rparr>)\<rparr>"

definition ReplicationDestinations :: "ReplicationDestination resource" where
  "ReplicationDestinations = \<lparr>res_kind = KReplicationDestination,
     res_sel = replicationDestinations, res_upd = (\<lambda>objs c. c\<lparr>replicationDestinations := objs\<rparr>)\<rparr>"

definition PersistentVolumeClaims :: "PersistentVolumeClaim resource" where
  "PersistentVolumeClaims = \<lparr>res_kind = KPersistentVolumeClaim,
     res_sel = persistentVolumeClaims, res_upd = (\<lambda>objs c. c\<lparr>persistentVolumeClaims := objs\<rparr>)\<rparr>"

definition Pods :: "Pod resource" where
  "Pods = \<lparr>res_kind = KPod, res_sel = pods, res_upd = (\<lambda>objs c. c\<lparr>pods := objs\<rparr>)\<rparr>"

definition StorageClasses :: "StorageClass resource" where
  "StorageClasses = \<lparr>res_kind = KStorageClass, res_sel = storageClasses,
     res_upd = (\<lambda>objs c. c\<lparr>storageClasses := objs\<rparr>)\<rparr>"

definition VolumeSnapshotClasses :: "VolumeSnapshotClass resource" where
  "VolumeSnapshotClasses = \<lparr>res_kind = KVolumeSnapshotClass, res_sel = volumeSnapshotClasses,
     res_upd = (\<lambda>objs c. c\<lparr>volumeSnapshotClasses := objs\<rparr>)\<rparr>"

definition VolumeSnapshots :: "VolumeSnapshot resource" where
  "VolumeSnapshots = \<lparr>res_kind = KVolumeSnapshot, res_sel = volumeSnapshots,
     res_upd = (\<lambda>objs c. c\<lparr>volumeSnapshots := objs\<rparr>)\<rparr>"

definition ServiceExports :: "ServiceExport resource" where
  "ServiceExports = \<lparr>res_kind = KServiceExport, res_sel = serviceExports,
     res_upd = (\<lambda>objs c. c\<lparr>serviceExports := objs\<rparr>)\<rparr>"

definition hasKey :: "string \<Rightarrow> string \<Rightarrow> 'a ObjectMeta_scheme \<Rightarrow> bool" where
  "hasKey ns n obj = (Namespace obj = ns \<and> Name obj = n)"

definition lookup :: "'a ObjectMeta_scheme list \<Rightarrow> string \<Rightarrow> string \<Rightarrow> 'a ObjectMeta_scheme option" where
  "lookup objs ns n = find (hasKey ns n) objs"

definition client_Get ::
  "'a ObjectMeta_scheme resource \<Rightarrow> cluster \<Rightarrow> string \<Rightarrow> string
     \<Rightarrow> error + 'a ObjectMeta_scheme" where
  "client_Get K c ns n =
     (if (VGet, res_kind K, n) \<in> faults c then Inl ApiFailure
      else (case lookup (res_sel K c) ns n of
              None \<Rightarrow> Inl NotFound
            | Some obj \<Rightarrow> Inr obj))"

definition client_List ::
  "'a ObjectMeta_scheme resource \<Rightarrow> cluster \<Rightarrow> ('a ObjectMeta_scheme \<Rightarrow> bool)
     \<Rightarrow> error + 'a ObjectMeta_scheme list" where
  "client_List K c opts =
     (if (VList, res_kind K, []) \<in> faults c then Inl ApiFailure
      else Inr (filter opts (res_sel K c)))"

text \<open>A created object is stamped with a non-zero creation time by the server.\<close>

definition client_Create ::
  "'a ObjectMeta_scheme resource \<Rightarrow> cluster \<Rightarrow> 'a ObjectMeta_scheme
     \<Rightarrow> (error + 'a ObjectMeta_scheme) \<times> cluster" where
  "client_Create K c obj =
     (if (VCreate, res_kind K, Name obj) \<in> faults c then (Inl ApiFailure, c)
      else (case lookup (res_sel K c) (Namespace obj) (Name obj) of
              Some _ \<Rightarrow> (Inl AlreadyExists, c)
            | None \<Rightarrow>
                (let created = obj\<lparr>CreationTimestamp := Suc (now c)\<rparr>
                 in (Inr created, res_upd K (res_sel K c @ [created]) c))))"

definition client_Update ::
  "'a ObjectMeta_scheme resource \<Rightarrow> cluster \<Rightarrow> 'a ObjectMeta_scheme
     \<Rightarrow> (error + 'a ObjectMeta_scheme) \<times> cluster" where
  "client_Update K c obj =
     (if (VUpdate, res_kind K, Name obj) \<in> faults c then (Inl ApiFailure, c)
      else (case lookup (res_sel K c) (Namespace obj) (Name obj) of
              None \<Rightarrow> (Inl NotFound, c)
            | Some _ \<Rightarrow>
                (Inr obj,
                 res_upd K (map (\<lambda>x. if hasKey (Namespace obj) (Name obj) x then obj else x)
                            (res_sel K c)) c)))"

definition client_Delete ::
  "'a ObjectMeta_scheme resource \<Rightarrow> cluster \<Rightarrow> string \<Rightarrow> string \<Rightarrow> error option \<times> cluster" where
  "client_Delete K c ns n =
     (if (VDelete, res_kind K, n) \<in> faults c then (Some ApiFailure, c)
      else (case lookup (res_sel K c) ns n of
              None \<Rightarrow> (Some NotFound, c)
            | Some _ \<Rightarrow> (None, res_upd K (filter (\<lambda>x. \<not> hasKey ns n x) (res_sel K c)) c)))"

subsection \<open>controllerutil: owner references and CreateOrUpdate\<close>

text \<open>
  The group and kind of an owner are what the scheme gives for its Go type; they are
  passed next to the owner's metadata.
\<close>

definition referSameObject :: "OwnerReference \<Rightarrow> OwnerReference \<Rightarrow> bool" where
  "referSameObject a b =
     (ref_Group a = ref_Group b \<and> ref_Kind a = ref_Kind b \<and> ref_Name a = ref_Name b)"

fun indexOwnerRef :: "OwnerReference list \<Rightarrow> OwnerReference \<Rightarrow> nat option" where
  "indexOwnerRef [] ref = None"
| "indexOwnerRef (r # rs) ref =
     (if referSameObject r ref then Some 0 else map_option Suc (indexOwnerRef rs ref))"

definition upsertOwnerRef :: "OwnerReference \<Rightarrow> 'a ObjectMeta_scheme \<Rightarrow> 'a ObjectMeta_scheme" where
  "upsertOwnerRef ref object =
     (let owners = OwnerReferences object
      in case indexOwnerRef owners ref of
           None \<Rightarrow> object\<lparr>OwnerReferences := owners @ [ref]\<rparr>
         | Some idx \<Rightarrow> object\<lparr>OwnerReferences := owners[idx := ref]\<rparr>)"

text \<open>
  \<open>validateOwner\<close>: a namespaced owner can only own an object of its own namespace.
\<close>

definition validateOwner :: "'o ObjectMeta_scheme \<Rightarrow> 'a ObjectMeta_scheme \<Rightarrow> error option" where
  "validateOwner owner object =
     (if Namespace owner \<noteq> [] then
        (if Namespace object = [] then Some OwnerNamespaced
         else if Namespace owner \<noteq> Namespace object then Some OwnerCrossNamespace
         else None)
      else None)"

definition SetOwnerReference ::
  "string \<times> string \<Rightarrow> 'o ObjectMeta_scheme \<Rightarrow> 'a ObjectMeta_scheme
     \<Rightarrow> error + 'a ObjectMeta_scheme" where
  "SetOwnerReference gvk owner object =
     (case validateOwner owner object of
        Some err \<Rightarrow> Inl err
      | None \<Rightarrow>
          Inr (upsertOwnerRef
                 \<lparr>ref_Group = fst gvk, ref_Kind = snd gvk, ref_Name = Name owner,
                  ref_Controller = False\<rparr> object))"

definition GetControllerOf :: "'a ObjectMeta_scheme \<Rightarrow> OwnerReference option" where
  "GetControllerOf object = find ref_Controller (OwnerReferences object)"

definition SetControllerReference ::
  "string \<times> string \<Rightarrow> 'o ObjectMeta_scheme \<Rightarrow> 'a ObjectMeta_scheme
     \<Rightarrow> error + 'a ObjectMeta_scheme" where
  "SetControllerReference gvk owner controlled =
     (case validateOwner owner controlled of
        Some err \<Rightarrow> Inl err
      | None \<Rightarrow>
          (let ref = \<lparr>ref_Group = fst gvk, ref_Kind = snd gvk, ref_Name = Name owner,
                      ref_Controller = True\<rparr>
           in case GetControllerOf controlled of
                Some existing \<Rightarrow>
                  if \<not> referSameObject existing ref then Inl AlreadyOwned
                  else Inr (upsertOwnerRef ref controlled)
              | None \<Rightarrow> Inr (upsertOwnerRef ref controlled)))"

datatype OperationResult =
  OperationResultNone | OperationResultCreated | OperationResultUpdated

text \<open>
  \<open>mutate\<close> runs the mutation function and refuses a changed name or namespace. The Go
  closure changes the object it captured, and may write to other variables it captured
  (\<open>ensurePVCFromSnapshot\<close> sets a flag): here it maps the object and the captured value
  to the changed ones. \<open>CreateOrUpdate\<close> is the case of a closure that captures the
  object only.
\<close>

definition mutate ::
  "('a ObjectMeta_scheme \<Rightarrow> 'e \<Rightarrow> (error + 'a ObjectMeta_scheme) \<times> 'e)
     \<Rightarrow> 'a ObjectMeta_scheme \<Rightarrow> 'e \<Rightarrow> (error + 'a ObjectMeta_scheme) \<times> 'e" where
  "mutate f obj env =
     (case f obj env of
        (Inl err, env') \<Rightarrow> (Inl err, env')
      | (Inr obj', env') \<Rightarrow>
          if (Namespace obj', Name obj') \<noteq> (Namespace obj, Name obj)
          then (Inl MutateChangedKey, env')
          else (Inr obj', env'))"

definition CreateOrUpdateEnv ::
  "'a ObjectMeta_scheme resource \<Rightarrow> cluster \<Rightarrow> 'a ObjectMeta_scheme
     \<Rightarrow> ('a ObjectMeta_scheme \<Rightarrow> 'e \<Rightarrow> (error + 'a ObjectMeta_scheme) \<times> 'e) \<Rightarrow> 'e
     \<Rightarrow> (error + OperationResult \<times> 'a ObjectMeta_scheme) \<times> cluster \<times> 'e" where
  "CreateOrUpdateEnv K c obj f env =
     (case client_Get K c (Namespace obj) (Name obj) of
        Inl err \<Rightarrow>
          (if err \<noteq> NotFound then (Inl err, c, env)
           else (case mutate f obj env of
                   (Inl err, env') \<Rightarrow> (Inl err, c, env')
                 | (Inr obj', env') \<Rightarrow>
                     (case client_Create K c obj' of
                        (Inl err, c') \<Rightarrow> (Inl err, c', env')
                      | (Inr created, c') \<Rightarrow>
                          (Inr (OperationResultCreated, created), c', env'))))
      | Inr existing \<Rightarrow>
          (case mutate f existing env of
             (Inl err, env') \<Rightarrow> (Inl err, c, env')
           | (Inr obj', env') \<Rightarrow>
               if existing = obj' then (Inr (OperationResultNone, obj'), c, env')
               else (case client_Update K c obj' of
                       (Inl err, c') \<Rightarrow> (Inl err, c', env')
                     | (Inr updated, c') \<Rightarrow>
                         (Inr (OperationResultUpdated, updated), c', env'))))"

definition CreateOrUpdate ::
  "'a ObjectMeta_scheme resource \<Rightarrow> cluster \<Rightarrow> 'a ObjectMeta_scheme
     \<Rightarrow> ('a ObjectMeta_scheme \<Rightarrow> error + 'a ObjectMeta_scheme)
     \<Rightarrow> (error + OperationResult \<times> 'a ObjectMeta_scheme) \<times> cluster" where
  "CreateOrUpdate K c obj f =
     (case CreateOrUpdateEnv K c obj (\<lambda>x env. (f x, env)) () of
        (res, c', _) \<Rightarrow> (res, c'))"


section \<open>The handler\<close>

text \<open>
  \<open>VSHandler\<close> with its client, owner and cached snapshot-class list. \<open>ownerGVK\<close> is the
  group and kind the client's scheme gives for the owner. The label selector is its
  \<open>matchLabels\<close> part. The last three fields are names of the package that are declared
  outside this source file and are taken as parameters: the name of the SSH secret of
  an owner, the default rsync service type and the default cron spec.
\<close>

record VSHandler =
  client :: cluster
  owner :: ObjectMeta
  ownerGVK :: "string \<times> string"
  schedulingInterval :: string
  volumeSnapshotClassSelector :: "(string \<times> string) list"
  volumeSnapshotClassList :: "VolumeSnapshotClass list option"
  GetVolSyncSSHSecretNameFromVRGName :: "string \<Rightarrow> string"
  DefaultRsyncServiceType :: string
  DefaultScheduleCronSpec :: string

definition emptyMeta :: "string \<Rightarrow> string \<Rightarrow> ObjectMeta" where
  "emptyMeta n ns = \<lparr>Name = n, Namespace = ns, Labels = Map.empty, Annotations = Map.empty,
     OwnerReferences = [], CreationTimestamp = 0\<rparr>"

definition ReplicationDestinationGVK :: "string \<times> string" where
  "ReplicationDestinationGVK = (''volsync.backube'', ''ReplicationDestination'')"

definition PersistentVolumeClaimGVK :: "string \<times> string" where
  "PersistentVolumeClaimGVK = ([], ''PersistentVolumeClaim'')"

definition SnapshotGroupName :: string where
  "SnapshotGroupName = ''snapshot.storage.k8s.io''"

definition VolumeSnapshotIsDefaultAnnotation :: string where
  "VolumeSnapshotIsDefaultAnnotation = ''snapshot.storage.kubernetes.io/is-default-class''"

definition VolumeSnapshotIsDefaultAnnotationValue :: string where
  "VolumeSnapshotIsDefaultAnnotationValue = ''true''"

definition VolSyncDoNotDeleteLabel :: string where
  "VolSyncDoNotDeleteLabel = ''volsync.backube/do-not-delete''"

definition VolSyncDoNotDeleteLabelVal :: string where
  "VolSyncDoNotDeleteLabelVal = ''true''"

definition ACMAppSubDoNotDeleteLabel :: string where
  "ACMAppSubDoNotDeleteLabel = ''do-not-delete''"

definition ACMAppSubDoNotDeleteLabelVal :: string where
  "ACMAppSubDoNotDeleteLabelVal = ''true''"

subsection \<open>Names\<close>

definition getReplicationDestinationName :: "string \<Rightarrow> string" where
  "getReplicationDestinationName pvcName = pvcName"

definition getReplicationSourceName :: "string \<Rightarrow> string" where
  "getReplicationSourceName pvcName = pvcName"

definition getLocalServiceNameForRD :: "string \<Rightarrow> string" where
  "getLocalServiceNameForRD rdName = ''volsync-rsync-dst-'' @ rdName"

definition getLocalServiceNameForRDFromPVCName :: "string \<Rightarrow> string" where
  "getLocalServiceNameForRDFromPVCName pvcName =
     getLocalServiceNameForRD (getReplicationDestinationName pvcName)"

definition getRemoteServiceNameForRDFromPVCName :: "string \<Rightarrow> string \<Rightarrow> string" where
  "getRemoteServiceNameForRDFromPVCName pvcName rdNamespace =
     getLocalServiceNameForRDFromPVCName pvcName @ ''.'' @ rdNamespace @ ''.svc.clusterset.local''"

subsection \<open>Status predicates\<close>

definition isLatestImageReady :: "TypedLocalObjectReference option \<Rightarrow> bool" where
  "isLatestImageReady latestImage =
     (case latestImage of
        None \<Rightarrow> False
      | Some img \<Rightarrow> if RefName img = [] \<or> Kind img \<noteq> VolumeSnapshotKind then False else True)"

definition isRSLastSyncTimeReady :: "ReplicationSourceStatus option \<Rightarrow> bool" where
  "isRSLastSyncTimeReady rsStatus =
     (case rsStatus of
        None \<Rightarrow> False
      | Some st \<Rightarrow> (case LastSyncTime st of None \<Rightarrow> False | Some t \<Rightarrow> t \<noteq> 0))"

definition rdStatusReady :: "ReplicationDestination \<Rightarrow> bool" where
  "rdStatusReady rd =
     (case RDStatus rd of
        None \<Rightarrow> False
      | Some st \<Rightarrow>
          (case RDStatusRsync st of
             None \<Rightarrow> False
           | Some rsync \<Rightarrow>
               if RDAddress rsync = None then False
               else if \<not> isLatestImageReady (LatestImage st) then False
               else True))"

definition isFinalSyncComplete :: "ReplicationSource \<Rightarrow> bool" where
  "isFinalSyncComplete replicationSource =
     (case RSStatus replicationSource of
        None \<Rightarrow> False
      | Some st \<Rightarrow> if LastManualSync st \<noteq> FinalSyncTriggerString then False else True)"

definition objectRefMatches ::
  "TypedLocalObjectReference option \<Rightarrow> TypedLocalObjectReference option \<Rightarrow> bool" where
  "objectRefMatches a b =
     (case a of
        None \<Rightarrow> b = None
      | Some ra \<Rightarrow>
          (case b of
             None \<Rightarrow> False
           | Some rb \<Rightarrow> Kind ra = Kind rb \<and> RefName ra = RefName rb))"

subsection \<open>Labels and owner references\<close>

definition addVRGOwnerLabel :: "ObjectMeta \<Rightarrow> 'a ObjectMeta_scheme \<Rightarrow> 'a ObjectMeta_scheme" where
  "addVRGOwnerLabel ownr obj = obj\<lparr>Labels := (Labels obj)(VRGOwnerLabel \<mapsto> Name ownr)\<rparr>"

definition addLabel ::
  "'a ObjectMeta_scheme \<Rightarrow> string \<Rightarrow> string \<Rightarrow> bool \<times> 'a ObjectMeta_scheme" where
  "addLabel obj labelName labelValue =
     (let labels = Labels obj
      in if labels labelName \<noteq> Some labelValue
         then (True, obj\<lparr>Labels := labels(labelName \<mapsto> labelValue)\<rparr>)
         else (False, obj))"

text \<open>
  \<open>addOwnerReference\<close> keeps the slice of owner references it read before the call and
  compares it with the slice after it. \<open>upsertOwnerRef\<close> writes a replaced entry into
  the same backing array, so the kept slice shows the new entry too, and an appended
  entry lies beyond its length: after the call the kept slice is the new one cut to the
  old length.
\<close>

definition addOwnerReference ::
  "string \<times> string \<Rightarrow> 'a ObjectMeta_scheme \<Rightarrow> 'o ObjectMeta_scheme
     \<Rightarrow> error + bool \<times> 'a ObjectMeta_scheme" where
  "addOwnerReference gvk obj ownr =
     (let n = length (OwnerReferences obj)
      in case SetOwnerReference gvk ownr obj of
           Inl err \<Rightarrow> Inl err
         | Inr obj' \<Rightarrow>
             (let currentOwnerRefs = take n (OwnerReferences obj');
                  needsUpdate = (OwnerReferences obj' \<noteq> currentOwnerRefs)
              in Inr (needsUpdate, obj')))"

definition addOwnerReferenceAndUpdate ::
  "'a ObjectMeta_scheme resource \<Rightarrow> VSHandler \<Rightarrow> 'a ObjectMeta_scheme \<Rightarrow> string \<times> string
     \<Rightarrow> 'o ObjectMeta_scheme \<Rightarrow> error option \<times> VSHandler" where
  "addOwnerReferenceAndUpdate K v obj gvk ownr =
     (case addOwnerReference gvk obj ownr of
        Inl err \<Rightarrow> (Some err, v)
      | Inr (needsUpdate, obj') \<Rightarrow>
          if needsUpdate then
            (case client_Update K (client v) obj' of
               (Inl err, c') \<Rightarrow> (Some err, v\<lparr>client := c'\<rparr>)
             | (Inr _, c') \<Rightarrow> (None, v\<lparr>client := c'\<rparr>))
          else (None, v))"

definition addLabelAndVRGOwnerRefAndUpdate ::
  "'a ObjectMeta_scheme resource \<Rightarrow> VSHandler \<Rightarrow> 'a ObjectMeta_scheme \<Rightarrow> string \<Rightarrow> string
     \<Rightarrow> (error + 'a ObjectMeta_scheme) \<times> VSHandler" where
  "addLabelAndVRGOwnerRefAndUpdate K v obj labelName labelValue =
     (case addLabel obj labelName labelValue of
        (labelsUpdated, obj1) \<Rightarrow>
          (case addOwnerReference (ownerGVK v) obj1 (owner v) of
             Inl err \<Rightarrow> (Inl err, v)
           | Inr (ownerRefUpdated, obj2) \<Rightarrow>
               if labelsUpdated \<or> ownerRefUpdated then
                 (case client_Update K (client v) obj2 of
                    (Inl err, c') \<Rightarrow> (Inl err, v\<lparr>client := c'\<rparr>)
                  | (Inr _, c') \<Rightarrow> (Inr obj2, v\<lparr>client := c'\<rparr>))
               else (Inr obj2, v)))"

subsection \<open>Listing and deleting the owner's children\<close>

definition listByOwner ::
  "'a ObjectMeta_scheme resource \<Rightarrow> VSHandler \<Rightarrow> error + 'a ObjectMeta_scheme list" where
  "listByOwner K v =
     client_List K (client v)
       (\<lambda>obj. Namespace obj = Namespace (owner v)
              \<and> Labels obj VRGOwnerLabel = Some (Name (owner v)))"

definition listRSByOwner :: "VSHandler \<Rightarrow> error + ReplicationSource list" where
  "listRSByOwner v = listByOwner ReplicationSources v"

definition listRDByOwner :: "VSHandler \<Rightarrow> error + ReplicationDestination list" where
  "listRDByOwner v = listByOwner ReplicationDestinations v"

text \<open>
  The loops of \<open>DeleteRS\<close> and \<open>DeleteRD\<close> over the listed items: a failed delete is
  logged and the loop goes on.
\<close>

fun deleteNamed ::
  "'a ObjectMeta_scheme resource \<Rightarrow> cluster \<Rightarrow> 'a ObjectMeta_scheme list \<Rightarrow> string \<Rightarrow> cluster" where
  "deleteNamed K c [] n = c"
| "deleteNamed K c (item # items) n =
     (if Name item = n
      then deleteNamed K (snd (client_Delete K c (Namespace item) (Name item))) items n
      else deleteNamed K c items n)"

definition DeleteRS :: "VSHandler \<Rightarrow> string \<Rightarrow> error option \<times> VSHandler" where
  "DeleteRS v pvcName =
     (case listRSByOwner v of
        Inl err \<Rightarrow> (Some err, v)
      | Inr currentRSListByOwner \<Rightarrow>
          (None, v\<lparr>client := deleteNamed ReplicationSources (client v) currentRSListByOwner
                               (getReplicationSourceName pvcName)\<rparr>))"

definition DeleteRD :: "VSHandler \<Rightarrow> string \<Rightarrow> error option \<times> VSHandler" where
  "DeleteRD v pvcName =
     (case listRDByOwner v of
        Inl err \<Rightarrow> (Some err, v)
      | Inr currentRDListByOwner \<Rightarrow>
          (None, v\<lparr>client := deleteNamed ReplicationDestinations (client v) currentRDListByOwner
                               (getReplicationDestinationName pvcName)\<rparr>))"

subsection \<open>Volume claims: lookup, in-use check, delete\<close>

definition getPVC :: "VSHandler \<Rightarrow> string \<Rightarrow> error + PersistentVolumeClaim" where
  "getPVC v pvcName = client_Get PersistentVolumeClaims (client v) (Namespace (owner v)) pvcName"

text \<open>The pod index of \<open>IndexFieldsForVSHandler\<close>: the claim names a pod mounts.\<close>

fun podClaimNames :: "PodVolume list \<Rightarrow> string list" where
  "podClaimNames [] = []"
| "podClaimNames (vol # vols) =
     (case PersistentVolumeClaimName vol of
        None \<Rightarrow> podClaimNames vols
      | Some claimName \<Rightarrow> claimName # podClaimNames vols)"

definition isPvcInUse :: "VSHandler \<Rightarrow> string \<Rightarrow> error + bool" where
  "isPvcInUse v pvcName =
     (case client_List Pods (client v)
             (\<lambda>pod. pvcName \<in> set (podClaimNames (Volumes pod))
                    \<and> Namespace pod = Namespace (owner v)) of
        Inl err \<Rightarrow> Inl err
      | Inr podUsingPVCList \<Rightarrow> if length podUsingPVCList = 0 then Inr False else Inr True)"

definition pvcExistsAndInUse :: "VSHandler \<Rightarrow> string \<Rightarrow> error + bool" where
  "pvcExistsAndInUse v pvcName =
     (case getPVC v pvcName of
        Inl err \<Rightarrow> if err = NotFound then Inr False else Inl err
      | Inr _ \<Rightarrow> isPvcInUse v pvcName)"

definition deletePVC :: "VSHandler \<Rightarrow> string \<Rightarrow> error option \<times> VSHandler" where
  "deletePVC v pvcName =
     (case client_Delete PersistentVolumeClaims (client v) (Namespace (owner v)) pvcName of
        (Some err, c') \<Rightarrow>
          if err \<noteq> NotFound then (Some err, v\<lparr>client := c'\<rparr>) else (None, v\<lparr>client := c'\<rparr>)
      | (None, c') \<Rightarrow> (None, v\<lparr>client := c'\<rparr>))"

definition validatePVCAndAddVRGOwnerRef ::
  "VSHandler \<Rightarrow> string \<Rightarrow> (error + PersistentVolumeClaim) \<times> VSHandler" where
  "validatePVCAndAddVRGOwnerRef v pvcName =
     (case getPVC v pvcName of
        Inl err \<Rightarrow> (Inl err, v)
      | Inr pvc \<Rightarrow>
          addLabelAndVRGOwnerRefAndUpdate PersistentVolumeClaims v pvc
            ACMAppSubDoNotDeleteLabel ACMAppSubDoNotDeleteLabelVal)"

text \<open>
  \<open>PreparePVCForFinalSync\<close>. The loop over the annotations keeps the entries whose key
  does not start with the ACM prefix; on a map that is the restriction to those keys.
\<close>

definition PreparePVCForFinalSync :: "VSHandler \<Rightarrow> string \<Rightarrow> (bool \<times> error option) \<times> VSHandler" where
  "PreparePVCForFinalSync v pvcName =
     (case validatePVCAndAddVRGOwnerRef v pvcName of
        (Inl err, v1) \<Rightarrow> ((False, Some err), v1)
      | (Inr pvc, v1) \<Rightarrow>
          (let reconcileOption =
                 Annotations pvc ''apps.open-cluster-management.io/reconcile-option''
           in if reconcileOption \<noteq> None \<and> reconcileOption \<noteq> Some ''merge''
              then ((False, None), v1)
              else
                (let updatedAnnotations =
                       (\<lambda>currAnnotationKey.
                          if \<not> prefix ''apps.open-cluster-management.io'' currAnnotationKey
                          then Annotations pvc currAnnotationKey else None)
                 in case client_Update PersistentVolumeClaims (client v1)
                           (pvc\<lparr>Annotations := updatedAnnotations\<rparr>) of
                      (Inl err, c') \<Rightarrow> ((False, Some err), v1\<lparr>client := c'\<rparr>)
                    | (Inr _, c') \<Rightarrow> ((True, None), v1\<lparr>client := c'\<rparr>))))"

subsection \<open>The transport secret\<close>

definition validateSecretAndAddVRGOwnerRef ::
  "VSHandler \<Rightarrow> string \<Rightarrow> (bool \<times> error option) \<times> VSHandler" where
  "validateSecretAndAddVRGOwnerRef v secretName =
     (case client_Get Secrets (client v) (Namespace (owner v)) secretName of
        Inl err \<Rightarrow>
          if err \<noteq> NotFound then ((False, Some err), v) else ((False, None), v)
      | Inr secret \<Rightarrow>
          (case addOwnerReferenceAndUpdate Secrets v secret (ownerGVK v) (owner v) of
             (Some err, v') \<Rightarrow> ((True, Some err), v')
           | (None, v') \<Rightarrow> ((True, None), v')))"

subsection \<open>Snapshot classes and the schedule\<close>

definition isDefaultVolumeSnapshotClass :: "VolumeSnapshotClass \<Rightarrow> bool" where
  "isDefaultVolumeSnapshotClass volumeSnapshotClass =
     (Annotations volumeSnapshotClass VolumeSnapshotIsDefaultAnnotation
        = Some VolumeSnapshotIsDefaultAnnotationValue)"

definition LabelSelectorAsSelector :: "(string \<times> string) list \<Rightarrow> (string \<rightharpoonup> string) \<Rightarrow> bool" where
  "LabelSelectorAsSelector matchLabels labels = list_all (\<lambda>(k, val). labels k = Some val) matchLabels"

definition GetVolumeSnapshotClasses ::
  "VSHandler \<Rightarrow> (error + VolumeSnapshotClass list) \<times> VSHandler" where
  "GetVolumeSnapshotClasses v =
     (case volumeSnapshotClassList v of
        Some items \<Rightarrow> (Inr items, v)
      | None \<Rightarrow>
          (case client_List VolumeSnapshotClasses (client v)
                  (\<lambda>vsc. LabelSelectorAsSelector (volumeSnapshotClassSelector v) (Labels vsc)) of
             Inl err \<Rightarrow> (Inl err, v)
           | Inr vscList \<Rightarrow> (Inr vscList, v\<lparr>volumeSnapshotClassList := Some vscList\<rparr>)))"

text \<open>
  The loop of \<open>GetVolumeSnapshotClassFromPVCStorageClass\<close>: the first class whose driver
  is the provisioner, replaced by any later one that is the default class.
\<close>

fun matchVolumeSnapshotClass :: "VolumeSnapshotClass list \<Rightarrow> string \<Rightarrow> string \<Rightarrow> string" where
  "matchVolumeSnapshotClass [] provisioner matched = matched"
| "matchVolumeSnapshotClass (volumeSnapshotClass # rest) provisioner matched =
     matchVolumeSnapshotClass rest provisioner
       (if Driver volumeSnapshotClass = provisioner
        then (if matched = [] \<or> isDefaultVolumeSnapshotClass volumeSnapshotClass
              then Name volumeSnapshotClass else matched)
        else matched)"

definition GetVolumeSnapshotClassFromPVCStorageClass ::
  "VSHandler \<Rightarrow> string option \<Rightarrow> (error + string) \<times> VSHandler" where
  "GetVolumeSnapshotClassFromPVCStorageClass v storageClassName =
     (case storageClassName of
        None \<Rightarrow> (Inl NoStorageClassName, v)
      | Some scName \<Rightarrow>
          if scName = [] then (Inl NoStorageClassName, v)
          else
            (case client_Get StorageClasses (client v) [] scName of
               Inl err \<Rightarrow> (Inl err, v)
             | Inr storageClass \<Rightarrow>
                 (case GetVolumeSnapshotClasses v of
                    (Inl err, v') \<Rightarrow> (Inl err, v')
                  | (Inr vsClasses, v') \<Rightarrow>
                      (let matchedVolumeSnapshotClassName =
                             matchVolumeSnapshotClass vsClasses
                               (Provisioner storageClass) []
                       in if matchedVolumeSnapshotClassName = []
                          then (Inl (NoVolumeSnapshotClassFound (Provisioner storageClass)), v')
                          else (Inr matchedVolumeSnapshotClassName, v')))))"

definition getScheduleCronSpec :: "VSHandler \<Rightarrow> error + string" where
  "getScheduleCronSpec v =
     (if schedulingInterval v \<noteq> []
      then ConvertSchedulingIntervalToCronSpec (schedulingInterval v)
      else Inr (DefaultScheduleCronSpec v))"

definition getRsyncServiceType :: "VSHandler \<Rightarrow> string option" where
  "getRsyncServiceType v = Some (DefaultRsyncServiceType v)"


subsection \<open>Replication destination\<close>

text \<open>
  The mutation function that \<open>createOrUpdateRD\<close> passes to \<open>CreateOrUpdate\<close>, with the
  variables it captures as arguments.
\<close>

definition createOrUpdateRD_mutate ::
  "VSHandler \<Rightarrow> VolSyncReplicationDestinationSpec \<Rightarrow> string \<Rightarrow> string \<Rightarrow> string list
     \<Rightarrow> ReplicationDestination \<Rightarrow> error + ReplicationDestination" where
  "createOrUpdateRD_mutate v rdSpec sshKeysSecretName volumeSnapshotClassName pvcAccessModes rd =
     (case SetControllerReference (ownerGVK v) (owner v) rd of
        Inl err \<Rightarrow> Inl err
      | Inr rd1 \<Rightarrow>
          Inr ((addVRGOwnerLabel (owner v) rd1)
            \<lparr>RDSpecRsync := Some
               \<lparr>RDServiceType = getRsyncServiceType v,
                RDSSHKeys = Some sshKeysSecretName,
                RDCopyMethod = CopyMethodSnapshot,
                RDCapacity = Some (Storage (Requests (Resources (RDProtectedPVC rdSpec)))),
                RDStorageClassName = StorageClassName (RDProtectedPVC rdSpec),
                RDAccessModes = pvcAccessModes,
                RDVolumeSnapshotClassName = Some volumeSnapshotClassName\<rparr>\<rparr>))"

definition createOrUpdateRD ::
  "VSHandler \<Rightarrow> VolSyncReplicationDestinationSpec \<Rightarrow> string
     \<Rightarrow> (error + ReplicationDestination) \<times> VSHandler" where
  "createOrUpdateRD v rdSpec sshKeysSecretName =
     (case GetVolumeSnapshotClassFromPVCStorageClass v
             (StorageClassName (RDProtectedPVC rdSpec)) of
        (Inl err, v1) \<Rightarrow> (Inl err, v1)
      | (Inr volumeSnapshotClassName, v1) \<Rightarrow>
          (let pvcAccessModes =
                 (if length (AccessModes (RDProtectedPVC rdSpec)) > 0
                  then AccessModes (RDProtectedPVC rdSpec) else [ReadWriteOnce]);
               rd = \<lparr>Name = getReplicationDestinationName (PVCName (RDProtectedPVC rdSpec)),
                     Namespace = Namespace (owner v1),
                     Labels = Map.empty, Annotations = Map.empty, OwnerReferences = [],
                     CreationTimestamp = 0, RDSpecRsync = None, RDStatus = None\<rparr>
           in case CreateOrUpdate ReplicationDestinations (client v1) rd
                     (createOrUpdateRD_mutate v1 rdSpec sshKeysSecretName
                        volumeSnapshotClassName pvcAccessModes) of
                (Inl err, c') \<Rightarrow> (Inl err, v1\<lparr>client := c'\<rparr>)
              | (Inr (op, rd'), c') \<Rightarrow> (Inr rd', v1\<lparr>client := c'\<rparr>)))"

definition reconcileServiceExportForRD ::
  "VSHandler \<Rightarrow> ReplicationDestination \<Rightarrow> error option \<times> VSHandler" where
  "reconcileServiceExportForRD v rd =
     (let svcExport = emptyMeta (getLocalServiceNameForRD (Name rd)) (Namespace rd)
      in case CreateOrUpdate ServiceExports (client v) svcExport
                (\<lambda>svcExport. SetOwnerReference ReplicationDestinationGVK rd svcExport) of
           (Inl err, c') \<Rightarrow> (Some err, v\<lparr>client := c'\<rparr>)
         | (Inr _, c') \<Rightarrow> (None, v\<lparr>client := c'\<rparr>))"

text \<open>
  \<open>ReconcileRD\<close> returns the destination, or nil with or without an error: the result is
  an error or an optional destination.
\<close>

definition ReconcileRD ::
  "VSHandler \<Rightarrow> VolSyncReplicationDestinationSpec
     \<Rightarrow> (error + ReplicationDestination option) \<times> VSHandler" where
  "ReconcileRD v rdSpec =
     (if \<not> ProtectedByVolSync (RDProtectedPVC rdSpec)
      then (Inl (NotVolSyncEnabled (PVCName (RDProtectedPVC rdSpec))), v)
      else
        (let sshKeysSecretName = GetVolSyncSSHSecretNameFromVRGName v (Name (owner v))
         in case validateSecretAndAddVRGOwnerRef v sshKeysSecretName of
              ((secretExists, err), v1) \<Rightarrow>
                if err \<noteq> None \<or> \<not> secretExists
                then ((case err of Some e \<Rightarrow> Inl e | None \<Rightarrow> Inr None), v1)
                else
                  (case DeleteRS v1 (PVCName (RDProtectedPVC rdSpec)) of
                     (Some err, v2) \<Rightarrow> (Inl err, v2)
                   | (None, v2) \<Rightarrow>
                       (case createOrUpdateRD v2 rdSpec sshKeysSecretName of
                          (Inl err, v3) \<Rightarrow> (Inl err, v3)
                        | (Inr rd, v3) \<Rightarrow>
                            (case reconcileServiceExportForRD v3 rd of
                               (Some err, v4) \<Rightarrow> (Inl err, v4)
                             | (None, v4) \<Rightarrow>
                                 if \<not> rdStatusReady rd then (Inr None, v4)
                                 else (Inr (Some rd), v4))))))"

subsection \<open>Replication source\<close>

definition validatePVCBeforeFinalSync ::
  "VSHandler \<Rightarrow> VolSyncReplicationSourceSpec \<Rightarrow> bool \<Rightarrow> bool \<times> error option" where
  "validatePVCBeforeFinalSync v rsSpec runFinalSync =
     (if \<not> runFinalSync then (True, None)
      else
        (case pvcExistsAndInUse v (PVCName (RSProtectedPVC rsSpec)) of
           Inl err \<Rightarrow> (False, Some err)
         | Inr existsAndInUse \<Rightarrow> if existsAndInUse then (False, None) else (True, None)))"

definition cleanupAfterRSFinalSync ::
  "VSHandler \<Rightarrow> VolSyncReplicationSourceSpec \<Rightarrow> error option \<times> VSHandler" where
  "cleanupAfterRSFinalSync v rsSpec = deletePVC v (PVCName (RSProtectedPVC rsSpec))"

text \<open>
  The mutation function that \<open>createOrUpdateRS\<close> passes to \<open>CreateOrUpdate\<close>, with the
  variables it captures as arguments.
\<close>

definition createOrUpdateRS_mutate ::
  "VSHandler \<Rightarrow> VolSyncReplicationSourceSpec \<Rightarrow> string \<Rightarrow> bool \<Rightarrow> string \<Rightarrow> string
     \<Rightarrow> ReplicationSource \<Rightarrow> error + ReplicationSource" where
  "createOrUpdateRS_mutate v rsSpec sshKeysSecretName runFinalSync volumeSnapshotClassName
       remoteAddress rs =
     (case SetControllerReference (ownerGVK v) (owner v) rs of
        Inl err \<Rightarrow> Inl err
      | Inr rs1 \<Rightarrow>
          (let rs2 = (addVRGOwnerLabel (owner v) rs1)
                       \<lparr>SourcePVC := PVCName (RSProtectedPVC rsSpec)\<rparr>
           in case (if runFinalSync
                    then Inr (rs2\<lparr>Trigger := Some
                           \<lparr>Schedule = None, Manual = FinalSyncTriggerString\<rparr>\<rparr>)
                    else (case getScheduleCronSpec v of
                            Inl err \<Rightarrow> Inl err
                          | Inr scheduleCronSpec \<Rightarrow>
                              Inr (rs2\<lparr>Trigger := Some
                                \<lparr>Schedule = Some scheduleCronSpec, Manual = []\<rparr>\<rparr>))) of
                Inl err \<Rightarrow> Inl err
              | Inr rs3 \<Rightarrow>
                  Inr (rs3\<lparr>RSSpecRsync := Some
                    \<lparr>RSSSHKeys = Some sshKeysSecretName,
                     RSAddress = Some remoteAddress,
                     RSCopyMethod = CopyMethodSnapshot,
                     RSVolumeSnapshotClassName = Some volumeSnapshotClassName\<rparr>\<rparr>)))"

definition createOrUpdateRS ::
  "VSHandler \<Rightarrow> VolSyncReplicationSourceSpec \<Rightarrow> string \<Rightarrow> bool
     \<Rightarrow> (error + ReplicationSource) \<times> VSHandler" where
  "createOrUpdateRS v rsSpec sshKeysSecretName runFinalSync =
     (case GetVolumeSnapshotClassFromPVCStorageClass v
             (StorageClassName (RSProtectedPVC rsSpec)) of
        (Inl err, v1) \<Rightarrow> (Inl err, v1)
      | (Inr volumeSnapshotClassName, v1) \<Rightarrow>
          (let remoteAddress =
                 getRemoteServiceNameForRDFromPVCName (PVCName (RSProtectedPVC rsSpec))
                   (Namespace (owner v1));
               rs = \<lparr>Name = getReplicationSourceName (PVCName (RSProtectedPVC rsSpec)),
                     Namespace = Namespace (owner v1),
                     Labels = Map.empty, Annotations = Map.empty, OwnerReferences = [],
                     CreationTimestamp = 0, SourcePVC = [], Trigger = None,
                     RSSpecRsync = None, RSStatus = None\<rparr>
           in case CreateOrUpdate ReplicationSources (client v1) rs
                     (createOrUpdateRS_mutate v1 rsSpec sshKeysSecretName runFinalSync
                        volumeSnapshotClassName remoteAddress) of
                (Inl err, c') \<Rightarrow> (Inl err, v1\<lparr>client := c'\<rparr>)
              | (Inr (op, rs'), c') \<Rightarrow> (Inr rs', v1\<lparr>client := c'\<rparr>)))"

text \<open>
  \<open>ReconcileRS\<close> returns three values: whether the final sync is complete, the source or
  nil, and the error or nil. The last \<open>return\<close> of the source passes on \<open>err\<close>, which is
  nil there.
\<close>

definition ReconcileRS ::
  "VSHandler \<Rightarrow> VolSyncReplicationSourceSpec \<Rightarrow> bool
     \<Rightarrow> (bool \<times> ReplicationSource option \<times> error option) \<times> VSHandler" where
  "ReconcileRS v rsSpec runFinalSync =
     (if \<not> ProtectedByVolSync (RSProtectedPVC rsSpec)
      then ((False, None, Some (NotVolSyncEnabled (PVCName (RSProtectedPVC rsSpec)))), v)
      else
        (let sshKeysSecretName = GetVolSyncSSHSecretNameFromVRGName v (Name (owner v))
         in case validateSecretAndAddVRGOwnerRef v sshKeysSecretName of
              ((secretExists, err), v1) \<Rightarrow>
                if err \<noteq> None \<or> \<not> secretExists then ((False, None, err), v1)
                else
                  (case DeleteRD v1 (PVCName (RSProtectedPVC rsSpec)) of
                     (Some err, v2) \<Rightarrow> ((False, None, Some err), v2)
                   | (None, v2) \<Rightarrow>
                       (case validatePVCBeforeFinalSync v2 rsSpec runFinalSync of
                          (pvcOk, err) \<Rightarrow>
                            if \<not> pvcOk \<or> err \<noteq> None then ((False, None, err), v2)
                            else
                              (case createOrUpdateRS v2 rsSpec sshKeysSecretName runFinalSync of
                                 (Inl err, v3) \<Rightarrow> ((False, None, Some err), v3)
                               | (Inr replicationSource, v3) \<Rightarrow>
                                   if \<not> isRSLastSyncTimeReady (RSStatus replicationSource)
                                   then ((False, None, None), v3)
                                   else if runFinalSync \<and> isFinalSyncComplete replicationSource
                                   then
                                     (case cleanupAfterRSFinalSync v3 rsSpec of
                                        (err, v4) \<Rightarrow> ((True, Some replicationSource, err), v4))
                                   else ((False, Some replicationSource, None), v3))))))"

subsection \<open>Data-protection predicates\<close>

text \<open>
  The two predicates only read through the client. They are written in the same
  handler-passing form as the rest, so that what they leave behind can be stated.
\<close>

definition IsRSDataProtected :: "VSHandler \<Rightarrow> string \<Rightarrow> (error + bool) \<times> VSHandler" where
  "IsRSDataProtected v pvcName =
     (case client_Get ReplicationSources (client v) (Namespace (owner v))
             (getReplicationSourceName pvcName) of
        Inl err \<Rightarrow> if err \<noteq> NotFound then (Inl err, v) else (Inr False, v)
      | Inr rs \<Rightarrow> (Inr (isRSLastSyncTimeReady (RSStatus rs)), v))"

definition getRDLatestImage ::
  "VSHandler \<Rightarrow> string \<Rightarrow> (error + TypedLocalObjectReference option) \<times> VSHandler" where
  "getRDLatestImage v pvcName =
     (case client_Get ReplicationDestinations (client v) (Namespace (owner v))
             (getReplicationDestinationName pvcName) of
        Inl err \<Rightarrow> if err \<noteq> NotFound then (Inl err, v) else (Inr None, v)
      | Inr rdInst \<Rightarrow>
          (Inr (case RDStatus rdInst of None \<Rightarrow> None | Some st \<Rightarrow> LatestImage st), v))"

definition IsRDDataProtected :: "VSHandler \<Rightarrow> string \<Rightarrow> (error + bool) \<times> VSHandler" where
  "IsRDDataProtected v pvcName =
     (case getRDLatestImage v pvcName of
        (Inl err, v') \<Rightarrow> (Inl err, v')
      | (Inr latestImage, v') \<Rightarrow> (Inr (isLatestImageReady latestImage), v'))"

subsection \<open>Materializing a claim from a snapshot\<close>

text \<open>
  The mutation function of \<open>ensurePVCFromSnapshot\<close>; the captured flag
  \<open>pvcNeedsRecreation\<close> is its second argument and result. Copying the descriptor's
  labels into the claim's labels (or taking them over when the claim has none) is the
  right-biased union of the two maps.
\<close>

definition ensurePVCFromSnapshot_mutate ::
  "VolSyncReplicationDestinationSpec \<Rightarrow> TypedLocalObjectReference
     \<Rightarrow> PersistentVolumeClaim \<Rightarrow> bool \<Rightarrow> (error + PersistentVolumeClaim) \<times> bool" where
  "ensurePVCFromSnapshot_mutate rdSpec snapshotRef pvc pvcNeedsRecreation =
     (if CreationTimestamp pvc \<noteq> 0
         \<and> \<not> objectRefMatches (SpecDataSource pvc) (Some snapshotRef)
      then (Inr pvc, True)
      else if StatusPhase pvc = ClaimBound then (Inr pvc, pvcNeedsRecreation)
      else
        (let pvc1 = pvc\<lparr>Labels := Labels pvc ++ PVCLabels (RDProtectedPVC rdSpec)\<rparr>;
             accessModes =
               (if length (AccessModes (RDProtectedPVC rdSpec)) > 0
                then AccessModes (RDProtectedPVC rdSpec) else [ReadWriteOnce]);
             pvc2 =
               (if CreationTimestamp pvc1 = 0
                then pvc1\<lparr>SpecAccessModes := accessModes,
                          SpecStorageClassName := StorageClassName (RDProtectedPVC rdSpec),
                          SpecDataSource := Some snapshotRef\<rparr>
                else pvc1)
         in (Inr (pvc2\<lparr>SpecResources := Resources (RDProtectedPVC rdSpec)\<rparr>),
             pvcNeedsRecreation)))"

definition ensurePVCFromSnapshot ::
  "VSHandler \<Rightarrow> VolSyncReplicationDestinationSpec \<Rightarrow> TypedLocalObjectReference
     \<Rightarrow> (error + PersistentVolumeClaim) \<times> VSHandler" where
  "ensurePVCFromSnapshot v rdSpec snapshotRef =
     (let pvc = \<lparr>Name = PVCName (RDProtectedPVC rdSpec), Namespace = Namespace (owner v),
                  Labels = Map.empty, Annotations = Map.empty, OwnerReferences = [],
                  CreationTimestamp = 0, SpecAccessModes = [], SpecStorageClassName = None,
                  SpecDataSource = None,
                  SpecResources = \<lparr>Limits = Map.empty, Requests = Map.empty\<rparr>,
                  StatusPhase = []\<rparr>
      in case CreateOrUpdateEnv PersistentVolumeClaims (client v) pvc
                (ensurePVCFromSnapshot_mutate rdSpec snapshotRef) False of
           (Inl err, c', _) \<Rightarrow> (Inl err, v\<lparr>client := c'\<rparr>)
         | (Inr (op, pvc'), c', pvcNeedsRecreation) \<Rightarrow>
             if pvcNeedsRecreation then
               (Inl (PVCNeedsRecreation (Name pvc')),
                v\<lparr>client := snd (client_Delete PersistentVolumeClaims c'
                                     (Namespace pvc') (Name pvc'))\<rparr>)
             else (Inr pvc', v\<lparr>client := c'\<rparr>))"

definition validateSnapshotAndAddDoNotDeleteLabel ::
  "VSHandler \<Rightarrow> TypedLocalObjectReference \<Rightarrow> (error + VolumeSnapshot) \<times> VSHandler" where
  "validateSnapshotAndAddDoNotDeleteLabel v volumeSnapshotRef =
     (case client_Get VolumeSnapshots (client v) (Namespace (owner v))
             (RefName volumeSnapshotRef) of
        Inl err \<Rightarrow> (Inl err, v)
      | Inr volSnap \<Rightarrow>
          (case addLabel volSnap VolSyncDoNotDeleteLabel VolSyncDoNotDeleteLabelVal of
             (labelsUpdated, volSnap') \<Rightarrow>
               if labelsUpdated then
                 (case client_Update VolumeSnapshots (client v) volSnap' of
                    (Inl err, c') \<Rightarrow> (Inl err, v\<lparr>client := c'\<rparr>)
                  | (Inr _, c') \<Rightarrow> (Inr volSnap', v\<lparr>client := c'\<rparr>))
               else (Inr volSnap', v)))"

definition validateSnapshotAndEnsurePVC ::
  "VSHandler \<Rightarrow> VolSyncReplicationDestinationSpec \<Rightarrow> TypedLocalObjectReference
     \<Rightarrow> error option \<times> VSHandler" where
  "validateSnapshotAndEnsurePVC v rdSpec snapshotRef =
     (case validateSnapshotAndAddDoNotDeleteLabel v snapshotRef of
        (Inl err, v1) \<Rightarrow> (Some err, v1)
      | (Inr snap, v1) \<Rightarrow>
          (case ensurePVCFromSnapshot v1 rdSpec snapshotRef of
             (Inl err, v2) \<Rightarrow> (Some err, v2)
           | (Inr pvc, v2) \<Rightarrow>
               addOwnerReferenceAndUpdate VolumeSnapshots v2 snap PersistentVolumeClaimGVK pvc))"

definition EnsurePVCfromRD ::
  "VSHandler \<Rightarrow> VolSyncReplicationDestinationSpec \<Rightarrow> error option \<times> VSHandler" where
  "EnsurePVCfromRD v rdSpec =
     (case getRDLatestImage v (PVCName (RDProtectedPVC rdSpec)) of
        (Inl err, v1) \<Rightarrow> (Some err, v1)
      | (Inr latestImage, v1) \<Rightarrow>
          (case latestImage of
             None \<Rightarrow> (Some (NoLatestImage (PVCName (RDProtectedPVC rdSpec))), v1)
           | Some img \<Rightarrow>
               if \<not> isLatestImageReady latestImage
               then (Some (NoLatestImage (PVCName (RDProtectedPVC rdSpec))), v1)
               else
                 (let vsImageRef =
                        (if APIGroup img = None \<or> APIGroup img = Some []
                         then img\<lparr>APIGroup := Some SnapshotGroupName\<rparr> else img)
                  in validateSnapshotAndEnsurePVC v1 rdSpec vsImageRef)))"

subsection \<open>Sequences of reconcile calls\<close>





section \<open>Example states\<close>

text \<open>
  Concrete clusters and a handler for an owner \<open>vrg1\<close> in namespace \<open>ns1\<close>, used to
  evaluate the handler on explicit inputs.
\<close>

definition emptyCluster :: cluster where
  "emptyCluster = \<lparr>secrets = [], replicationSources = [], replicationDestinations = [],
     persistentVolumeClaims = [], pods = [], storageClasses = [], volumeSnapshotClasses = [],
     volumeSnapshots = [], serviceExports = [], now = 0, faults = {}\<rparr>"

definition exampleHandler :: "cluster \<Rightarrow> VSHandler" where
  "exampleHandler c = \<lparr>client = c, owner = emptyMeta ''vrg1'' ''ns1'',
     ownerGVK = (''ramendr.openshift.io'', ''VolumeReplicationGroup''),
     schedulingInterval = ''10m'', volumeSnapshotClassSelector = [],
     volumeSnapshotClassList = None,
     GetVolSyncSSHSecretNameFromVRGName = (\<lambda>vrgName. vrgName @ ''-vs-secret''),
     DefaultRsyncServiceType = ''ClusterIP'', DefaultScheduleCronSpec = ''*/10 * * * *''\<rparr>"

definition exampleProtectedPVC :: ProtectedPVC where
  "exampleProtectedPVC = \<lparr>PVCName = ''pvc1'', ProtectedByVolSync = True,
     StorageClassName = Some ''sc1'', AccessModes = [],
     Resources = \<lparr>Limits = Map.empty, Requests = [''storage'' \<mapsto> 10]\<rparr>,
     PVCLabels = Map.empty\<rparr>"

definition exampleRD :: "ReplicationDestinationStatus option \<Rightarrow> ReplicationDestination" where
  "exampleRD st = \<lparr>Name = ''pvc1'', Namespace = ''ns1'',
     Labels = [''volumereplicationgroups-owner'' \<mapsto> ''vrg1''], Annotations = Map.empty,
     OwnerReferences = [], CreationTimestamp = 1, RDSpecRsync = None, RDStatus = st\<rparr>"

definition exampleRS :: "ReplicationSourceStatus option \<Rightarrow> ReplicationSource" where
  "exampleRS st = \<lparr>Name = ''pvc1'', Namespace = ''ns1'',
     Labels = [''volumereplicationgroups-owner'' \<mapsto> ''vrg1''], Annotations = Map.empty,
     OwnerReferences = [], CreationTimestamp = 1, SourcePVC = ''pvc1'', Trigger = None,
     RSSpecRsync = None, RSStatus = st\<rparr>"

definition examplePVC ::
  "(string \<rightharpoonup> string) \<Rightarrow> TypedLocalObjectReference option \<Rightarrow> nat \<Rightarrow> string
     \<Rightarrow> PersistentVolumeClaim" where
  "examplePVC ann src req phase = \<lparr>Name = ''pvc1'', Namespace = ''ns1'',
     Labels = Map.empty, Annotations = ann, OwnerReferences = [], CreationTimestamp = 1,
     SpecAccessModes = [''ReadWriteOnce''], SpecStorageClassName = Some ''sc1'',
     SpecDataSource = src,
     SpecResources = \<lparr>Limits = Map.empty, Requests = [''storage'' \<mapsto> req]\<rparr>,
     StatusPhase = phase\<rparr>"

definition exampleSnapshotRef :: "string \<Rightarrow> TypedLocalObjectReference" where
  "exampleSnapshotRef n = \<lparr>APIGroup = Some ''snapshot.storage.k8s.io'',
     Kind = ''VolumeSnapshot'', RefName = n\<rparr>"

definition examplePod :: Pod where
  "examplePod = \<lparr>Name = ''pod1'', Namespace = ''ns1'', Labels = Map.empty,
     Annotations = Map.empty, OwnerReferences = [], CreationTimestamp = 1,
     Volumes = [\<lparr>PersistentVolumeClaimName = None\<rparr>,
                \<lparr>PersistentVolumeClaimName = Some ''pvc1''\<rparr>]\<rparr>"

text \<open>
  A cluster that has what a reconcile needs: the owner's SSH secret, the storage class
  \<open>sc1\<close> and a snapshot class of the same driver.
\<close>

definition readyCluster :: cluster where
  "readyCluster = emptyCluster
     \<lparr>secrets := [emptyMeta ''vrg1-vs-secret'' ''ns1''],
      storageClasses := [\<lparr>Name = ''sc1'', Namespace = [], Labels = Map.empty,
        Annotations = Map.empty, OwnerReferences = [], CreationTimestamp = 1,
        Provisioner = ''csi.example''\<rparr>],
      volumeSnapshotClasses := [\<lparr>Name = ''vsc1'', Namespace = [], Labels = Map.empty,
        Annotations = Map.empty, OwnerReferences = [], CreationTimestamp = 1,
        Driver = ''csi.example''\<rparr>]\<rparr>"


section \<open>Notions used to state the properties\<close>

text \<open>
  An object belongs to the handler's owner when it is in the owner's namespace and
  carries the owner label with the owner's name: this is what \<open>listByOwner\<close> selects.
\<close>

definition ownedBy :: "VSHandler \<Rightarrow> 'a ObjectMeta_scheme \<Rightarrow> bool" where
  "ownedBy v obj =
     (Namespace obj = Namespace (owner v) \<and> Labels obj VRGOwnerLabel = Some (Name (owner v)))"


text \<open>
  Two handlers have the same surroundings when they agree on everything no reconcile
  call writes: the owner and the configuration of the handler, and the cluster's
  faults, clock, storage classes, snapshot classes and pods.
\<close>

definition sameEnv :: "VSHandler \<Rightarrow> VSHandler \<Rightarrow> bool" where
  "sameEnv v w =
     (owner w = owner v \<and> ownerGVK w = ownerGVK v
      \<and> schedulingInterval w = schedulingInterval v
      \<and> volumeSnapshotClassSelector w = volumeSnapshotClassSelector v
      \<and> GetVolSyncSSHSecretNameFromVRGName w = GetVolSyncSSHSecretNameFromVRGName v
      \<and> DefaultRsyncServiceType w = DefaultRsyncServiceType v
      \<and> DefaultScheduleCronSpec w = DefaultScheduleCronSpec v
      \<and> faults (client w) = faults (client v)
      \<and> now (client w) = now (client v)
      \<and> storageClasses (client w) = storageClasses (client v)
      \<and> volumeSnapshotClasses (client w) = volumeSnapshotClasses (client v)
      \<and> pods (client w) = pods (client v))"


section \<open>Schedule translator: lemmas\<close>

lemma strconv_Atoi_Some_nonempty: "strconv_Atoi num = Some n \<Longrightarrow> num \<noteq> []"
  by (auto simp: strconv_Atoi_def)

lemma char_eq_code: "(u = c) = (of_char u = (of_char c :: nat))"
  by simp

lemma lower_aux:
  assumes "(of_char c :: nat) = k" "97 \<le> k" "k \<le> 122"
  shows "strings_ToLower [u] = [c] \<longleftrightarrow> of_char u = k \<or> of_char u = k - 32"
proof -
  let ?b = "of_char u :: nat"
  show ?thesis
  proof (cases "?b \<ge> 128")
    case True
    then show ?thesis using assms by (auto simp: strings_ToLower_def Let_def)
  next
    case False
    show ?thesis
    proof (cases "65 \<le> ?b \<and> ?b \<le> 90")
      case True
      have "char_of (?b + 32) = c \<longleftrightarrow> ?b + 32 = k"
        using assms True by (auto simp: char_eq_code [of _ c] of_char_of)
      then show ?thesis using True False assms by (auto simp: strings_ToLower_def Let_def)
    next
      case F2: False
      then show ?thesis
        using False assms by (auto simp: strings_ToLower_def Let_def char_eq_code [of u c])
    qed
  qed
qed

lemma strings_ToLower_byte_cases:
  "strings_ToLower [u] = ''m'' \<longleftrightarrow> u = CHR ''m'' \<or> u = CHR ''M''"
  "strings_ToLower [u] = ''h'' \<longleftrightarrow> u = CHR ''h'' \<or> u = CHR ''H''"
  "strings_ToLower [u] = ''d'' \<longleftrightarrow> u = CHR ''d'' \<or> u = CHR ''D''"
  by (simp_all add: lower_aux [where k = 109] lower_aux [where k = 104] lower_aux [where k = 100]
        char_eq_code [of u])

text \<open>The translator on a parsable prefix followed by one unit byte.\<close>

lemma Convert_append:
  assumes "strconv_Atoi num = Some n"
  shows "ConvertSchedulingIntervalToCronSpec (num @ [u]) =
           (if u = CHR ''m'' \<or> u = CHR ''M'' then Inr (''*/'' @ num @ '' * * * *'')
            else if u = CHR ''h'' \<or> u = CHR ''H'' then Inr (''0 */'' @ num @ '' * * *'')
            else if u = CHR ''d'' \<or> u = CHR ''D'' then
              Inr (''0 0 */'' @ (if n > 28 then ''28'' else num) @ '' * *'')
            else Inl (SchedulingUnitInvalid (num @ [u])))"
proof -
  have ne: "num \<noteq> []" using assms by (rule strconv_Atoi_Some_nonempty)
  then have len: "\<not> length (num @ [u]) < SchedulingIntervalMinLength"
    by (cases num) (simp_all add: SchedulingIntervalMinLength_def)
  show ?thesis
    unfolding ConvertSchedulingIntervalToCronSpec_def
    using assms len
    by (simp add: Let_def strings_ToLower_byte_cases CronSpecMaxDayOfMonth_def)
qed

lemma Convert_short: "length s < 2 \<Longrightarrow> isl (ConvertSchedulingIntervalToCronSpec s)"
  by (simp add: ConvertSchedulingIntervalToCronSpec_def SchedulingIntervalMinLength_def)

lemma Convert_bad_prefix:
  "strconv_Atoi (take (length s - 1) s) = None \<Longrightarrow> isl (ConvertSchedulingIntervalToCronSpec s)"
  by (simp add: ConvertSchedulingIntervalToCronSpec_def Let_def)

lemma Convert_bad_unit:
  assumes "s = [] \<or> last s \<notin> {CHR ''m'', CHR ''M'', CHR ''h'', CHR ''H'', CHR ''d'', CHR ''D''}"
  shows "isl (ConvertSchedulingIntervalToCronSpec s)"
proof (cases "s = []")
  case True
  then show ?thesis by (simp add: Convert_short)
next
  case False
  then obtain num u where s: "s = num @ [u]" by (metis append_butlast_last_id)
  show ?thesis
  proof (cases "strconv_Atoi num")
    case None
    then show ?thesis using s Convert_bad_prefix [of s] by simp
  next
    case (Some n)
    then show ?thesis using assms s by (simp add: Convert_append)
  qed
qed

lemma strconv_Atoi_examples:
  "strconv_Atoi ''10'' = Some 10" "strconv_Atoi ''4'' = Some 4" "strconv_Atoi ''40'' = Some 40"
  "strconv_Atoi ''-5'' = Some (-5)" "strconv_Atoi ''0'' = Some 0" "strconv_Atoi ''5'' = Some 5"
  "strconv_Atoi [] = None"
  by (simp_all add: strconv_Atoi_def)

text \<open>
  Claim C4. The translator maps \<open>10m\<close> to the every-10-minutes cron spec and \<open>4h\<close> to the
  every-4-hours cron spec; a day interval whose number parses to more than 28 is clamped
  to 28; and the translator fails on every input shorter than two bytes (the empty
  string included), on every input whose prefix before the last byte \<open>strconv.Atoi\<close>
  rejects, and on every input whose last byte is not one of m, h, d in either case.
\<close>

theorem C4_schedule_translation:
  "ConvertSchedulingIntervalToCronSpec ''10m'' = Inr ''*/10 * * * *'' \<and>
   ConvertSchedulingIntervalToCronSpec ''4h'' = Inr ''0 */4 * * *'' \<and>
   (\<forall>num n u. strconv_Atoi num = Some n \<and> n > 28 \<and> (u = CHR ''d'' \<or> u = CHR ''D'')
      \<longrightarrow> ConvertSchedulingIntervalToCronSpec (num @ [u]) = Inr ''0 0 */28 * *'') \<and>
   (\<forall>s. length s < 2 \<longrightarrow> isl (ConvertSchedulingIntervalToCronSpec s)) \<and>
   (\<forall>s. strconv_Atoi (take (length s - 1) s) = None
      \<longrightarrow> isl (ConvertSchedulingIntervalToCronSpec s)) \<and>
   (\<forall>s. s = [] \<or> last s \<notin> {CHR ''m'', CHR ''M'', CHR ''h'', CHR ''H'', CHR ''d'', CHR ''D''}
      \<longrightarrow> isl (ConvertSchedulingIntervalToCronSpec s))"
proof -
  have m: "ConvertSchedulingIntervalToCronSpec ''10m'' = Inr ''*/10 * * * *''"
    using Convert_append [of "''10''" 10 "CHR ''m''"] by (simp add: strconv_Atoi_examples)
  have h: "ConvertSchedulingIntervalToCronSpec ''4h'' = Inr ''0 */4 * * *''"
    using Convert_append [of "''4''" 4 "CHR ''h''"] by (simp add: strconv_Atoi_examples)
  have d: "ConvertSchedulingIntervalToCronSpec (num @ [u]) = Inr ''0 0 */28 * *''"
    if "strconv_Atoi num = Some n \<and> n > 28 \<and> (u = CHR ''d'' \<or> u = CHR ''D'')"
    for num n u
    using that Convert_append [of num n u] by auto
  show ?thesis
    using m h d Convert_short Convert_bad_prefix Convert_bad_unit by blast
qed

theorem C4_schedule_translation_witness:
  "ConvertSchedulingIntervalToCronSpec ''40d'' = Inr ''0 0 */28 * *'' \<and>
   isl (ConvertSchedulingIntervalToCronSpec ''5'') \<and>
   isl (ConvertSchedulingIntervalToCronSpec []) \<and>
   isl (ConvertSchedulingIntervalToCronSpec ''x5'') \<and>
   isl (ConvertSchedulingIntervalToCronSpec ''5x'')"
proof -
  note c = C4_schedule_translation
  have a: "strconv_Atoi ''40'' = Some 40 \<and> (40::int) > 28
            \<and> (CHR ''d'' = CHR ''d'' \<or> CHR ''d'' = CHR ''D'')"
    by (simp add: strconv_Atoi_examples)
  have "ConvertSchedulingIntervalToCronSpec (''40'' @ [CHR ''d'']) = Inr ''0 0 */28 * *''"
    using c a by blast
  moreover have "isl (ConvertSchedulingIntervalToCronSpec ''5'')"
    using c by simp
  moreover have "isl (ConvertSchedulingIntervalToCronSpec [])"
    using c by simp
  moreover have "strconv_Atoi (take (length ''x5'' - 1) ''x5'') = None"
    by (simp add: strconv_Atoi_def)
  then have "isl (ConvertSchedulingIntervalToCronSpec ''x5'')"
    using c by blast
  moreover have "isl (ConvertSchedulingIntervalToCronSpec ''5x'')"
  proof -
    have "''5x'' = [] \<or> last ''5x''
            \<notin> {CHR ''m'', CHR ''M'', CHR ''h'', CHR ''H'', CHR ''d'', CHR ''D''}"
      by simp
    then show ?thesis using c by blast
  qed
  ultimately show ?thesis by simp
qed

text \<open>
  Claim C10. The translator does not require a positive number: whenever the prefix
  parses to an integer that is zero or negative and the unit byte is one of m, h, d in
  either case (the code lower-cases the unit), the result is the cron spec of that unit
  embedding the prefix as written, and no error; so \<open>0m\<close>, \<open>-5m\<close>, \<open>-5d\<close>, and as well
  \<open>-5M\<close>, \<open>0H\<close> and \<open>-3D\<close>, are accepted. The clamp to 28 is applied exactly when the
  parsed day count is above 28; every other day count, negative ones included, is
  passed through.
\<close>

theorem C10_nonpositive_intervals_accepted:
  "(\<forall>num n u. strconv_Atoi num = Some n \<and> n \<le> 0
       \<and> u \<in> {CHR ''m'', CHR ''M'', CHR ''h'', CHR ''H'', CHR ''d'', CHR ''D''} \<longrightarrow>
      ConvertSchedulingIntervalToCronSpec (num @ [u]) =
        Inr (if u = CHR ''m'' \<or> u = CHR ''M'' then ''*/'' @ num @ '' * * * *''
             else if u = CHR ''h'' \<or> u = CHR ''H'' then ''0 */'' @ num @ '' * * *''
             else ''0 0 */'' @ num @ '' * *'')) \<and>
   (\<forall>num n u. strconv_Atoi num = Some n \<and> (u = CHR ''d'' \<or> u = CHR ''D'') \<longrightarrow>
      ConvertSchedulingIntervalToCronSpec (num @ [u])
        = Inr (''0 0 */'' @ (if n > 28 then ''28'' else num) @ '' * *'')) \<and>
   ConvertSchedulingIntervalToCronSpec ''0m'' = Inr ''*/0 * * * *'' \<and>
   ConvertSchedulingIntervalToCronSpec ''-5m'' = Inr ''*/-5 * * * *'' \<and>
   ConvertSchedulingIntervalToCronSpec ''-5d'' = Inr ''0 0 */-5 * *'' \<and>
   ConvertSchedulingIntervalToCronSpec ''-5M'' = Inr ''*/-5 * * * *'' \<and>
   ConvertSchedulingIntervalToCronSpec ''0H'' = Inr ''0 */0 * * *'' \<and>
   ConvertSchedulingIntervalToCronSpec ''-5D'' = Inr ''0 0 */-5 * *''"
proof -
  have gen:
    "ConvertSchedulingIntervalToCronSpec (num @ [u]) =
        Inr (if u = CHR ''m'' \<or> u = CHR ''M'' then ''*/'' @ num @ '' * * * *''
             else if u = CHR ''h'' \<or> u = CHR ''H'' then ''0 */'' @ num @ '' * * *''
             else ''0 0 */'' @ num @ '' * *'')"
    if "strconv_Atoi num = Some n \<and> n \<le> 0
       \<and> u \<in> {CHR ''m'', CHR ''M'', CHR ''h'', CHR ''H'', CHR ''d'', CHR ''D''}" for num n u
  proof -
    have a: "strconv_Atoi num = Some n" and n: "\<not> n > 28" using that by auto
    have u: "u = CHR ''m'' \<or> u = CHR ''M'' \<or> u = CHR ''h'' \<or> u = CHR ''H''
              \<or> u = CHR ''d'' \<or> u = CHR ''D''"
      using that by simp
    show ?thesis
      unfolding Convert_append [OF a, of u] using n u by auto
  qed
  have day: "ConvertSchedulingIntervalToCronSpec (num @ [u])
        = Inr (''0 0 */'' @ (if n > 28 then ''28'' else num) @ '' * *'')"
    if "strconv_Atoi num = Some n \<and> (u = CHR ''d'' \<or> u = CHR ''D'')" for num n u
  proof -
    have a: "strconv_Atoi num = Some n" using that by simp
    show ?thesis
      unfolding Convert_append [OF a, of u] using that by auto
  qed
  have e1: "ConvertSchedulingIntervalToCronSpec ''0m'' = Inr ''*/0 * * * *''"
    using Convert_append [of "''0''" 0 "CHR ''m''"] by (simp add: strconv_Atoi_examples)
  have e2: "ConvertSchedulingIntervalToCronSpec ''-5m'' = Inr ''*/-5 * * * *''"
    using Convert_append [of "''-5''" "-5" "CHR ''m''"] by (simp add: strconv_Atoi_examples)
  have e3: "ConvertSchedulingIntervalToCronSpec ''-5d'' = Inr ''0 0 */-5 * *''"
    using Convert_append [of "''-5''" "-5" "CHR ''d''"] by (simp add: strconv_Atoi_examples)
  have e4: "ConvertSchedulingIntervalToCronSpec ''-5M'' = Inr ''*/-5 * * * *''"
    using Convert_append [of "''-5''" "-5" "CHR ''M''"] by (simp add: strconv_Atoi_examples)
  have e5: "ConvertSchedulingIntervalToCronSpec ''0H'' = Inr ''0 */0 * * *''"
    using Convert_append [of "''0''" 0 "CHR ''H''"] by (simp add: strconv_Atoi_examples)
  have e6: "ConvertSchedulingIntervalToCronSpec ''-5D'' = Inr ''0 0 */-5 * *''"
    using Convert_append [of "''-5''" "-5" "CHR ''D''"] by (simp add: strconv_Atoi_examples)
  show ?thesis
    by (intro conjI allI impI; (erule gen | erule day | rule e1 e2 e3 e4 e5 e6))
qed

theorem C10_nonpositive_intervals_accepted_witness:
  "strconv_Atoi ''-12'' = Some (-12) \<and>
   ConvertSchedulingIntervalToCronSpec ''-12h'' = Inr ''0 */-12 * * *'' \<and>
   ConvertSchedulingIntervalToCronSpec ''-12H'' = Inr ''0 */-12 * * *'' \<and>
   ConvertSchedulingIntervalToCronSpec ''-12M'' = Inr ''*/-12 * * * *'' \<and>
   ConvertSchedulingIntervalToCronSpec ''-12d'' = Inr ''0 0 */-12 * *'' \<and>
   ConvertSchedulingIntervalToCronSpec ''-12D'' = Inr ''0 0 */-12 * *'' \<and>
   ConvertSchedulingIntervalToCronSpec ''40D'' = Inr ''0 0 */28 * *''"
proof -
  note c = C10_nonpositive_intervals_accepted
  have a: "strconv_Atoi ''-12'' = Some (-12)" by (simp add: strconv_Atoi_def)
  have g: "ConvertSchedulingIntervalToCronSpec (''-12'' @ [u]) =
        Inr (if u = CHR ''m'' \<or> u = CHR ''M'' then ''*/'' @ ''-12'' @ '' * * * *''
             else if u = CHR ''h'' \<or> u = CHR ''H'' then ''0 */'' @ ''-12'' @ '' * * *''
             else ''0 0 */'' @ ''-12'' @ '' * *'')"
    if "u \<in> {CHR ''m'', CHR ''M'', CHR ''h'', CHR ''H'', CHR ''d'', CHR ''D''}" for u
  proof -
    have "strconv_Atoi ''-12'' = Some (-12) \<and> (-12::int) \<le> 0
       \<and> u \<in> {CHR ''m'', CHR ''M'', CHR ''h'', CHR ''H'', CHR ''d'', CHR ''D''}"
      using a that by simp
    then show ?thesis
      by (rule c [THEN conjunct1, rule_format, of "''-12''" "-12" u])
  qed
  have d: "ConvertSchedulingIntervalToCronSpec (''40'' @ [CHR ''D''])
        = Inr (''0 0 */'' @ (if (40::int) > 28 then ''28'' else ''40'') @ '' * *'')"
  proof -
    have "strconv_Atoi ''40'' = Some 40 \<and> (CHR ''D'' = CHR ''d'' \<or> CHR ''D'' = CHR ''D'')"
      by (simp add: strconv_Atoi_examples)
    then show ?thesis
      by (rule c [THEN conjunct2, THEN conjunct1, rule_format, of "''40''" 40 "CHR ''D''"])
  qed
  show ?thesis
    using a g [of "CHR ''h''"] g [of "CHR ''H''"] g [of "CHR ''M''"] g [of "CHR ''d''"]
      g [of "CHR ''D''"] d
    by simp
qed


section \<open>The client: lookups after a write\<close>

lemma lookup_Some_hasKey: "lookup xs ns n = Some x \<Longrightarrow> Namespace x = ns \<and> Name x = n"
  by (auto simp: lookup_def hasKey_def find_Some_iff)

lemma lookup_Some_mem: "lookup xs ns n = Some x \<Longrightarrow> x \<in> set xs"
  by (auto simp: lookup_def find_Some_iff)

lemma lookup_Nil [simp]: "lookup [] ns n = None"
  by (simp add: lookup_def)

lemma lookup_Cons:
  "lookup (x # xs) ns n = (if hasKey ns n x then Some x else lookup xs ns n)"
  by (simp add: lookup_def)

lemma lookup_append:
  "lookup (xs @ ys) ns n = (case lookup xs ns n of Some y \<Rightarrow> Some y | None \<Rightarrow> lookup ys ns n)"
  by (induction xs) (simp_all add: lookup_Cons)

lemma lookup_replace:
  "Namespace obj = ns \<Longrightarrow> Name obj = n \<Longrightarrow>
   lookup (map (\<lambda>x. if hasKey ns n x then obj else x) xs) ns' n' =
     (if ns' = ns \<and> n' = n
      then (if lookup xs ns' n' = None then None else Some obj)
      else lookup xs ns' n')"
  by (induction xs) (auto simp: lookup_Cons hasKey_def)

lemma lookup_delete:
  "lookup (filter (\<lambda>x. \<not> hasKey ns n x) xs) ns' n' =
     (if ns' = ns \<and> n' = n then None else lookup xs ns' n')"
  by (induction xs) (auto simp: lookup_Cons hasKey_def)

lemma validateOwner_same_ns: "Namespace obj = Namespace ownr \<Longrightarrow> validateOwner ownr obj = None"
  by (simp add: validateOwner_def)

lemma upsertOwnerRef_meta [simp]:
  "Name (upsertOwnerRef r obj) = Name obj"
  "Namespace (upsertOwnerRef r obj) = Namespace obj"
  "Labels (upsertOwnerRef r obj) = Labels obj"
  "Annotations (upsertOwnerRef r obj) = Annotations obj"
  "CreationTimestamp (upsertOwnerRef r obj) = CreationTimestamp obj"
  by (simp_all add: upsertOwnerRef_def Let_def split: option.splits)


section \<open>Unfolding the example states\<close>

lemmas example_defs = exampleHandler_def emptyCluster_def emptyMeta_def exampleRD_def
  exampleRS_def examplePVC_def exampleSnapshotRef_def examplePod_def readyCluster_def
  exampleProtectedPVC_def



section \<open>CreateOrUpdate\<close>

lemma mutate_ok:
  "f obj env = (Inr obj', env') \<Longrightarrow> Namespace obj' = Namespace obj \<Longrightarrow> Name obj' = Name obj
   \<Longrightarrow> mutate f obj env = (Inr obj', env')"
  by (simp add: mutate_def)

lemma mutate_err:
  "f obj env = (Inl e, env') \<Longrightarrow> mutate f obj env = (Inl e, env')"
  by (simp add: mutate_def)

lemma CreateOrUpdateEnv_absent:
  assumes "lookup (res_sel K c) (Namespace obj) (Name obj) = None"
    and "(VGet, res_kind K, Name obj) \<notin> faults c"
    and "f obj env = (Inr obj', env')"
    and "Namespace obj' = Namespace obj" "Name obj' = Name obj"
  shows "CreateOrUpdateEnv K c obj f env =
           (if (VCreate, res_kind K, Name obj) \<in> faults c then (Inl ApiFailure, c, env')
            else (Inr (OperationResultCreated, obj'\<lparr>CreationTimestamp := Suc (now c)\<rparr>),
                  res_upd K (res_sel K c @ [obj'\<lparr>CreationTimestamp := Suc (now c)\<rparr>]) c, env'))"
  using assms mutate_ok [of f obj env obj' env']
  by (simp add: CreateOrUpdateEnv_def client_Get_def client_Create_def Let_def)

lemma CreateOrUpdateEnv_present:
  assumes "lookup (res_sel K c) (Namespace obj) (Name obj) = Some existing"
    and "(VGet, res_kind K, Name obj) \<notin> faults c"
    and "f existing env = (Inr obj', env')"
    and "Namespace obj' = Namespace existing" "Name obj' = Name existing"
  shows "CreateOrUpdateEnv K c obj f env =
           (if existing = obj' then (Inr (OperationResultNone, obj'), c, env')
            else if (VUpdate, res_kind K, Name obj) \<in> faults c then (Inl ApiFailure, c, env')
            else (Inr (OperationResultUpdated, obj'),
                  res_upd K (map (\<lambda>x. if hasKey (Namespace obj) (Name obj) x then obj' else x)
                             (res_sel K c)) c,
                  env'))"
proof -
  have k: "Namespace existing = Namespace obj" "Name existing = Name obj"
    using lookup_Some_hasKey [OF assms(1)] by simp_all
  show ?thesis
    using assms k mutate_ok [of f existing env obj' env']
    by (simp add: CreateOrUpdateEnv_def client_Get_def client_Update_def)
qed

lemma CreateOrUpdateEnv_mutate_err:
  assumes "(VGet, res_kind K, Name obj) \<notin> faults c"
    and "\<And>x. f x env = (Inl e, env')"
  shows "CreateOrUpdateEnv K c obj f env = (Inl e, c, env')"
  using assms
  by (simp add: CreateOrUpdateEnv_def client_Get_def mutate_def split: option.splits)

lemma CreateOrUpdateEnv_get_fault:
  assumes "(VGet, res_kind K, Name obj) \<in> faults c"
  shows "CreateOrUpdateEnv K c obj f env = (Inl ApiFailure, c, env)"
  using assms by (simp add: CreateOrUpdateEnv_def client_Get_def)


section \<open>Owner references\<close>

lemma referSameObject_refl [simp]: "referSameObject r r"
  by (simp add: referSameObject_def)

lemma indexOwnerRef_Some:
  "indexOwnerRef xs r = Some i \<Longrightarrow> i < length xs \<and> referSameObject (xs ! i) r"
  by (induction xs arbitrary: i) (auto split: if_splits)

lemma indexOwnerRef_update:
  "indexOwnerRef xs r = Some i \<Longrightarrow> indexOwnerRef (xs[i := r]) r = Some i"
  by (induction xs arbitrary: i) (auto split: if_splits)

lemma indexOwnerRef_snoc:
  "indexOwnerRef xs r = None \<Longrightarrow> indexOwnerRef (xs @ [r]) r = Some (length xs)"
  by (induction xs) (auto split: if_splits)

lemma upsertOwnerRef_idem: "upsertOwnerRef r (upsertOwnerRef r obj) = upsertOwnerRef r obj"
  by (cases "indexOwnerRef (OwnerReferences obj) r")
     (simp_all add: upsertOwnerRef_def Let_def indexOwnerRef_update indexOwnerRef_snoc)

lemma upsertOwnerRef_ts:
  "upsertOwnerRef r (obj\<lparr>CreationTimestamp := t\<rparr>) = (upsertOwnerRef r obj)\<lparr>CreationTimestamp := t\<rparr>"
  by (simp add: upsertOwnerRef_def Let_def split: option.splits)

lemma validateOwner_upsert [simp]:
  "validateOwner ownr (upsertOwnerRef r obj) = validateOwner ownr obj"
  by (simp add: validateOwner_def)

lemma validateOwner_ts [simp]:
  "validateOwner ownr (obj\<lparr>CreationTimestamp := t\<rparr>) = validateOwner ownr obj"
  by (simp add: validateOwner_def)

lemma SetOwnerReference_idem:
  "SetOwnerReference gvk ownr obj = Inr obj' \<Longrightarrow> SetOwnerReference gvk ownr obj' = Inr obj'"
  by (auto simp: SetOwnerReference_def upsertOwnerRef_idem split: option.splits)

lemma SetOwnerReference_ts:
  "SetOwnerReference gvk ownr obj = Inr obj' \<Longrightarrow>
   SetOwnerReference gvk ownr (obj\<lparr>CreationTimestamp := t\<rparr>) = Inr (obj'\<lparr>CreationTimestamp := t\<rparr>)"
  by (auto simp: SetOwnerReference_def upsertOwnerRef_ts split: option.splits)

lemma SetOwnerReference_key:
  "SetOwnerReference gvk ownr obj = Inr obj' \<Longrightarrow>
   Namespace obj' = Namespace obj \<and> Name obj' = Name obj"
  by (auto simp: SetOwnerReference_def split: option.splits)

text \<open>After a controller reference is set, the first controller entry is that owner.\<close>

lemma find_controller_update:
  assumes "indexOwnerRef xs r = Some i" and "ref_Controller r"
    and "find ref_Controller xs = None \<or> (\<exists>e. find ref_Controller xs = Some e \<and> referSameObject e r)"
  shows "\<exists>e. find ref_Controller (xs[i := r]) = Some e \<and> referSameObject e r"
  using assms
proof (induction xs arbitrary: i)
  case Nil
  then show ?case by simp
next
  case (Cons x xs)
  show ?case
  proof (cases "referSameObject x r")
    case True
    then have "i = 0" using Cons.prems(1) by simp
    then show ?thesis using Cons.prems(2) by simp
  next
    case False
    then obtain j where j: "indexOwnerRef xs r = Some j" "i = Suc j"
      using Cons.prems(1) by (auto split: if_splits)
    have nc: "\<not> ref_Controller x" using Cons.prems(3) False by (auto split: if_splits)
    then have "find ref_Controller xs = None \<or> (\<exists>e. find ref_Controller xs = Some e \<and> referSameObject e r)"
      using Cons.prems(3) by simp
    from Cons.IH [OF j(1) Cons.prems(2) this] show ?thesis using j nc by simp
  qed
qed

lemma find_controller_snoc:
  assumes "ref_Controller r"
    and "find ref_Controller xs = None \<or> (\<exists>e. find ref_Controller xs = Some e \<and> referSameObject e r)"
  shows "\<exists>e. find ref_Controller (xs @ [r]) = Some e \<and> referSameObject e r"
  using assms by (induction xs) (auto split: if_splits)

lemma SetControllerReference_idem:
  assumes "SetControllerReference gvk ownr obj = Inr obj'"
  shows "SetControllerReference gvk ownr obj' = Inr obj'"
proof -
  let ?r = "\<lparr>ref_Group = fst gvk, ref_Kind = snd gvk, ref_Name = Name ownr, ref_Controller = True\<rparr>"
  have vo: "validateOwner ownr obj = None" and o': "obj' = upsertOwnerRef ?r obj"
    and c: "find ref_Controller (OwnerReferences obj) = None
            \<or> (\<exists>e. find ref_Controller (OwnerReferences obj) = Some e \<and> referSameObject e ?r)"
    using assms
    by (auto simp: SetControllerReference_def Let_def GetControllerOf_def
        split: option.splits if_splits)
  have "\<exists>e. find ref_Controller (OwnerReferences obj') = Some e \<and> referSameObject e ?r"
  proof (cases "indexOwnerRef (OwnerReferences obj) ?r")
    case None
    then show ?thesis
      using find_controller_snoc [of ?r "OwnerReferences obj"] c o'
      by (simp add: upsertOwnerRef_def)
  next
    case (Some i)
    then show ?thesis
      using find_controller_update [of "OwnerReferences obj" ?r i] c o'
      by (simp add: upsertOwnerRef_def)
  qed
  then show ?thesis
    using vo o'
    by (auto simp: SetControllerReference_def Let_def GetControllerOf_def upsertOwnerRef_idem)
qed

lemma GetControllerOf_ts [simp]:
  "GetControllerOf (obj\<lparr>CreationTimestamp := t\<rparr>) = GetControllerOf obj"
  by (simp add: GetControllerOf_def)

lemma SetControllerReference_ts:
  "SetControllerReference gvk ownr obj = Inr obj' \<Longrightarrow>
   SetControllerReference gvk ownr (obj\<lparr>CreationTimestamp := t\<rparr>)
     = Inr (obj'\<lparr>CreationTimestamp := t\<rparr>)"
  by (auto simp: SetControllerReference_def Let_def upsertOwnerRef_ts
      split: option.splits if_splits)

lemma SetControllerReference_key:
  "SetControllerReference gvk ownr obj = Inr obj' \<Longrightarrow>
   Namespace obj' = Namespace obj \<and> Name obj' = Name obj"
  by (auto simp: SetControllerReference_def Let_def split: option.splits if_splits)

section \<open>CreateOrUpdate twice\<close>

lemma CreateOrUpdate_Env:
  "CreateOrUpdate K c obj f =
     (fst (CreateOrUpdateEnv K c obj (\<lambda>x env. (f x, env)) ()),
      fst (snd (CreateOrUpdateEnv K c obj (\<lambda>x env. (f x, env)) ())))"
  by (simp add: CreateOrUpdate_def split: prod.splits)

lemma CreateOrUpdate_absent:
  assumes "lookup (res_sel K c) (Namespace obj) (Name obj) = None"
    and "(VGet, res_kind K, Name obj) \<notin> faults c"
    and "f obj = Inr obj'"
    and "Namespace obj' = Namespace obj" "Name obj' = Name obj"
  shows "CreateOrUpdate K c obj f =
           (if (VCreate, res_kind K, Name obj) \<in> faults c then (Inl ApiFailure, c)
            else (Inr (OperationResultCreated, obj'\<lparr>CreationTimestamp := Suc (now c)\<rparr>),
                  res_upd K (res_sel K c @ [obj'\<lparr>CreationTimestamp := Suc (now c)\<rparr>]) c))"
  using CreateOrUpdateEnv_absent [of K c obj "\<lambda>x env. (f x, env)" "()" obj' "()"] assms
  by (simp add: CreateOrUpdate_Env)

lemma CreateOrUpdate_present:
  assumes "lookup (res_sel K c) (Namespace obj) (Name obj) = Some existing"
    and "(VGet, res_kind K, Name obj) \<notin> faults c"
    and "f existing = Inr obj'"
    and "Namespace obj' = Namespace existing" "Name obj' = Name existing"
  shows "CreateOrUpdate K c obj f =
           (if existing = obj' then (Inr (OperationResultNone, obj'), c)
            else if (VUpdate, res_kind K, Name obj) \<in> faults c then (Inl ApiFailure, c)
            else (Inr (OperationResultUpdated, obj'),
                  res_upd K (map (\<lambda>x. if hasKey (Namespace obj) (Name obj) x then obj' else x)
                             (res_sel K c)) c))"
  using CreateOrUpdateEnv_present [of K c obj existing "\<lambda>x env. (f x, env)" "()" obj' "()"] assms
  by (simp add: CreateOrUpdate_Env)

lemma CreateOrUpdate_cases:
  assumes "CreateOrUpdate K c obj f = (Inr (op, res), c')"
    and key: "\<And>x y. f x = Inr y \<Longrightarrow> Namespace y = Namespace x \<and> Name y = Name x"
  obtains
    (created) obj' where "lookup (res_sel K c) (Namespace obj) (Name obj) = None"
      "f obj = Inr obj'" "res = obj'\<lparr>CreationTimestamp := Suc (now c)\<rparr>"
      "c' = res_upd K (res_sel K c @ [res]) c" "op = OperationResultCreated"
  | (unchanged) "lookup (res_sel K c) (Namespace obj) (Name obj) = Some res"
      "f res = Inr res" "c' = c" "op = OperationResultNone"
  | (updated) existing where "lookup (res_sel K c) (Namespace obj) (Name obj) = Some existing"
      "f existing = Inr res" "existing \<noteq> res"
      "c' = res_upd K (map (\<lambda>x. if hasKey (Namespace obj) (Name obj) x then res else x)
                             (res_sel K c)) c"
      "op = OperationResultUpdated"
proof -
  have g: "(VGet, res_kind K, Name obj) \<notin> faults c"
    using assms(1) by (auto simp: CreateOrUpdate_Env CreateOrUpdateEnv_get_fault)
  show ?thesis
  proof (cases "lookup (res_sel K c) (Namespace obj) (Name obj)")
    case None
    show ?thesis
    proof (cases "f obj")
      case (Inl e)
      then show ?thesis
        using assms(1) None g
        by (simp add: CreateOrUpdate_def CreateOrUpdateEnv_def client_Get_def mutate_def)
    next
      case (Inr obj')
      have eq: "CreateOrUpdate K c obj f =
           (if (VCreate, res_kind K, Name obj) \<in> faults c then (Inl ApiFailure, c)
            else (Inr (OperationResultCreated, obj'\<lparr>CreationTimestamp := Suc (now c)\<rparr>),
                  res_upd K (res_sel K c @ [obj'\<lparr>CreationTimestamp := Suc (now c)\<rparr>]) c))"
        using key [OF Inr] CreateOrUpdate_absent [of K c obj f obj'] None g Inr by simp
      then have nf: "(VCreate, res_kind K, Name obj) \<notin> faults c"
        using assms(1) by auto
      then have "res = obj'\<lparr>CreationTimestamp := Suc (now c)\<rparr>" "op = OperationResultCreated"
          "c' = res_upd K (res_sel K c @ [obj'\<lparr>CreationTimestamp := Suc (now c)\<rparr>]) c"
        using eq assms(1) by simp_all
      then show ?thesis using None Inr by (intro created [of obj']) auto
    qed
  next
    case (Some existing)
    show ?thesis
    proof (cases "f existing")
      case (Inl e)
      then show ?thesis
        using assms(1) Some g
        by (simp add: CreateOrUpdate_def CreateOrUpdateEnv_def client_Get_def mutate_def)
    next
      case (Inr obj')
      have eq: "CreateOrUpdate K c obj f =
           (if existing = obj' then (Inr (OperationResultNone, obj'), c)
            else if (VUpdate, res_kind K, Name obj) \<in> faults c then (Inl ApiFailure, c)
            else (Inr (OperationResultUpdated, obj'),
                  res_upd K (map (\<lambda>x. if hasKey (Namespace obj) (Name obj) x then obj' else x)
                             (res_sel K c)) c))"
        using key [OF Inr] CreateOrUpdate_present [of K c obj existing f obj'] Some g Inr by simp
      show ?thesis
      proof (cases "existing = obj'")
        case True
        then have "res = obj'" "c' = c" "op = OperationResultNone"
          using eq assms(1) by simp_all
        then show ?thesis using Some Inr True by (intro unchanged) auto
      next
        case False
        then have nf: "(VUpdate, res_kind K, Name obj) \<notin> faults c"
          using eq assms(1) by auto
        then have "res = obj'" "op = OperationResultUpdated"
          "c' = res_upd K (map (\<lambda>x. if hasKey (Namespace obj) (Name obj) x then obj' else x)
                             (res_sel K c)) c"
          using eq assms(1) False by simp_all
        then show ?thesis using Some Inr False by (intro updated [of existing]) auto
      qed
    qed
  qed
qed


section \<open>Steps of a reconcile: what they read and what they write\<close>

lemma sameEnv_refl [simp]: "sameEnv v v"
  by (simp add: sameEnv_def)

lemma sameEnv_trans: "sameEnv a b \<Longrightarrow> sameEnv b c \<Longrightarrow> sameEnv a c"
  by (simp add: sameEnv_def)

lemma sameEnv_sym: "sameEnv a b \<Longrightarrow> sameEnv b a"
  by (simp add: sameEnv_def)

subsection \<open>The secret\<close>

lemma addOwnerReference_eq:
  "validateOwner ownr obj = None \<Longrightarrow>
   addOwnerReference gvk obj ownr =
     Inr (indexOwnerRef (OwnerReferences obj)
            \<lparr>ref_Group = fst gvk, ref_Kind = snd gvk, ref_Name = Name ownr,
             ref_Controller = False\<rparr> = None,
          upsertOwnerRef \<lparr>ref_Group = fst gvk, ref_Kind = snd gvk, ref_Name = Name ownr,
             ref_Controller = False\<rparr> obj)"
  by (auto simp: addOwnerReference_def SetOwnerReference_def Let_def upsertOwnerRef_def
      dest: indexOwnerRef_Some split: option.splits)

lemma addOwnerReference_err:
  "validateOwner ownr obj = Some e \<Longrightarrow> addOwnerReference gvk obj ownr = Inl e"
  by (simp add: addOwnerReference_def SetOwnerReference_def)

lemma validateSecret_shape:
  "\<exists>S. snd (validateSecretAndAddVRGOwnerRef v n) = v\<lparr>client := (client v)\<lparr>secrets := S\<rparr>\<rparr>"
proof -
  have triv: "v = v\<lparr>client := (client v)\<lparr>secrets := secrets (client v)\<rparr>\<rparr>" by simp
  show ?thesis
    unfolding validateSecretAndAddVRGOwnerRef_def addOwnerReferenceAndUpdate_def
      client_Update_def Secrets_def
    by (auto split: sum.splits option.splits prod.splits if_splits intro: triv)
qed

lemma validateSecret_cong:
  assumes "sameEnv v w" and "secrets (client w) = secrets (client v)"
  shows "validateSecretAndAddVRGOwnerRef w n =
           (fst (validateSecretAndAddVRGOwnerRef v n),
            w\<lparr>client := (client w)\<lparr>secrets :=
                 secrets (client (snd (validateSecretAndAddVRGOwnerRef v n)))\<rparr>\<rparr>)"
  using assms
  unfolding validateSecretAndAddVRGOwnerRef_def addOwnerReferenceAndUpdate_def
      client_Update_def client_Get_def Secrets_def sameEnv_def
  by (auto split: sum.splits option.splits prod.splits if_splits)

lemma validateSecret_idem:
  assumes "validateSecretAndAddVRGOwnerRef v n = ((b, None), v1)"
  shows "validateSecretAndAddVRGOwnerRef v1 n = ((b, None), v1)"
proof (cases "client_Get Secrets (client v) (Namespace (owner v)) n")
  case (Inl e)
  then show ?thesis using assms
    by (auto simp: validateSecretAndAddVRGOwnerRef_def split: if_splits)
next
  case (Inr secret)
  let ?r = "\<lparr>ref_Group = fst (ownerGVK v), ref_Kind = snd (ownerGVK v),
             ref_Name = Name (owner v), ref_Controller = False\<rparr>"
  have l: "lookup (secrets (client v)) (Namespace (owner v)) n = Some secret"
    and g: "(VGet, KSecret, n) \<notin> faults (client v)"
    using Inr by (auto simp: client_Get_def Secrets_def split: if_splits option.splits)
  have k: "Namespace secret = Namespace (owner v)" "Name secret = n"
    using lookup_Some_hasKey [OF l] by simp_all
  have vo: "validateOwner (owner v) secret = None"
    using k by (simp add: validateOwner_same_ns)
  note ao = addOwnerReference_eq [OF vo, of "ownerGVK v"]
  show ?thesis
  proof (cases "indexOwnerRef (OwnerReferences secret) ?r")
    case (Some i)
    then have "v1 = v" using assms Inr ao
      by (simp add: validateSecretAndAddVRGOwnerRef_def addOwnerReferenceAndUpdate_def)
    then show ?thesis using assms by simp
  next
    case None
    then have u: "(VUpdate, KSecret, n) \<notin> faults (client v)"
      and v1: "v1 = v\<lparr>client := (client v)\<lparr>secrets :=
                  map (\<lambda>x. if hasKey (Namespace (owner v)) n x then upsertOwnerRef ?r secret else x)
                    (secrets (client v))\<rparr>\<rparr>"
      and b: "b"
      using assms Inr ao l k
      by (auto simp: validateSecretAndAddVRGOwnerRef_def addOwnerReferenceAndUpdate_def
          client_Update_def Secrets_def split: if_splits)
    have l1: "lookup (secrets (client v1)) (Namespace (owner v1)) n = Some (upsertOwnerRef ?r secret)"
      using v1 l k by (simp add: lookup_replace)
    have vo1: "validateOwner (owner v1) (upsertOwnerRef ?r secret) = None"
      using vo v1 by simp
    have ix: "indexOwnerRef (OwnerReferences (upsertOwnerRef ?r secret)) ?r \<noteq> None"
      using None by (simp add: upsertOwnerRef_def indexOwnerRef_snoc)
    show ?thesis
      using l1 g v1 b ix addOwnerReference_eq [OF vo1, of "ownerGVK v1"]
      by (auto simp: validateSecretAndAddVRGOwnerRef_def addOwnerReferenceAndUpdate_def
          client_Get_def Secrets_def upsertOwnerRef_idem)
  qed
qed


subsection \<open>Deleting the opposite role\<close>

lemma filter_absent: "lookup xs ns n = None \<Longrightarrow> filter (\<lambda>x. \<not> hasKey ns n x) xs = xs"
  by (induction xs) (auto simp: lookup_Cons split: if_splits)

lemma client_Delete_RS_snd:
  "snd (client_Delete ReplicationSources c ns n) =
     (if (VDelete, KReplicationSource, n) \<in> faults c then c
      else c\<lparr>replicationSources := filter (\<lambda>x. \<not> hasKey ns n x) (replicationSources c)\<rparr>)"
  by (simp add: client_Delete_def ReplicationSources_def filter_absent split: option.splits)

lemma client_Delete_RD_snd:
  "snd (client_Delete ReplicationDestinations c ns n) =
     (if (VDelete, KReplicationDestination, n) \<in> faults c then c
      else c\<lparr>replicationDestinations :=
             filter (\<lambda>x. \<not> hasKey ns n x) (replicationDestinations c)\<rparr>)"
  by (simp add: client_Delete_def ReplicationDestinations_def filter_absent split: option.splits)

text \<open>
  The loop in closed form, for items of one namespace: when the delete of the name
  fails, or no item has the name, nothing changes; otherwise everything under the key
  is gone.
\<close>

lemma deleteNamed_RS_eq:
  assumes "\<forall>i\<in>set items. Namespace i = ns"
  shows "deleteNamed ReplicationSources c items n =
           (if (VDelete, KReplicationSource, n) \<in> faults c \<or> \<not> (\<exists>i\<in>set items. Name i = n)
            then c
            else c\<lparr>replicationSources :=
                   filter (\<lambda>x. \<not> hasKey ns n x) (replicationSources c)\<rparr>)"
  using assms
proof (induction items arbitrary: c)
  case Nil
  then show ?case by simp
next
  case (Cons item items)
  have ns: "Namespace item = ns" and rest: "\<forall>i\<in>set items. Namespace i = ns"
    using Cons.prems by simp_all
  show ?case
  proof (cases "Name item = n")
    case False
    then show ?thesis using Cons.IH [OF rest, of c] by simp
  next
    case True
    show ?thesis
    proof (cases "(VDelete, KReplicationSource, n) \<in> faults c")
      case f: True
      then show ?thesis
        using True ns Cons.IH [OF rest, of c] by (simp add: client_Delete_RS_snd)
    next
      case f: False
      let ?c1 = "c\<lparr>replicationSources := filter (\<lambda>x. \<not> hasKey ns n x) (replicationSources c)\<rparr>"
      have "deleteNamed ReplicationSources ?c1 items n = ?c1"
        using Cons.IH [OF rest, of ?c1] f by simp
      then show ?thesis using True ns f by (simp add: client_Delete_RS_snd)
    qed
  qed
qed

lemma deleteNamed_RD_eq:
  assumes "\<forall>i\<in>set items. Namespace i = ns"
  shows "deleteNamed ReplicationDestinations c items n =
           (if (VDelete, KReplicationDestination, n) \<in> faults c
               \<or> \<not> (\<exists>i\<in>set items. Name i = n)
            then c
            else c\<lparr>replicationDestinations :=
                   filter (\<lambda>x. \<not> hasKey ns n x) (replicationDestinations c)\<rparr>)"
  using assms
proof (induction items arbitrary: c)
  case Nil
  then show ?case by simp
next
  case (Cons item items)
  have ns: "Namespace item = ns" and rest: "\<forall>i\<in>set items. Namespace i = ns"
    using Cons.prems by simp_all
  show ?case
  proof (cases "Name item = n")
    case False
    then show ?thesis using Cons.IH [OF rest, of c] by simp
  next
    case True
    show ?thesis
    proof (cases "(VDelete, KReplicationDestination, n) \<in> faults c")
      case f: True
      then show ?thesis
        using True ns Cons.IH [OF rest, of c] by (simp add: client_Delete_RD_snd)
    next
      case f: False
      let ?c1 = "c\<lparr>replicationDestinations :=
                    filter (\<lambda>x. \<not> hasKey ns n x) (replicationDestinations c)\<rparr>"
      have "deleteNamed ReplicationDestinations ?c1 items n = ?c1"
        using Cons.IH [OF rest, of ?c1] f by simp
      then show ?thesis using True ns f by (simp add: client_Delete_RD_snd)
    qed
  qed
qed

lemma DeleteRS_eq:
  "DeleteRS v n =
     (if (VList, KReplicationSource, []) \<in> faults (client v) then (Some ApiFailure, v)
      else (None,
            if (VDelete, KReplicationSource, n) \<in> faults (client v)
               \<or> \<not> (\<exists>x\<in>set (replicationSources (client v)). ownedBy v x \<and> Name x = n)
            then v
            else v\<lparr>client := (client v)\<lparr>replicationSources :=
                   filter (\<lambda>x. \<not> hasKey (Namespace (owner v)) n x)
                     (replicationSources (client v))\<rparr>\<rparr>))"
proof -
  let ?items = "filter (\<lambda>obj. Namespace obj = Namespace (owner v)
              \<and> Labels obj VRGOwnerLabel = Some (Name (owner v))) (replicationSources (client v))"
  have ns: "\<forall>i\<in>set ?items. Namespace i = Namespace (owner v)" by simp
  have ex: "(\<exists>i\<in>set ?items. Name i = n)
              = (\<exists>x\<in>set (replicationSources (client v)). ownedBy v x \<and> Name x = n)"
    by (auto simp: ownedBy_def)
  have d: "deleteNamed ReplicationSources (client v) ?items n =
            (if (VDelete, KReplicationSource, n) \<in> faults (client v)
               \<or> \<not> (\<exists>x\<in>set (replicationSources (client v)). ownedBy v x \<and> Name x = n)
             then client v
             else (client v)\<lparr>replicationSources :=
                   filter (\<lambda>x. \<not> hasKey (Namespace (owner v)) n x)
                     (replicationSources (client v))\<rparr>)"
    using deleteNamed_RS_eq [OF ns, of "client v" n] unfolding ex .
  have l: "listRSByOwner v =
             (if (VList, KReplicationSource, []) \<in> faults (client v) then Inl ApiFailure
              else Inr ?items)"
    by (simp add: listRSByOwner_def listByOwner_def client_List_def ReplicationSources_def)
  show ?thesis
  proof (cases "(VList, KReplicationSource, []) \<in> faults (client v)")
    case True
    then show ?thesis by (simp add: DeleteRS_def l)
  next
    case False
    have "DeleteRS v n = (None, v\<lparr>client := deleteNamed ReplicationSources (client v) ?items n\<rparr>)"
      unfolding DeleteRS_def l getReplicationSourceName_def using False by simp
    then show ?thesis unfolding d using False by auto
  qed
qed

lemma DeleteRD_eq:
  "DeleteRD v n =
     (if (VList, KReplicationDestination, []) \<in> faults (client v) then (Some ApiFailure, v)
      else (None,
            if (VDelete, KReplicationDestination, n) \<in> faults (client v)
               \<or> \<not> (\<exists>x\<in>set (replicationDestinations (client v)). ownedBy v x \<and> Name x = n)
            then v
            else v\<lparr>client := (client v)\<lparr>replicationDestinations :=
                   filter (\<lambda>x. \<not> hasKey (Namespace (owner v)) n x)
                     (replicationDestinations (client v))\<rparr>\<rparr>))"
proof -
  let ?items = "filter (\<lambda>obj. Namespace obj = Namespace (owner v)
              \<and> Labels obj VRGOwnerLabel = Some (Name (owner v)))
            (replicationDestinations (client v))"
  have ns: "\<forall>i\<in>set ?items. Namespace i = Namespace (owner v)" by simp
  have ex: "(\<exists>i\<in>set ?items. Name i = n)
              = (\<exists>x\<in>set (replicationDestinations (client v)). ownedBy v x \<and> Name x = n)"
    by (auto simp: ownedBy_def)
  have d: "deleteNamed ReplicationDestinations (client v) ?items n =
            (if (VDelete, KReplicationDestination, n) \<in> faults (client v)
               \<or> \<not> (\<exists>x\<in>set (replicationDestinations (client v)). ownedBy v x \<and> Name x = n)
             then client v
             else (client v)\<lparr>replicationDestinations :=
                   filter (\<lambda>x. \<not> hasKey (Namespace (owner v)) n x)
                     (replicationDestinations (client v))\<rparr>)"
    using deleteNamed_RD_eq [OF ns, of "client v" n] unfolding ex .
  have l: "listRDByOwner v =
             (if (VList, KReplicationDestination, []) \<in> faults (client v) then Inl ApiFailure
              else Inr ?items)"
    by (simp add: listRDByOwner_def listByOwner_def client_List_def ReplicationDestinations_def)
  show ?thesis
  proof (cases "(VList, KReplicationDestination, []) \<in> faults (client v)")
    case True
    then show ?thesis by (simp add: DeleteRD_def l)
  next
    case False
    have "DeleteRD v n = (None, v\<lparr>client := deleteNamed ReplicationDestinations (client v) ?items n\<rparr>)"
      unfolding DeleteRD_def l getReplicationDestinationName_def using False by simp
    then show ?thesis unfolding d using False by auto
  qed
qed


subsection \<open>CreateOrUpdate: closed form, second run, and what it reads\<close>

lemma CreateOrUpdate_eq:
  "CreateOrUpdate K c obj f =
     (if (VGet, res_kind K, Name obj) \<in> faults c then (Inl ApiFailure, c)
      else
        (case lookup (res_sel K c) (Namespace obj) (Name obj) of
           None \<Rightarrow>
             (case f obj of
                Inl e \<Rightarrow> (Inl e, c)
              | Inr obj' \<Rightarrow>
                  if (Namespace obj', Name obj') \<noteq> (Namespace obj, Name obj)
                  then (Inl MutateChangedKey, c)
                  else if (VCreate, res_kind K, Name obj') \<in> faults c then (Inl ApiFailure, c)
                  else (Inr (OperationResultCreated, obj'\<lparr>CreationTimestamp := Suc (now c)\<rparr>),
                        res_upd K (res_sel K c @ [obj'\<lparr>CreationTimestamp := Suc (now c)\<rparr>]) c))
         | Some existing \<Rightarrow>
             (case f existing of
                Inl e \<Rightarrow> (Inl e, c)
              | Inr obj' \<Rightarrow>
                  if (Namespace obj', Name obj') \<noteq> (Namespace existing, Name existing)
                  then (Inl MutateChangedKey, c)
                  else if existing = obj' then (Inr (OperationResultNone, obj'), c)
                  else if (VUpdate, res_kind K, Name obj') \<in> faults c then (Inl ApiFailure, c)
                  else (Inr (OperationResultUpdated, obj'),
                        res_upd K (map (\<lambda>x. if hasKey (Namespace obj') (Name obj') x
                                             then obj' else x) (res_sel K c)) c))))"
proof (cases "(VGet, res_kind K, Name obj) \<in> faults c")
  case True
  then show ?thesis by (simp add: CreateOrUpdate_Env CreateOrUpdateEnv_get_fault)
next
  case g: False
  show ?thesis
  proof (cases "lookup (res_sel K c) (Namespace obj) (Name obj)")
    case None
    show ?thesis
    proof (cases "f obj")
      case (Inl e)
      then show ?thesis using g None
        by (simp add: CreateOrUpdate_def CreateOrUpdateEnv_def client_Get_def mutate_def)
    next
      case (Inr obj')
      then show ?thesis using g None
        by (simp add: CreateOrUpdate_def CreateOrUpdateEnv_def client_Get_def mutate_def
            client_Create_def Let_def)
    qed
  next
    case (Some existing)
    have k: "Namespace existing = Namespace obj" "Name existing = Name obj"
      using lookup_Some_hasKey [OF Some] by simp_all
    show ?thesis
    proof (cases "f existing")
      case (Inl e)
      then show ?thesis using g Some
        by (simp add: CreateOrUpdate_def CreateOrUpdateEnv_def client_Get_def mutate_def)
    next
      case (Inr obj')
      then show ?thesis using g Some k
        by (simp add: CreateOrUpdate_def CreateOrUpdateEnv_def client_Get_def mutate_def
            client_Update_def)
    qed
  qed
qed


lemma CreateOrUpdate_err_state:
  "CreateOrUpdate K c obj f = (Inl e, c') \<Longrightarrow> c' = c"
  by (simp add: CreateOrUpdate_eq split: if_splits option.splits sum.splits)

lemma CreateOrUpdate_twice:
  assumes run: "CreateOrUpdate K c obj f = (Inr (op, res), c')"
    and key: "\<And>x y. f x = Inr y \<Longrightarrow> Namespace y = Namespace x \<and> Name y = Name x"
    and idem: "\<And>x y t. f x = Inr y \<Longrightarrow>
                 f (y\<lparr>CreationTimestamp := t\<rparr>) = Inr (y\<lparr>CreationTimestamp := t\<rparr>)"
    and sel: "\<And>xs d. res_sel K (res_upd K xs d) = xs"
    and fl: "\<And>xs d. faults (res_upd K xs d) = faults d"
  shows "CreateOrUpdate K c' obj f = (Inr (OperationResultNone, res), c')"
proof -
  have g: "(VGet, res_kind K, Name obj) \<notin> faults c"
    using run by (auto simp: CreateOrUpdate_Env CreateOrUpdateEnv_get_fault)
  have idem0: "f y = Inr y" if "f x = Inr y" for x y
    using idem [OF that, of "CreationTimestamp y"] by simp
  show ?thesis
  proof (cases "lookup (res_sel K c) (Namespace obj) (Name obj)")
    case None
    then obtain obj' where fo: "f obj = Inr obj'"
      using run g by (cases "f obj") (simp_all add: CreateOrUpdate_eq)
    have k0: "Namespace obj' = Namespace obj" "Name obj' = Name obj"
      using key [OF fo] by simp_all
    have r: "res = obj'\<lparr>CreationTimestamp := Suc (now c)\<rparr>"
      and c': "c' = res_upd K (res_sel K c @ [res]) c"
      using run g None fo k0 by (auto simp: CreateOrUpdate_eq split: if_splits)
    have k: "Namespace res = Namespace obj" "Name res = Name obj"
      using k0 r by simp_all
    have l: "lookup (res_sel K c') (Namespace obj) (Name obj) = Some res"
      using None c' k by (simp add: sel lookup_append lookup_Cons hasKey_def)
    have f: "f res = Inr res" using idem [OF fo] r by simp
    have g': "(VGet, res_kind K, Name obj) \<notin> faults c'" using g c' by (simp add: fl)
    show ?thesis
      using CreateOrUpdate_present [of K c' obj res f res] l f g' by simp
  next
    case (Some existing)
    then obtain obj' where fo: "f existing = Inr obj'"
      using run g by (cases "f existing") (simp_all add: CreateOrUpdate_eq)
    have ke: "Namespace existing = Namespace obj" "Name existing = Name obj"
      using lookup_Some_hasKey [OF Some] by simp_all
    have k0: "Namespace obj' = Namespace obj" "Name obj' = Name obj"
      using key [OF fo] ke by simp_all
    have r: "res = obj'"
      using run g Some fo k0 ke by (auto simp: CreateOrUpdate_eq split: if_splits)
    have f: "f res = Inr res" using idem0 [OF fo] r by simp
    show ?thesis
    proof (cases "existing = obj'")
      case True
      then have "c' = c" using run g Some fo k0 ke by (auto simp: CreateOrUpdate_eq)
      then show ?thesis
        using CreateOrUpdate_present [of K c obj res f res] Some True r f g by simp
    next
      case False
      then have c': "c' = res_upd K (map (\<lambda>x. if hasKey (Namespace obj) (Name obj) x
                                             then res else x) (res_sel K c)) c"
        using run g Some fo k0 ke r by (auto simp: CreateOrUpdate_eq split: if_splits)
      have l: "lookup (res_sel K c') (Namespace obj) (Name obj) = Some res"
        using Some c' k0 r by (simp add: sel lookup_replace)
      have g': "(VGet, res_kind K, Name obj) \<notin> faults c'" using g c' by (simp add: fl)
      show ?thesis
        using CreateOrUpdate_present [of K c' obj res f res] l f g' by simp
    qed
  qed
qed

lemma CreateOrUpdate_cong:
  assumes eq: "res_sel K c' = res_sel K c" "faults c' = faults c" "now c' = now c"
    and sel: "\<And>xs d. res_sel K (res_upd K xs d) = xs"
    and same: "\<And>d. res_upd K (res_sel K d) d = d"
  shows "CreateOrUpdate K c' obj f =
           (fst (CreateOrUpdate K c obj f),
            res_upd K (res_sel K (snd (CreateOrUpdate K c obj f))) c')"
proof -
  have s: "res_upd K (res_sel K c) c' = c'" using same [of c'] eq(1) by simp
  show ?thesis
    unfolding CreateOrUpdate_eq [of K c'] CreateOrUpdate_eq [of K c] eq
    by (simp add: sel s split: option.splits sum.splits)
qed


subsection \<open>The snapshot class of a storage class\<close>

lemma GetVSC_shape:
  "\<exists>L. snd (GetVolumeSnapshotClassFromPVCStorageClass v sc) = v\<lparr>volumeSnapshotClassList := L\<rparr>"
proof -
  have triv: "v = v\<lparr>volumeSnapshotClassList := volumeSnapshotClassList v\<rparr>" by simp
  show ?thesis
    unfolding GetVolumeSnapshotClassFromPVCStorageClass_def GetVolumeSnapshotClasses_def Let_def
    by (auto split: option.splits sum.splits prod.splits if_splits intro: triv)
qed

lemma GetVSC_cong:
  assumes "sameEnv v w" and c: "volumeSnapshotClassList w = volumeSnapshotClassList v"
  shows "GetVolumeSnapshotClassFromPVCStorageClass w sc =
           (fst (GetVolumeSnapshotClassFromPVCStorageClass v sc),
            w\<lparr>volumeSnapshotClassList :=
                 volumeSnapshotClassList (snd (GetVolumeSnapshotClassFromPVCStorageClass v sc))\<rparr>)"
proof -
  have triv: "w\<lparr>volumeSnapshotClassList := volumeSnapshotClassList v\<rparr> = w"
    using c [symmetric] by simp
  show ?thesis
    using assms triv
    unfolding GetVolumeSnapshotClassFromPVCStorageClass_def GetVolumeSnapshotClasses_def Let_def
      client_Get_def client_List_def StorageClasses_def VolumeSnapshotClasses_def sameEnv_def
    by (auto split: option.splits sum.splits prod.splits if_splits)
qed

lemma GetVSC_idem:
  assumes "GetVolumeSnapshotClassFromPVCStorageClass v sc = (Inr n, v1)"
  shows "GetVolumeSnapshotClassFromPVCStorageClass v1 sc = (Inr n, v1)"
  using assms
  unfolding GetVolumeSnapshotClassFromPVCStorageClass_def GetVolumeSnapshotClasses_def Let_def
      client_Get_def client_List_def StorageClasses_def VolumeSnapshotClasses_def
  by (auto split: option.splits sum.splits prod.splits if_splits)

lemma GetVSC_sameEnv:
  "sameEnv v (snd (GetVolumeSnapshotClassFromPVCStorageClass v sc))"
  using GetVSC_shape [of v sc] by (auto simp: sameEnv_def)

subsection \<open>The mutation functions\<close>

lemma validateOwner_ns:
  "Namespace z = Namespace x \<Longrightarrow> validateOwner ownr z = validateOwner ownr x"
  by (simp add: validateOwner_def)

lemma upsertOwnerRef_fix:
  assumes "upsertOwnerRef r x = x" and "OwnerReferences z = OwnerReferences x"
  shows "upsertOwnerRef r z = z"
proof -
  have "OwnerReferences (upsertOwnerRef r x) = OwnerReferences x" using assms(1) by simp
  then show ?thesis
    using assms(2)
    by (cases "indexOwnerRef (OwnerReferences x) r") (simp_all add: upsertOwnerRef_def)
qed

lemma SetControllerReference_fix:
  assumes "SetControllerReference gvk ownr x = Inr x1"
    and "OwnerReferences z = OwnerReferences x1" and "Namespace z = Namespace x1"
  shows "SetControllerReference gvk ownr z = Inr z"
proof -
  let ?r = "\<lparr>ref_Group = fst gvk, ref_Kind = snd gvk, ref_Name = Name ownr, ref_Controller = True\<rparr>"
  have i: "SetControllerReference gvk ownr x1 = Inr x1"
    using assms(1) by (rule SetControllerReference_idem)
  then have vo: "validateOwner ownr x1 = None"
    and u: "upsertOwnerRef ?r x1 = x1"
    and gc: "GetControllerOf x1 = None \<or> (\<exists>e. GetControllerOf x1 = Some e \<and> referSameObject e ?r)"
    by (auto simp: SetControllerReference_def Let_def split: option.splits if_splits)
  have vz: "validateOwner ownr z = None" by (simp add: validateOwner_ns [OF assms(3)] vo)
  have gz: "GetControllerOf z = GetControllerOf x1" using assms(2) by (simp add: GetControllerOf_def)
  have uz: "upsertOwnerRef ?r z = z" using upsertOwnerRef_fix [OF u assms(2)] .
  show ?thesis
    using vz gz gc uz by (auto simp: SetControllerReference_def Let_def)
qed

lemma SetOwnerReference_fix:
  assumes "SetOwnerReference gvk ownr x = Inr x1"
    and "OwnerReferences z = OwnerReferences x1" and "Namespace z = Namespace x1"
  shows "SetOwnerReference gvk ownr z = Inr z"
proof -
  let ?r = "\<lparr>ref_Group = fst gvk, ref_Kind = snd gvk, ref_Name = Name ownr, ref_Controller = False\<rparr>"
  have i: "SetOwnerReference gvk ownr x1 = Inr x1"
    using assms(1) by (rule SetOwnerReference_idem)
  then have vo: "validateOwner ownr x1 = None" and u: "upsertOwnerRef ?r x1 = x1"
    by (auto simp: SetOwnerReference_def split: option.splits)
  have vz: "validateOwner ownr z = None" by (simp add: validateOwner_ns [OF assms(3)] vo)
  show ?thesis
    using vz upsertOwnerRef_fix [OF u assms(2)] by (simp add: SetOwnerReference_def)
qed

lemma SetControllerReference_refs:
  "SetControllerReference gvk ownr x = Inr x1 \<Longrightarrow>
   x1 = x\<lparr>OwnerReferences := OwnerReferences x1\<rparr>"
  by (auto simp: SetControllerReference_def Let_def upsertOwnerRef_def
      split: option.splits if_splits)

lemma RD_mutate_key:
  "createOrUpdateRD_mutate v rdSpec k vsc am x = Inr y
   \<Longrightarrow> Namespace y = Namespace x \<and> Name y = Name x"
  by (auto simp: createOrUpdateRD_mutate_def addVRGOwnerLabel_def
      dest: SetControllerReference_key split: sum.splits)

lemma RD_mutate_idem:
  assumes "createOrUpdateRD_mutate v rdSpec k vsc am x = Inr y"
  shows "createOrUpdateRD_mutate v rdSpec k vsc am (y\<lparr>CreationTimestamp := t\<rparr>)
           = Inr (y\<lparr>CreationTimestamp := t\<rparr>)"
proof -
  obtain x1 where s: "SetControllerReference (ownerGVK v) (owner v) x = Inr x1"
    and y: "y = (addVRGOwnerLabel (owner v) x1)
            \<lparr>RDSpecRsync := Some
               \<lparr>RDServiceType = getRsyncServiceType v,
                RDSSHKeys = Some k,
                RDCopyMethod = CopyMethodSnapshot,
                RDCapacity = Some (Storage (Requests (Resources (RDProtectedPVC rdSpec)))),
                RDStorageClassName = StorageClassName (RDProtectedPVC rdSpec),
                RDAccessModes = am,
                RDVolumeSnapshotClassName = Some vsc\<rparr>\<rparr>"
    using assms by (auto simp: createOrUpdateRD_mutate_def split: sum.splits)
  have "SetControllerReference (ownerGVK v) (owner v) (y\<lparr>CreationTimestamp := t\<rparr>)
          = Inr (y\<lparr>CreationTimestamp := t\<rparr>)"
    by (rule SetControllerReference_fix [OF s]) (simp_all add: y addVRGOwnerLabel_def)
  then show ?thesis
    by (simp add: createOrUpdateRD_mutate_def y addVRGOwnerLabel_def)
qed

lemma RD_mutate_cong:
  "sameEnv v w \<Longrightarrow> createOrUpdateRD_mutate w = createOrUpdateRD_mutate v"
  by (intro ext)
     (simp add: createOrUpdateRD_mutate_def sameEnv_def getRsyncServiceType_def
        cong: sum.case_cong)

lemma RS_mutate_key:
  "createOrUpdateRS_mutate v rsSpec k fin vsc addr x = Inr y
   \<Longrightarrow> Namespace y = Namespace x \<and> Name y = Name x"
  by (auto simp: createOrUpdateRS_mutate_def addVRGOwnerLabel_def Let_def
      dest: SetControllerReference_key split: sum.splits if_splits)

lemma RS_mutate_idem:
  assumes "createOrUpdateRS_mutate v rsSpec k fin vsc addr x = Inr y"
  shows "createOrUpdateRS_mutate v rsSpec k fin vsc addr (y\<lparr>CreationTimestamp := t\<rparr>)
           = Inr (y\<lparr>CreationTimestamp := t\<rparr>)"
proof -
  obtain x1 where s: "SetControllerReference (ownerGVK v) (owner v) x = Inr x1"
    using assms by (auto simp: createOrUpdateRS_mutate_def split: sum.splits)
  obtain tr where y: "y = (addVRGOwnerLabel (owner v) x1)
            \<lparr>SourcePVC := PVCName (RSProtectedPVC rsSpec), Trigger := Some tr,
             RSSpecRsync := Some
                    \<lparr>RSSSHKeys = Some k, RSAddress = Some addr,
                     RSCopyMethod = CopyMethodSnapshot,
                     RSVolumeSnapshotClassName = Some vsc\<rparr>\<rparr>"
    and tr: "if fin then tr = \<lparr>Schedule = None, Manual = FinalSyncTriggerString\<rparr>
             else \<exists>cs. getScheduleCronSpec v = Inr cs \<and> tr = \<lparr>Schedule = Some cs, Manual = []\<rparr>"
    using assms s
    by (auto simp: createOrUpdateRS_mutate_def Let_def split: sum.splits if_splits)
  have "SetControllerReference (ownerGVK v) (owner v) (y\<lparr>CreationTimestamp := t\<rparr>)
          = Inr (y\<lparr>CreationTimestamp := t\<rparr>)"
    by (rule SetControllerReference_fix [OF s]) (simp_all add: y addVRGOwnerLabel_def)
  then show ?thesis
    using tr
    by (auto simp: createOrUpdateRS_mutate_def y addVRGOwnerLabel_def Let_def split: if_splits)
qed

lemma RS_mutate_cong:
  "sameEnv v w \<Longrightarrow> createOrUpdateRS_mutate w = createOrUpdateRS_mutate v"
  by (intro ext)
     (simp add: createOrUpdateRS_mutate_def sameEnv_def getScheduleCronSpec_def
        cong: sum.case_cong if_cong)


subsection \<open>Creating or updating the destination, the source and the service export\<close>

lemma CreateOrUpdate_shape:
  assumes same: "\<And>d. res_upd K (res_sel K d) d = d"
  shows "\<exists>xs. snd (CreateOrUpdate K c obj f) = res_upd K xs c"
proof -
  have triv: "\<exists>xs. c = res_upd K xs c" using same [of c, symmetric] by blast
  show ?thesis
    unfolding CreateOrUpdate_eq
    using triv by (auto split: option.splits sum.splits)
qed


lemma RD_laws:
  "res_sel ReplicationDestinations (res_upd ReplicationDestinations xs d) = xs"
  "res_upd ReplicationDestinations (res_sel ReplicationDestinations d) d = d"
  "faults (res_upd ReplicationDestinations xs d) = faults d"
  "res_upd ReplicationDestinations xs d = d\<lparr>replicationDestinations := xs\<rparr>"
  "res_sel ReplicationDestinations d = replicationDestinations d"
  by (simp_all add: ReplicationDestinations_def)

lemma RS_laws:
  "res_sel ReplicationSources (res_upd ReplicationSources xs d) = xs"
  "res_upd ReplicationSources (res_sel ReplicationSources d) d = d"
  "faults (res_upd ReplicationSources xs d) = faults d"
  "res_upd ReplicationSources xs d = d\<lparr>replicationSources := xs\<rparr>"
  "res_sel ReplicationSources d = replicationSources d"
  by (simp_all add: ReplicationSources_def)

lemma SE_laws:
  "res_sel ServiceExports (res_upd ServiceExports xs d) = xs"
  "res_upd ServiceExports (res_sel ServiceExports d) d = d"
  "faults (res_upd ServiceExports xs d) = faults d"
  "res_upd ServiceExports xs d = d\<lparr>serviceExports := xs\<rparr>"
  "res_sel ServiceExports d = serviceExports d"
  by (simp_all add: ServiceExports_def)

lemma createOrUpdateRD_cong:
  assumes e: "sameEnv v w" and c: "volumeSnapshotClassList w = volumeSnapshotClassList v"
    and d: "replicationDestinations (client w) = replicationDestinations (client v)"
  shows "createOrUpdateRD w rdSpec k =
           (fst (createOrUpdateRD v rdSpec k),
            w\<lparr>volumeSnapshotClassList := volumeSnapshotClassList (snd (createOrUpdateRD v rdSpec k)),
              client := (client w)\<lparr>replicationDestinations :=
                 replicationDestinations (client (snd (createOrUpdateRD v rdSpec k)))\<rparr>\<rparr>)"
proof -
  let ?sc = "StorageClassName (RDProtectedPVC rdSpec)"
  let ?am = "if length (AccessModes (RDProtectedPVC rdSpec)) > 0
             then AccessModes (RDProtectedPVC rdSpec) else [ReadWriteOnce]"
  obtain r v1 where g: "GetVolumeSnapshotClassFromPVCStorageClass v ?sc = (r, v1)" by fastforce
  have v1: "v1 = v\<lparr>volumeSnapshotClassList := volumeSnapshotClassList v1\<rparr>"
    using GetVSC_cong [of v v ?sc] g by simp
  define w1 where "w1 = w\<lparr>volumeSnapshotClassList := volumeSnapshotClassList v1\<rparr>"
  have gw: "GetVolumeSnapshotClassFromPVCStorageClass w ?sc = (r, w1)"
    using GetVSC_cong [OF e c, of ?sc] g by (simp add: w1_def)
  have cv1: "client v1 = client v" by (subst v1) simp
  have ov1: "owner v1 = owner v" by (subst v1) simp
  have cw1: "client w1 = client w" "owner w1 = owner w"
    "volumeSnapshotClassList w1 = volumeSnapshotClassList v1" by (simp_all add: w1_def)
  have e1: "sameEnv v1 w1"
    using e cv1 cw1 by (subst v1) (simp add: sameEnv_def w1_def)
  show ?thesis
  proof (cases r)
    case (Inl err)
    have "w1 = w1\<lparr>client := (client w)\<lparr>replicationDestinations :=
                 replicationDestinations (client v)\<rparr>\<rparr>"
      using d [symmetric] cw1 by simp
    then show ?thesis
      using g gw Inl cv1 cw1 by (simp add: createOrUpdateRD_def w1_def)
  next
    case (Inr vsc)
    let ?obj = "\<lparr>Name = getReplicationDestinationName (PVCName (RDProtectedPVC rdSpec)),
                     Namespace = Namespace (owner v1),
                     Labels = Map.empty, Annotations = Map.empty, OwnerReferences = [],
                     CreationTimestamp = 0, RDSpecRsync = None, RDStatus = None\<rparr>"
    let ?M = "createOrUpdateRD_mutate v1 rdSpec k vsc ?am"
    let ?cv = "CreateOrUpdate ReplicationDestinations (client v1) ?obj ?M"
    let ?cw = "CreateOrUpdate ReplicationDestinations (client w1) ?obj ?M"
    have ow: "Namespace (owner w1) = Namespace (owner v1)"
      using e1 by (simp add: sameEnv_def)
    have Mw: "createOrUpdateRD_mutate w1 = createOrUpdateRD_mutate v1"
      using RD_mutate_cong [OF e1] .
    have cc: "?cw = (fst ?cv, (client w1)\<lparr>replicationDestinations :=
                 replicationDestinations (snd ?cv)\<rparr>)"
      using CreateOrUpdate_cong [of ReplicationDestinations "client w1" "client v1" ?obj ?M,
          OF _ _ _ RD_laws(1) RD_laws(2)] e1 d cv1 cw1
      by (simp add: RD_laws sameEnv_def)
    have rv: "createOrUpdateRD v rdSpec k =
               (case ?cv of (Inl err, c') \<Rightarrow> (Inl err, v1\<lparr>client := c'\<rparr>)
                | (Inr (op, rd'), c') \<Rightarrow> (Inr rd', v1\<lparr>client := c'\<rparr>))"
      using g Inr by (simp add: createOrUpdateRD_def Let_def)
    have rw: "createOrUpdateRD w rdSpec k =
               (case ?cw of (Inl err, c') \<Rightarrow> (Inl err, w1\<lparr>client := c'\<rparr>)
                | (Inr (op, rd'), c') \<Rightarrow> (Inr rd', w1\<lparr>client := c'\<rparr>))"
      using gw Inr ow Mw by (simp add: createOrUpdateRD_def Let_def)
    show ?thesis
      unfolding rv rw cc
      by (cases ?cv) (auto simp: w1_def split: sum.splits)
  qed
qed


lemma CreateOrUpdate_self:
  assumes sel: "\<And>xs d. res_sel K (res_upd K xs d) = xs"
    and same: "\<And>d. res_upd K (res_sel K d) d = d"
  shows "snd (CreateOrUpdate K c obj f)
           = res_upd K (res_sel K (snd (CreateOrUpdate K c obj f))) c"
proof -
  have "snd (CreateOrUpdate K c obj f)
          = snd (fst (CreateOrUpdate K c obj f),
                 res_upd K (res_sel K (snd (CreateOrUpdate K c obj f))) c)"
    by (rule arg_cong [OF CreateOrUpdate_cong [of K c c obj f, OF refl refl refl sel same]])
  then show ?thesis unfolding snd_conv .
qed

lemma createOrUpdateRD_idem:
  assumes run: "createOrUpdateRD v rdSpec k = (Inr rd, v')"
  shows "createOrUpdateRD v' rdSpec k = (Inr rd, v')"
proof -
  let ?sc = "StorageClassName (RDProtectedPVC rdSpec)"
  let ?am = "if length (AccessModes (RDProtectedPVC rdSpec)) > 0
             then AccessModes (RDProtectedPVC rdSpec) else [ReadWriteOnce]"
  obtain r v1 where g: "GetVolumeSnapshotClassFromPVCStorageClass v ?sc = (r, v1)" by fastforce
  then obtain vsc where r: "r = Inr vsc"
    using run by (cases r) (auto simp: createOrUpdateRD_def)
  let ?obj = "\<lparr>Name = getReplicationDestinationName (PVCName (RDProtectedPVC rdSpec)),
                     Namespace = Namespace (owner v1),
                     Labels = Map.empty, Annotations = Map.empty, OwnerReferences = [],
                     CreationTimestamp = 0, RDSpecRsync = None, RDStatus = None\<rparr>"
  let ?M = "createOrUpdateRD_mutate v1 rdSpec k vsc ?am"
  obtain res c' where cv: "CreateOrUpdate ReplicationDestinations (client v1) ?obj ?M = (res, c')"
    by fastforce
  then obtain op where res: "res = Inr (op, rd)" and v': "v' = v1\<lparr>client := c'\<rparr>"
    using run g r by (cases res) (auto simp: createOrUpdateRD_def Let_def)
  have c': "c' = (client v1)\<lparr>replicationDestinations := replicationDestinations c'\<rparr>"
    using CreateOrUpdate_self [of ReplicationDestinations "client v1" ?obj ?M,
        OF RD_laws(1) RD_laws(2)] cv
    by (simp add: RD_laws)
  have e: "sameEnv v1 v'"
    unfolding v' by (subst c') (simp add: sameEnv_def)
  have ca: "volumeSnapshotClassList v' = volumeSnapshotClassList v1" by (simp add: v')
  have g1: "GetVolumeSnapshotClassFromPVCStorageClass v1 ?sc = (Inr vsc, v1)"
    using GetVSC_idem g r by simp
  have g': "GetVolumeSnapshotClassFromPVCStorageClass v' ?sc = (Inr vsc, v')"
    using GetVSC_cong [OF e ca, of ?sc] g1 by (simp add: v')
  have tw: "CreateOrUpdate ReplicationDestinations c' ?obj ?M = (Inr (OperationResultNone, rd), c')"
    using cv res
    by (intro CreateOrUpdate_twice [where c = "client v1" and op = op])
       (auto simp: RD_laws dest: RD_mutate_key RD_mutate_idem)
  have Mw: "createOrUpdateRD_mutate v' = createOrUpdateRD_mutate v1"
    using RD_mutate_cong [OF e] .
  have ow: "Namespace (owner v') = Namespace (owner v1)" by (simp add: v')
  have cl: "client v' = c'" by (simp add: v')
  show ?thesis
    using g' tw Mw ow cl by (simp add: createOrUpdateRD_def Let_def)
qed



subsection \<open>The same for the source\<close>

lemma createOrUpdateRS_cong:
  assumes e: "sameEnv v w" and c: "volumeSnapshotClassList w = volumeSnapshotClassList v"
    and d: "replicationSources (client w) = replicationSources (client v)"
  shows "createOrUpdateRS w rsSpec k fin =
           (fst (createOrUpdateRS v rsSpec k fin),
            w\<lparr>volumeSnapshotClassList := volumeSnapshotClassList (snd (createOrUpdateRS v rsSpec k fin)),
              client := (client w)\<lparr>replicationSources :=
                 replicationSources (client (snd (createOrUpdateRS v rsSpec k fin)))\<rparr>\<rparr>)"
proof -
  let ?sc = "StorageClassName (RSProtectedPVC rsSpec)"
  obtain r v1 where g: "GetVolumeSnapshotClassFromPVCStorageClass v ?sc = (r, v1)" by fastforce
  have v1: "v1 = v\<lparr>volumeSnapshotClassList := volumeSnapshotClassList v1\<rparr>"
    using GetVSC_cong [of v v ?sc] g by simp
  define w1 where "w1 = w\<lparr>volumeSnapshotClassList := volumeSnapshotClassList v1\<rparr>"
  have gw: "GetVolumeSnapshotClassFromPVCStorageClass w ?sc = (r, w1)"
    using GetVSC_cong [OF e c, of ?sc] g by (simp add: w1_def)
  have cv1: "client v1 = client v" by (subst v1) simp
  have ov1: "owner v1 = owner v" by (subst v1) simp
  have cw1: "client w1 = client w" "owner w1 = owner w"
    "volumeSnapshotClassList w1 = volumeSnapshotClassList v1" by (simp_all add: w1_def)
  have e1: "sameEnv v1 w1"
    using e cv1 cw1 by (subst v1) (simp add: sameEnv_def w1_def)
  show ?thesis
  proof (cases r)
    case (Inl err)
    have "w1 = w1\<lparr>client := (client w)\<lparr>replicationSources :=
                 replicationSources (client v)\<rparr>\<rparr>"
      using d [symmetric] cw1 by simp
    then show ?thesis
      using g gw Inl cv1 cw1 by (simp add: createOrUpdateRS_def w1_def)
  next
    case (Inr vsc)
    let ?obj = "\<lparr>Name = getReplicationSourceName (PVCName (RSProtectedPVC rsSpec)),
                     Namespace = Namespace (owner v1),
                     Labels = Map.empty, Annotations = Map.empty, OwnerReferences = [],
                     CreationTimestamp = 0, SourcePVC = [], Trigger = None,
                     RSSpecRsync = None, RSStatus = None\<rparr>"
    let ?addr = "getRemoteServiceNameForRDFromPVCName (PVCName (RSProtectedPVC rsSpec))
                   (Namespace (owner v1))"
    let ?M = "createOrUpdateRS_mutate v1 rsSpec k fin vsc ?addr"
    let ?cv = "CreateOrUpdate ReplicationSources (client v1) ?obj ?M"
    let ?cw = "CreateOrUpdate ReplicationSources (client w1) ?obj ?M"
    have ow: "Namespace (owner w1) = Namespace (owner v1)"
      using e1 by (simp add: sameEnv_def)
    have Mw: "createOrUpdateRS_mutate w1 = createOrUpdateRS_mutate v1"
      using RS_mutate_cong [OF e1] .
    have cc: "?cw = (fst ?cv, (client w1)\<lparr>replicationSources :=
                 replicationSources (snd ?cv)\<rparr>)"
      using CreateOrUpdate_cong [of ReplicationSources "client w1" "client v1" ?obj ?M,
          OF _ _ _ RS_laws(1) RS_laws(2)] e1 d cv1 cw1
      by (simp add: RS_laws sameEnv_def)
    have rv: "createOrUpdateRS v rsSpec k fin =
               (case ?cv of (Inl err, c') \<Rightarrow> (Inl err, v1\<lparr>client := c'\<rparr>)
                | (Inr (op, rd'), c') \<Rightarrow> (Inr rd', v1\<lparr>client := c'\<rparr>))"
      using g Inr by (simp add: createOrUpdateRS_def Let_def)
    have rw: "createOrUpdateRS w rsSpec k fin =
               (case ?cw of (Inl err, c') \<Rightarrow> (Inl err, w1\<lparr>client := c'\<rparr>)
                | (Inr (op, rd'), c') \<Rightarrow> (Inr rd', w1\<lparr>client := c'\<rparr>))"
      using gw Inr ow Mw by (simp add: createOrUpdateRS_def Let_def)
    show ?thesis
      unfolding rv rw cc
      by (cases ?cv) (auto simp: w1_def split: sum.splits)
  qed
qed


lemma createOrUpdateRS_idem:
  assumes run: "createOrUpdateRS v rsSpec k fin = (Inr rs, v')"
  shows "createOrUpdateRS v' rsSpec k fin = (Inr rs, v')"
proof -
  let ?sc = "StorageClassName (RSProtectedPVC rsSpec)"
  obtain r v1 where g: "GetVolumeSnapshotClassFromPVCStorageClass v ?sc = (r, v1)" by fastforce
  then obtain vsc where r: "r = Inr vsc"
    using run by (cases r) (auto simp: createOrUpdateRS_def)
  let ?obj = "\<lparr>Name = getReplicationSourceName (PVCName (RSProtectedPVC rsSpec)),
                     Namespace = Namespace (owner v1),
                     Labels = Map.empty, Annotations = Map.empty, OwnerReferences = [],
                     CreationTimestamp = 0, SourcePVC = [], Trigger = None,
                     RSSpecRsync = None, RSStatus = None\<rparr>"
    let ?addr = "getRemoteServiceNameForRDFromPVCName (PVCName (RSProtectedPVC rsSpec))
                   (Namespace (owner v1))"
  let ?M = "createOrUpdateRS_mutate v1 rsSpec k fin vsc ?addr"
  obtain res c' where cv: "CreateOrUpdate ReplicationSources (client v1) ?obj ?M = (res, c')"
    by fastforce
  then obtain op where res: "res = Inr (op, rs)" and v': "v' = v1\<lparr>client := c'\<rparr>"
    using run g r by (cases res) (auto simp: createOrUpdateRS_def Let_def)
  have c': "c' = (client v1)\<lparr>replicationSources := replicationSources c'\<rparr>"
    using CreateOrUpdate_self [of ReplicationSources "client v1" ?obj ?M,
        OF RS_laws(1) RS_laws(2)] cv
    by (simp add: RS_laws)
  have e: "sameEnv v1 v'"
    unfolding v' by (subst c') (simp add: sameEnv_def)
  have ca: "volumeSnapshotClassList v' = volumeSnapshotClassList v1" by (simp add: v')
  have g1: "GetVolumeSnapshotClassFromPVCStorageClass v1 ?sc = (Inr vsc, v1)"
    using GetVSC_idem g r by simp
  have g': "GetVolumeSnapshotClassFromPVCStorageClass v' ?sc = (Inr vsc, v')"
    using GetVSC_cong [OF e ca, of ?sc] g1 by (simp add: v')
  have tw: "CreateOrUpdate ReplicationSources c' ?obj ?M = (Inr (OperationResultNone, rs), c')"
    using cv res
    by (intro CreateOrUpdate_twice [where c = "client v1" and op = op])
       (auto simp: RS_laws dest: RS_mutate_key RS_mutate_idem)
  have Mw: "createOrUpdateRS_mutate v' = createOrUpdateRS_mutate v1"
    using RS_mutate_cong [OF e] .
  have ow: "Namespace (owner v') = Namespace (owner v1)" by (simp add: v')
  have cl: "client v' = c'" by (simp add: v')
  show ?thesis
    using g' tw Mw ow cl by (simp add: createOrUpdateRS_def Let_def)
qed




subsection \<open>The service export and the volume claim\<close>

lemma reconcileServiceExportForRD_cong:
  assumes e: "sameEnv v w"
    and d: "serviceExports (client w) = serviceExports (client v)"
  shows "reconcileServiceExportForRD w rd =
           (fst (reconcileServiceExportForRD v rd),
            w\<lparr>client := (client w)\<lparr>serviceExports :=
                 serviceExports (client (snd (reconcileServiceExportForRD v rd)))\<rparr>\<rparr>)"
proof -
  let ?obj = "emptyMeta (getLocalServiceNameForRD (Name rd)) (Namespace rd)"
  let ?f = "\<lambda>svcExport. SetOwnerReference ReplicationDestinationGVK rd svcExport"
  let ?cv = "CreateOrUpdate ServiceExports (client v) ?obj ?f"
  let ?cw = "CreateOrUpdate ServiceExports (client w) ?obj ?f"
  have cc: "?cw = (fst ?cv, (client w)\<lparr>serviceExports := serviceExports (snd ?cv)\<rparr>)"
    using CreateOrUpdate_cong [of ServiceExports "client w" "client v" ?obj ?f,
        OF _ _ _ SE_laws(1) SE_laws(2)] e d
    by (simp add: SE_laws sameEnv_def)
  show ?thesis
    unfolding reconcileServiceExportForRD_def Let_def cc
    by (cases ?cv) (auto split: sum.splits)
qed

lemma SE_mutate_key:
  "SetOwnerReference gvk rd x = Inr y \<Longrightarrow> Namespace y = Namespace x \<and> Name y = Name x"
  by (rule SetOwnerReference_key)

lemma SE_mutate_idem:
  assumes "SetOwnerReference gvk rd x = Inr y"
  shows "SetOwnerReference gvk rd (y\<lparr>CreationTimestamp := t\<rparr>) = Inr (y\<lparr>CreationTimestamp := t\<rparr>)"
  by (rule SetOwnerReference_fix [OF assms]) simp_all

lemma reconcileServiceExportForRD_idem:
  assumes run: "reconcileServiceExportForRD v rd = (None, v')"
  shows "reconcileServiceExportForRD v' rd = (None, v')"
proof -
  let ?obj = "emptyMeta (getLocalServiceNameForRD (Name rd)) (Namespace rd)"
  let ?f = "\<lambda>svcExport. SetOwnerReference ReplicationDestinationGVK rd svcExport"
  obtain res c' where cv: "CreateOrUpdate ServiceExports (client v) ?obj ?f = (res, c')"
    by fastforce
  then obtain op se where res: "res = Inr (op, se)" and v': "v' = v\<lparr>client := c'\<rparr>"
    using run by (cases res) (auto simp: reconcileServiceExportForRD_def Let_def)
  have tw: "CreateOrUpdate ServiceExports c' ?obj ?f = (Inr (OperationResultNone, se), c')"
    using cv res
    by (intro CreateOrUpdate_twice [where c = "client v" and op = op])
       (auto simp: SE_laws dest: SE_mutate_key SE_mutate_idem)
  show ?thesis
    using tw by (simp add: reconcileServiceExportForRD_def Let_def v')
qed

lemma deletePVC_eq:
  "deletePVC v n =
     (if (VDelete, KPersistentVolumeClaim, n) \<in> faults (client v) then (Some ApiFailure, v)
      else (None, v\<lparr>client := (client v)\<lparr>persistentVolumeClaims :=
              filter (\<lambda>x. \<not> hasKey (Namespace (owner v)) n x)
                (persistentVolumeClaims (client v))\<rparr>\<rparr>))"
  by (simp add: deletePVC_def client_Delete_def PersistentVolumeClaims_def filter_absent
      split: option.splits)

lemma pvcExistsAndInUse_eq:
  "pvcExistsAndInUse v n =
     (if (VGet, KPersistentVolumeClaim, n) \<in> faults (client v) then Inl ApiFailure
      else (case lookup (persistentVolumeClaims (client v)) (Namespace (owner v)) n of
              None \<Rightarrow> Inr False
            | Some _ \<Rightarrow>
                if (VList, KPod, []) \<in> faults (client v) then Inl ApiFailure
                else Inr (\<exists>pod\<in>set (pods (client v)).
                            n \<in> set (podClaimNames (Volumes pod))
                            \<and> Namespace pod = Namespace (owner v))))"
  by (auto simp: pvcExistsAndInUse_def getPVC_def client_Get_def PersistentVolumeClaims_def
      isPvcInUse_def client_List_def Pods_def filter_empty_conv split: option.splits)

lemma pvcExistsAndInUse_cong:
  assumes "sameEnv v w"
    and "persistentVolumeClaims (client w) = persistentVolumeClaims (client v)"
  shows "pvcExistsAndInUse w n = pvcExistsAndInUse v n"
  using assms
  by (simp add: pvcExistsAndInUse_eq sameEnv_def cong: option.case_cong if_cong)

lemma validatePVCBeforeFinalSync_cong:
  assumes "sameEnv v w"
    and "persistentVolumeClaims (client w) = persistentVolumeClaims (client v)"
  shows "validatePVCBeforeFinalSync w rsSpec fin = validatePVCBeforeFinalSync v rsSpec fin"
  by (simp add: validatePVCBeforeFinalSync_def pvcExistsAndInUse_cong [OF assms])


subsection \<open>A step run again on its own result\<close>

text \<open>
  Each step of a reconcile, run on a handler that agrees with the step's own result on
  what the step reads, returns the same value and changes nothing.
\<close>

lemma validateSecret_frame:
  "snd (validateSecretAndAddVRGOwnerRef v n) =
     v\<lparr>client := (client v)\<lparr>secrets :=
          secrets (client (snd (validateSecretAndAddVRGOwnerRef v n)))\<rparr>\<rparr>"
proof -
  have "snd (validateSecretAndAddVRGOwnerRef v n) =
          snd (fst (validateSecretAndAddVRGOwnerRef v n),
               v\<lparr>client := (client v)\<lparr>secrets :=
                  secrets (client (snd (validateSecretAndAddVRGOwnerRef v n)))\<rparr>\<rparr>)"
    by (rule arg_cong [OF validateSecret_cong [OF sameEnv_refl refl]])
  then show ?thesis unfolding snd_conv .
qed

lemma validateSecret_again:
  assumes run: "validateSecretAndAddVRGOwnerRef v n = ((b, None), v1)"
    and e: "sameEnv v1 w" and s: "secrets (client w) = secrets (client v1)"
  shows "validateSecretAndAddVRGOwnerRef w n = ((b, None), w)"
proof -
  have w: "w\<lparr>client := (client w)\<lparr>secrets := secrets (client v1)\<rparr>\<rparr> = w"
    using s [symmetric] by simp
  show ?thesis
    using validateSecret_cong [OF e s, of n] validateSecret_idem [OF run] w by simp
qed

lemma DeleteRS_frame:
  "snd (DeleteRS v n) =
     v\<lparr>client := (client v)\<lparr>replicationSources :=
          replicationSources (client (snd (DeleteRS v n)))\<rparr>\<rparr>"
  by (simp add: DeleteRS_eq)

lemma DeleteRD_frame:
  "snd (DeleteRD v n) =
     v\<lparr>client := (client v)\<lparr>replicationDestinations :=
          replicationDestinations (client (snd (DeleteRD v n)))\<rparr>\<rparr>"
  by (simp add: DeleteRD_eq)

lemma DeleteRS_again:
  assumes run: "DeleteRS v n = (None, v1)"
    and e: "sameEnv v1 w"
    and s: "replicationSources (client w) = replicationSources (client v1)"
  shows "DeleteRS w n = (None, w)"
proof -
  have l: "(VList, KReplicationSource, []) \<notin> faults (client v)"
    using run by (auto simp: DeleteRS_eq split: if_splits)
  have f: "faults (client v1) = faults (client v)" and o: "owner v1 = owner v"
    using run by (auto simp: DeleteRS_eq split: if_splits)
  have fw: "faults (client w) = faults (client v)" and ow: "owner w = owner v"
    using e f o by (simp_all add: sameEnv_def)
  have gone: "(VDelete, KReplicationSource, n) \<notin> faults (client v) \<Longrightarrow>
              \<not> (\<exists>x\<in>set (replicationSources (client v1)). ownedBy v x \<and> Name x = n)"
    using run by (auto simp: DeleteRS_eq ownedBy_def hasKey_def split: if_splits)
  have ob: "ownedBy w = ownedBy v"
    using ow by (simp add: ownedBy_def fun_eq_iff)
  show ?thesis
    using l gone by (auto simp: DeleteRS_eq fw ob s)
qed

lemma DeleteRD_again:
  assumes run: "DeleteRD v n = (None, v1)"
    and e: "sameEnv v1 w"
    and s: "replicationDestinations (client w) = replicationDestinations (client v1)"
  shows "DeleteRD w n = (None, w)"
proof -
  have l: "(VList, KReplicationDestination, []) \<notin> faults (client v)"
    using run by (auto simp: DeleteRD_eq split: if_splits)
  have f: "faults (client v1) = faults (client v)" and o: "owner v1 = owner v"
    using run by (auto simp: DeleteRD_eq split: if_splits)
  have fw: "faults (client w) = faults (client v)" and ow: "owner w = owner v"
    using e f o by (simp_all add: sameEnv_def)
  have gone: "(VDelete, KReplicationDestination, n) \<notin> faults (client v) \<Longrightarrow>
              \<not> (\<exists>x\<in>set (replicationDestinations (client v1)). ownedBy v x \<and> Name x = n)"
    using run by (auto simp: DeleteRD_eq ownedBy_def hasKey_def split: if_splits)
  have ob: "ownedBy w = ownedBy v"
    using ow by (simp add: ownedBy_def fun_eq_iff)
  show ?thesis
    using l gone by (auto simp: DeleteRD_eq fw ob s)
qed

lemma createOrUpdateRD_frame:
  "snd (createOrUpdateRD v rdSpec k) =
     v\<lparr>volumeSnapshotClassList := volumeSnapshotClassList (snd (createOrUpdateRD v rdSpec k)),
       client := (client v)\<lparr>replicationDestinations :=
          replicationDestinations (client (snd (createOrUpdateRD v rdSpec k)))\<rparr>\<rparr>"
proof -
  have "snd (createOrUpdateRD v rdSpec k) =
          snd (fst (createOrUpdateRD v rdSpec k),
     v\<lparr>volumeSnapshotClassList := volumeSnapshotClassList (snd (createOrUpdateRD v rdSpec k)),
       client := (client v)\<lparr>replicationDestinations :=
          replicationDestinations (client (snd (createOrUpdateRD v rdSpec k)))\<rparr>\<rparr>)"
    by (rule arg_cong [OF createOrUpdateRD_cong [OF sameEnv_refl refl refl]])
  then show ?thesis unfolding snd_conv .
qed

lemma createOrUpdateRS_frame:
  "snd (createOrUpdateRS v rsSpec k fin) =
     v\<lparr>volumeSnapshotClassList :=
          volumeSnapshotClassList (snd (createOrUpdateRS v rsSpec k fin)),
       client := (client v)\<lparr>replicationSources :=
          replicationSources (client (snd (createOrUpdateRS v rsSpec k fin)))\<rparr>\<rparr>"
proof -
  have "snd (createOrUpdateRS v rsSpec k fin) =
          snd (fst (createOrUpdateRS v rsSpec k fin),
     v\<lparr>volumeSnapshotClassList :=
          volumeSnapshotClassList (snd (createOrUpdateRS v rsSpec k fin)),
       client := (client v)\<lparr>replicationSources :=
          replicationSources (client (snd (createOrUpdateRS v rsSpec k fin)))\<rparr>\<rparr>)"
    by (rule arg_cong [OF createOrUpdateRS_cong [OF sameEnv_refl refl refl]])
  then show ?thesis unfolding snd_conv .
qed

lemma createOrUpdateRD_again:
  assumes run: "createOrUpdateRD v rdSpec k = (Inr rd, v1)"
    and e: "sameEnv v1 w"
    and c: "volumeSnapshotClassList w = volumeSnapshotClassList v1"
    and s: "replicationDestinations (client w) = replicationDestinations (client v1)"
  shows "createOrUpdateRD w rdSpec k = (Inr rd, w)"
proof -
  have w: "w\<lparr>volumeSnapshotClassList := volumeSnapshotClassList v1,
             client := (client w)\<lparr>replicationDestinations :=
               replicationDestinations (client v1)\<rparr>\<rparr> = w"
    using s [symmetric] c [symmetric] by simp
  show ?thesis
    using createOrUpdateRD_cong [OF e c s, of rdSpec k] createOrUpdateRD_idem [OF run] w
    by simp
qed

lemma createOrUpdateRS_again:
  assumes run: "createOrUpdateRS v rsSpec k fin = (Inr rs, v1)"
    and e: "sameEnv v1 w"
    and c: "volumeSnapshotClassList w = volumeSnapshotClassList v1"
    and s: "replicationSources (client w) = replicationSources (client v1)"
  shows "createOrUpdateRS w rsSpec k fin = (Inr rs, w)"
proof -
  have w: "w\<lparr>volumeSnapshotClassList := volumeSnapshotClassList v1,
             client := (client w)\<lparr>replicationSources :=
               replicationSources (client v1)\<rparr>\<rparr> = w"
    using s [symmetric] c [symmetric] by simp
  show ?thesis
    using createOrUpdateRS_cong [OF e c s, of rsSpec k fin] createOrUpdateRS_idem [OF run] w
    by simp
qed

lemma reconcileServiceExportForRD_frame:
  "snd (reconcileServiceExportForRD v rd) =
     v\<lparr>client := (client v)\<lparr>serviceExports :=
          serviceExports (client (snd (reconcileServiceExportForRD v rd)))\<rparr>\<rparr>"
proof -
  have "snd (reconcileServiceExportForRD v rd) =
          snd (fst (reconcileServiceExportForRD v rd),
               v\<lparr>client := (client v)\<lparr>serviceExports :=
          serviceExports (client (snd (reconcileServiceExportForRD v rd)))\<rparr>\<rparr>)"
    by (rule arg_cong [OF reconcileServiceExportForRD_cong [OF sameEnv_refl refl]])
  then show ?thesis unfolding snd_conv .
qed



subsection \<open>A whole reconcile run again\<close>

lemma ReconcileRD_again:
  assumes run: "ReconcileRD v rdSpec = (Inr r, v')"
  shows "ReconcileRD v' rdSpec = (Inr r, v')"
proof -
  let ?k = "GetVolSyncSSHSecretNameFromVRGName v (Name (owner v))"
  let ?n = "PVCName (RDProtectedPVC rdSpec)"
  have p: "ProtectedByVolSync (RDProtectedPVC rdSpec)"
    using run by (auto simp: ReconcileRD_def split: if_splits)
  obtain b e v1 where s1: "validateSecretAndAddVRGOwnerRef v ?k = ((b, e), v1)"
    by (metis prod.exhaust)
  have e: "e = None"
    using run p s1 by (auto simp: ReconcileRD_def Let_def split: if_splits option.splits)
  obtain S where f1: "v1 = v\<lparr>client := (client v)\<lparr>secrets := S\<rparr>\<rparr>"
    using validateSecret_frame [of v ?k] s1 by simp
  have k1: "GetVolSyncSSHSecretNameFromVRGName v1 (Name (owner v1)) = ?k"
    by (simp add: f1)
  show ?thesis
  proof (cases b)
    case False
    have r: "r = None" "v' = v1"
      using run p s1 e False by (auto simp: ReconcileRD_def Let_def)
    show ?thesis
      using validateSecret_idem [OF s1 [unfolded e]] False p
      by (simp add: ReconcileRD_def Let_def r k1)
  next
    case True
    obtain d v2 where s2: "DeleteRS v1 ?n = (d, v2)" by fastforce
    have d: "d = None"
      using run p s1 e True s2 by (auto simp: ReconcileRD_def Let_def split: option.splits)
    obtain c v3 where s3: "createOrUpdateRD v2 rdSpec ?k = (c, v3)" by fastforce
    obtain rd where c: "c = Inr rd"
      using run p s1 e True s2 d s3 by (cases c) (auto simp: ReconcileRD_def Let_def)
    obtain x v4 where s4: "reconcileServiceExportForRD v3 rd = (x, v4)" by fastforce
    have x: "x = None"
      using run p s1 e True s2 d s3 c s4
      by (auto simp: ReconcileRD_def Let_def split: option.splits)
    have r: "r = (if \<not> rdStatusReady rd then None else Some rd)" "v' = v4"
      using run p s1 e True s2 d s3 c s4 x
      by (auto simp: ReconcileRD_def Let_def split: if_splits)
    obtain R where f2: "v2 = v1\<lparr>client := (client v1)\<lparr>replicationSources := R\<rparr>\<rparr>"
      using DeleteRS_frame [of v1 ?n] s2 by simp
    obtain L D where f3: "v3 = v2\<lparr>volumeSnapshotClassList := L,
                            client := (client v2)\<lparr>replicationDestinations := D\<rparr>\<rparr>"
      using createOrUpdateRD_frame [of v2 rdSpec ?k] s3 by simp
    obtain E where f4: "v4 = v3\<lparr>client := (client v3)\<lparr>serviceExports := E\<rparr>\<rparr>"
      using reconcileServiceExportForRD_frame [of v3 rd] s4 by simp
    have k4: "GetVolSyncSSHSecretNameFromVRGName v4 (Name (owner v4)) = ?k"
      by (simp add: f1 f2 f3 f4)
    have a1: "validateSecretAndAddVRGOwnerRef v4 ?k = ((True, None), v4)"
      using s1 e True
      by (intro validateSecret_again [where v = v]) (simp_all add: sameEnv_def f2 f3 f4)
    have a2: "DeleteRS v4 ?n = (None, v4)"
      using s2 d
      by (intro DeleteRS_again [where v = v1]) (simp_all add: sameEnv_def f3 f4)
    have a3: "createOrUpdateRD v4 rdSpec ?k = (Inr rd, v4)"
      using s3 c
      by (intro createOrUpdateRD_again [where v = v2]) (simp_all add: sameEnv_def f4)
    have a4: "reconcileServiceExportForRD v4 rd = (None, v4)"
      using reconcileServiceExportForRD_idem [OF s4 [unfolded x]] .
    show ?thesis
      by (simp add: ReconcileRD_def Let_def p r k4 a1 a2 a3 a4)
  qed
qed


lemma ReconcileRS_again:
  assumes run: "ReconcileRS v rsSpec fin = ((done, rso, None), v')"
  shows "ReconcileRS v' rsSpec fin = ((done, rso, None), v')"
proof -
  let ?k = "GetVolSyncSSHSecretNameFromVRGName v (Name (owner v))"
  let ?n = "PVCName (RSProtectedPVC rsSpec)"
  have p: "ProtectedByVolSync (RSProtectedPVC rsSpec)"
    using run by (auto simp: ReconcileRS_def split: if_splits)
  obtain b e v1 where s1: "validateSecretAndAddVRGOwnerRef v ?k = ((b, e), v1)"
    by (metis prod.exhaust)
  have e: "e = None"
    using run p s1 by (auto simp: ReconcileRS_def Let_def split: if_splits option.splits)
  obtain S where f1: "v1 = v\<lparr>client := (client v)\<lparr>secrets := S\<rparr>\<rparr>"
    using validateSecret_frame [of v ?k] s1 by simp
  have k1: "GetVolSyncSSHSecretNameFromVRGName v1 (Name (owner v1)) = ?k"
    by (simp add: f1)
  show ?thesis
  proof (cases b)
    case False
    have r: "done = False" "rso = None" "v' = v1"
      using run p s1 e False by (auto simp: ReconcileRS_def Let_def)
    show ?thesis
      using validateSecret_idem [OF s1 [unfolded e]] False p
      by (simp add: ReconcileRS_def Let_def r k1)
  next
    case True
    obtain d v2 where s2: "DeleteRD v1 ?n = (d, v2)" by fastforce
    have d: "d = None"
      using run p s1 e True s2 by (auto simp: ReconcileRS_def Let_def split: option.splits)
    obtain R where f2: "v2 = v1\<lparr>client := (client v1)\<lparr>replicationDestinations := R\<rparr>\<rparr>"
      using DeleteRD_frame [of v1 ?n] s2 by simp
    obtain ok err where s3: "validatePVCBeforeFinalSync v2 rsSpec fin = (ok, err)"
      by fastforce
    have err: "err = None"
      using run p s1 e True s2 d s3
      by (auto simp: ReconcileRS_def Let_def split: if_splits prod.splits sum.splits)
    show ?thesis
    proof (cases ok)
      case False
      have r: "done = False" "rso = None" "v' = v2"
        using run p s1 e True s2 d s3 err False by (auto simp: ReconcileRS_def Let_def)
      have k2: "GetVolSyncSSHSecretNameFromVRGName v2 (Name (owner v2)) = ?k"
        by (simp add: f1 f2)
      have a1: "validateSecretAndAddVRGOwnerRef v2 ?k = ((True, None), v2)"
        using s1 e True
        by (intro validateSecret_again [where v = v]) (simp_all add: sameEnv_def f2)
      have a2: "DeleteRD v2 ?n = (None, v2)"
        using s2 d by (intro DeleteRD_again [where v = v1]) simp_all
      show ?thesis
        using False err by (simp add: ReconcileRS_def Let_def p r k2 a1 a2 s3)
    next
      case ok: True
      obtain c v3 where s4: "createOrUpdateRS v2 rsSpec ?k fin = (c, v3)" by fastforce
      obtain rs where c: "c = Inr rs"
        using run p s1 e True s2 d s3 err ok s4
        by (cases c) (auto simp: ReconcileRS_def Let_def)
      obtain L D where f3: "v3 = v2\<lparr>volumeSnapshotClassList := L,
                            client := (client v2)\<lparr>replicationSources := D\<rparr>\<rparr>"
        using createOrUpdateRS_frame [of v2 rsSpec ?k fin] s4 by simp
      have k3: "GetVolSyncSSHSecretNameFromVRGName v3 (Name (owner v3)) = ?k"
        by (simp add: f1 f2 f3)
      have b1: "validateSecretAndAddVRGOwnerRef v3 ?k = ((True, None), v3)"
        using s1 e True
        by (intro validateSecret_again [where v = v]) (simp_all add: sameEnv_def f2 f3)
      have b2: "DeleteRD v3 ?n = (None, v3)"
        using s2 d
        by (intro DeleteRD_again [where v = v1]) (simp_all add: sameEnv_def f3)
      have b3: "validatePVCBeforeFinalSync v3 rsSpec fin = (True, None)"
        using s3 err ok validatePVCBeforeFinalSync_cong [of v2 v3 rsSpec fin]
        by (simp add: sameEnv_def f3)
      have b4: "createOrUpdateRS v3 rsSpec ?k fin = (Inr rs, v3)"
        using createOrUpdateRS_idem [OF s4 [unfolded c]] .
      show ?thesis
      proof (cases "isRSLastSyncTimeReady (RSStatus rs) \<and> fin \<and> isFinalSyncComplete rs")
        case False
        have r: "v' = v3" "done = False"
          "rso = (if \<not> isRSLastSyncTimeReady (RSStatus rs) then None else Some rs)"
          using run p s1 e True s2 d s3 err ok s4 c False
          by (auto simp: ReconcileRS_def Let_def split: if_splits)
        show ?thesis
          using False by (auto simp: ReconcileRS_def Let_def p r k3 b1 b2 b3 b4)
      next
        case fc: True
        obtain x v4 where s5: "deletePVC v3 ?n = (x, v4)" by fastforce
        have r: "v' = v4" "done = True" "rso = Some rs" "x = None"
          using run p s1 e True s2 d s3 err ok s4 c fc s5
          by (auto simp: ReconcileRS_def Let_def cleanupAfterRSFinalSync_def)
        have nf: "(VDelete, KPersistentVolumeClaim, ?n) \<notin> faults (client v3)"
          using s5 r(4) by (auto simp: deletePVC_eq split: if_splits)
        have f4: "v4 = v3\<lparr>client := (client v3)\<lparr>persistentVolumeClaims :=
              filter (\<lambda>x. \<not> hasKey (Namespace (owner v3)) ?n x)
                (persistentVolumeClaims (client v3))\<rparr>\<rparr>"
          using s5 nf by (simp add: deletePVC_eq)
        have k4: "GetVolSyncSSHSecretNameFromVRGName v4 (Name (owner v4)) = ?k"
          by (simp add: f1 f2 f3 f4)
        have c1: "validateSecretAndAddVRGOwnerRef v4 ?k = ((True, None), v4)"
          using s1 e True
          by (intro validateSecret_again [where v = v]) (simp_all add: sameEnv_def f2 f3 f4)
        have c2: "DeleteRD v4 ?n = (None, v4)"
          using s2 d
          by (intro DeleteRD_again [where v = v1]) (simp_all add: sameEnv_def f3 f4)
        have ng: "(VGet, KPersistentVolumeClaim, ?n) \<notin> faults (client v2)"
          using s3 err ok fc
          by (auto simp: validatePVCBeforeFinalSync_def pvcExistsAndInUse_eq split: if_splits)
        have c3: "validatePVCBeforeFinalSync v4 rsSpec fin = (True, None)"
          using ng fc
          by (simp add: validatePVCBeforeFinalSync_def pvcExistsAndInUse_eq f4 f3 lookup_delete)
        have c4: "createOrUpdateRS v4 rsSpec ?k fin = (Inr rs, v4)"
          using s4 c
          by (intro createOrUpdateRS_again [where v = v2]) (simp_all add: sameEnv_def f4)
        have c5: "deletePVC v4 ?n = (None, v4)"
          using nf by (simp add: deletePVC_eq f4)
        show ?thesis
          using fc c3 c4 c5
          by (simp add: ReconcileRS_def Let_def p r k4 c1 c2 cleanupAfterRSFinalSync_def)
      qed
    qed
  qed
qed


subsection \<open>Evaluating the handler on the example states\<close>

lemmas eval_defs = example_defs
  Secrets_def ReplicationSources_def ReplicationDestinations_def PersistentVolumeClaims_def
  Pods_def StorageClasses_def VolumeSnapshotClasses_def VolumeSnapshots_def ServiceExports_def
  hasKey_def lookup_def client_Get_def client_List_def client_Create_def client_Update_def
  client_Delete_def referSameObject_def upsertOwnerRef_def validateOwner_def
  SetOwnerReference_def GetControllerOf_def SetControllerReference_def
  ReplicationDestinationGVK_def getReplicationDestinationName_def getReplicationSourceName_def
  getLocalServiceNameForRD_def getRemoteServiceNameForRDFromPVCName_def
  isRSLastSyncTimeReady_def rdStatusReady_def isFinalSyncComplete_def addVRGOwnerLabel_def
  addOwnerReference_def addOwnerReferenceAndUpdate_def
  validateSecretAndAddVRGOwnerRef_def isDefaultVolumeSnapshotClass_def
  LabelSelectorAsSelector_def GetVolumeSnapshotClasses_def
  GetVolumeSnapshotClassFromPVCStorageClass_def getScheduleCronSpec_def getRsyncServiceType_def
  Storage_def ResourceStorage_def ReadWriteOnce_def VRGOwnerLabel_def FinalSyncTriggerString_def
  createOrUpdateRD_mutate_def createOrUpdateRD_def reconcileServiceExportForRD_def
  createOrUpdateRS_mutate_def createOrUpdateRS_def validatePVCBeforeFinalSync_def
  cleanupAfterRSFinalSync_def pvcExistsAndInUse_eq deletePVC_eq
  CreateOrUpdate_eq DeleteRS_eq DeleteRD_eq ownedBy_def Let_def

section \<open>Data-protection predicates\<close>

lemma IsRDDataProtected_eq:
  "IsRDDataProtected v pvcName =
     (if (VGet, KReplicationDestination, pvcName) \<in> faults (client v) then Inl ApiFailure
      else Inr (\<exists>rd st img.
                  lookup (replicationDestinations (client v)) (Namespace (owner v)) pvcName = Some rd
                  \<and> RDStatus rd = Some st \<and> LatestImage st = Some img
                  \<and> RefName img \<noteq> [] \<and> Kind img = ''VolumeSnapshot''), v)"
  by (auto simp: IsRDDataProtected_def getRDLatestImage_def client_Get_def
        ReplicationDestinations_def getReplicationDestinationName_def isLatestImageReady_def
        VolumeSnapshotKind_def split: option.splits)

lemma IsRSDataProtected_eq:
  "IsRSDataProtected v pvcName =
     (if (VGet, KReplicationSource, pvcName) \<in> faults (client v) then Inl ApiFailure
      else Inr (\<exists>rs st t.
                  lookup (replicationSources (client v)) (Namespace (owner v)) pvcName = Some rs
                  \<and> RSStatus rs = Some st \<and> LastSyncTime st = Some t \<and> t \<noteq> 0), v)"
  by (auto simp: IsRSDataProtected_def client_Get_def
        ReplicationSources_def getReplicationSourceName_def isRSLastSyncTimeReady_def
        split: option.splits)

text \<open>
  Claim C7. Both data-protection predicates leave the handler and the cluster as they
  were. When the read of the destination succeeds, \<open>IsRDDataProtected\<close> is true exactly
  when the destination exists and its status holds a latest image with a non-empty name
  and kind \<open>VolumeSnapshot\<close>; when the read of the source succeeds,
  \<open>IsRSDataProtected\<close> is true exactly when the source exists and its status holds a
  last sync time that is set and not zero.
\<close>

theorem C7_data_protection_predicates:
  "snd (IsRDDataProtected v pvcName) = v \<and>
   snd (IsRSDataProtected v pvcName) = v \<and>
   ((VGet, KReplicationDestination, pvcName) \<notin> faults (client v) \<longrightarrow>
      fst (IsRDDataProtected v pvcName) =
        Inr (\<exists>rd st img.
               lookup (replicationDestinations (client v)) (Namespace (owner v)) pvcName = Some rd
               \<and> RDStatus rd = Some st \<and> LatestImage st = Some img
               \<and> RefName img \<noteq> [] \<and> Kind img = ''VolumeSnapshot'')) \<and>
   ((VGet, KReplicationSource, pvcName) \<notin> faults (client v) \<longrightarrow>
      fst (IsRSDataProtected v pvcName) =
        Inr (\<exists>rs st t.
               lookup (replicationSources (client v)) (Namespace (owner v)) pvcName = Some rs
               \<and> RSStatus rs = Some st \<and> LastSyncTime st = Some t \<and> t \<noteq> 0))"
  by (simp add: IsRDDataProtected_eq IsRSDataProtected_eq)

theorem C7_data_protection_predicates_witness:
  "fst (IsRDDataProtected (exampleHandler (emptyCluster\<lparr>replicationDestinations :=
          [exampleRD None]\<rparr>)) ''pvc1'') = Inr False \<and>
   fst (IsRDDataProtected (exampleHandler (emptyCluster\<lparr>replicationDestinations :=
          [exampleRD (Some \<lparr>RDStatusRsync = None,
             LatestImage = Some (exampleSnapshotRef ''snap1'')\<rparr>)]\<rparr>)) ''pvc1'') = Inr True \<and>
   fst (IsRDDataProtected (exampleHandler (emptyCluster\<lparr>replicationDestinations :=
          [exampleRD (Some \<lparr>RDStatusRsync = None,
             LatestImage = Some ((exampleSnapshotRef ''snap1'')\<lparr>Kind := ''PersistentVolumeClaim''\<rparr>)\<rparr>)]\<rparr>))
          ''pvc1'') = Inr False \<and>
   fst (IsRSDataProtected (exampleHandler (emptyCluster\<lparr>replicationSources :=
          [exampleRS (Some \<lparr>LastSyncTime = Some 5, LastManualSync = []\<rparr>)]\<rparr>)) ''pvc1'') = Inr True \<and>
   fst (IsRSDataProtected (exampleHandler (emptyCluster\<lparr>replicationSources :=
          [exampleRS (Some \<lparr>LastSyncTime = Some 0, LastManualSync = []\<rparr>)]\<rparr>)) ''pvc1'') = Inr False"
proof -
  note c = C7_data_protection_predicates
  have 1: "fst (IsRDDataProtected (exampleHandler (emptyCluster\<lparr>replicationDestinations :=
          [exampleRD None]\<rparr>)) ''pvc1'') = Inr False"
    using c [of "exampleHandler (emptyCluster\<lparr>replicationDestinations := [exampleRD None]\<rparr>)" "''pvc1''"]
    by (simp add: example_defs lookup_Cons hasKey_def)
  have 2: "fst (IsRDDataProtected (exampleHandler (emptyCluster\<lparr>replicationDestinations :=
          [exampleRD (Some \<lparr>RDStatusRsync = None,
             LatestImage = Some (exampleSnapshotRef ''snap1'')\<rparr>)]\<rparr>)) ''pvc1'') = Inr True"
    using c [of "exampleHandler (emptyCluster\<lparr>replicationDestinations :=
          [exampleRD (Some \<lparr>RDStatusRsync = None,
             LatestImage = Some (exampleSnapshotRef ''snap1'')\<rparr>)]\<rparr>)" "''pvc1''"]
    by (simp add: example_defs lookup_Cons hasKey_def)
  have 3: "fst (IsRDDataProtected (exampleHandler (emptyCluster\<lparr>replicationDestinations :=
          [exampleRD (Some \<lparr>RDStatusRsync = None,
             LatestImage = Some ((exampleSnapshotRef ''snap1'')\<lparr>Kind := ''PersistentVolumeClaim''\<rparr>)\<rparr>)]\<rparr>))
          ''pvc1'') = Inr False"
    using c [of "exampleHandler (emptyCluster\<lparr>replicationDestinations :=
          [exampleRD (Some \<lparr>RDStatusRsync = None,
             LatestImage = Some ((exampleSnapshotRef ''snap1'')\<lparr>Kind := ''PersistentVolumeClaim''\<rparr>)\<rparr>)]\<rparr>)" "''pvc1''"]
    by (simp add: example_defs lookup_Cons hasKey_def)
  have 4: "fst (IsRSDataProtected (exampleHandler (emptyCluster\<lparr>replicationSources :=
          [exampleRS (Some \<lparr>LastSyncTime = Some 5, LastManualSync = []\<rparr>)]\<rparr>)) ''pvc1'') = Inr True"
    using c [of "exampleHandler (emptyCluster\<lparr>replicationSources :=
          [exampleRS (Some \<lparr>LastSyncTime = Some 5, LastManualSync = []\<rparr>)]\<rparr>)" "''pvc1''"]
    by (simp add: example_defs lookup_Cons hasKey_def)
  have 5: "fst (IsRSDataProtected (exampleHandler (emptyCluster\<lparr>replicationSources :=
          [exampleRS (Some \<lparr>LastSyncTime = Some 0, LastManualSync = []\<rparr>)]\<rparr>)) ''pvc1'') = Inr False"
    using c [of "exampleHandler (emptyCluster\<lparr>replicationSources :=
          [exampleRS (Some \<lparr>LastSyncTime = Some 0, LastManualSync = []\<rparr>)]\<rparr>)" "''pvc1''"]
    by (simp add: example_defs lookup_Cons hasKey_def)
  show ?thesis using 1 2 3 4 5 by simp
qed


section \<open>Missing secret\<close>

lemma validateSecret_missing:
  assumes "lookup (secrets (client v)) (Namespace (owner v)) n = None"
    and "(VGet, KSecret, n) \<notin> faults (client v)"
  shows "validateSecretAndAddVRGOwnerRef v n = ((False, None), v)"
  using assms by (simp add: validateSecretAndAddVRGOwnerRef_def client_Get_def Secrets_def)

text \<open>
  Claim C5. Both calls first check that the volume is VolSync-enabled and return an
  error when it is not, whether or not the secret exists. When the SSH secret named
  after the owner is not on the cluster (and the read itself does not fail), then for a
  volume that is VolSync-enabled \<open>ReconcileRD\<close> returns nil and no error and
  \<open>ReconcileRS\<close> returns false, nil and no error, and for a volume that is not, both
  return the not-enabled error; in every case the handler and the cluster are left
  unchanged: no destination or source is created or updated.
\<close>

theorem C5_missing_secret_not_ready:
  assumes "lookup (secrets (client v)) (Namespace (owner v))
             (GetVolSyncSSHSecretNameFromVRGName v (Name (owner v))) = None"
    and "(VGet, KSecret, GetVolSyncSSHSecretNameFromVRGName v (Name (owner v)))
           \<notin> faults (client v)"
  shows "ReconcileRD v rdSpec
           = (if ProtectedByVolSync (RDProtectedPVC rdSpec) then Inr None
              else Inl (NotVolSyncEnabled (PVCName (RDProtectedPVC rdSpec))), v)
       \<and> ReconcileRS v rsSpec runFinalSync
           = ((False, None,
               if ProtectedByVolSync (RSProtectedPVC rsSpec) then None
               else Some (NotVolSyncEnabled (PVCName (RSProtectedPVC rsSpec)))), v)"
  using validateSecret_missing [OF assms(1,2)]
  by (simp add: ReconcileRD_def ReconcileRS_def)

theorem C5_missing_secret_not_ready_witness:
  "ReconcileRD (exampleHandler emptyCluster) \<lparr>RDProtectedPVC = exampleProtectedPVC\<rparr>
     = (Inr None, exampleHandler emptyCluster)
   \<and> ReconcileRS (exampleHandler emptyCluster) \<lparr>RSProtectedPVC = exampleProtectedPVC\<rparr> True
     = ((False, None, None), exampleHandler emptyCluster)"
  using C5_missing_secret_not_ready [of "exampleHandler emptyCluster"
      "\<lparr>RDProtectedPVC = exampleProtectedPVC\<rparr>" "\<lparr>RSProtectedPVC = exampleProtectedPVC\<rparr>" True]
  by (simp add: example_defs)

text \<open>
  Without the VolSync flag the missing secret is never looked at: on the empty cluster,
  where the owner's secret does not exist, a descriptor whose volume is not
  VolSync-enabled makes \<open>ReconcileRD\<close> and \<open>ReconcileRS\<close> return the not-enabled error.
\<close>

theorem C5_not_volsync_enabled_counterexample:
  "lookup (secrets (client (exampleHandler emptyCluster)))
     (Namespace (owner (exampleHandler emptyCluster)))
     (GetVolSyncSSHSecretNameFromVRGName (exampleHandler emptyCluster)
        (Name (owner (exampleHandler emptyCluster)))) = None
   \<and> ReconcileRD (exampleHandler emptyCluster)
       \<lparr>RDProtectedPVC = exampleProtectedPVC\<lparr>ProtectedByVolSync := False\<rparr>\<rparr>
     = (Inl (NotVolSyncEnabled ''pvc1''), exampleHandler emptyCluster)
   \<and> ReconcileRS (exampleHandler emptyCluster)
       \<lparr>RSProtectedPVC = exampleProtectedPVC\<lparr>ProtectedByVolSync := False\<rparr>\<rparr> True
     = ((False, None, Some (NotVolSyncEnabled ''pvc1'')), exampleHandler emptyCluster)"
  by (simp add: ReconcileRD_def ReconcileRS_def example_defs)


section \<open>Preparing a claim for the final sync\<close>

lemma validatePVC_missing:
  assumes "lookup (persistentVolumeClaims (client v)) (Namespace (owner v)) pvcName = None"
  shows "\<exists>e. validatePVCAndAddVRGOwnerRef v pvcName = (Inl e, v)"
  using assms
  by (simp add: validatePVCAndAddVRGOwnerRef_def getPVC_def client_Get_def PersistentVolumeClaims_def)

lemma validatePVC_found:
  assumes "lookup (persistentVolumeClaims (client v)) (Namespace (owner v)) pvcName = Some pvc"
    and "(VGet, KPersistentVolumeClaim, pvcName) \<notin> faults (client v)"
    and "(VUpdate, KPersistentVolumeClaim, pvcName) \<notin> faults (client v)"
  shows "\<exists>pvc' v'. validatePVCAndAddVRGOwnerRef v pvcName = (Inr pvc', v')
           \<and> Annotations pvc' = Annotations pvc \<and> Name pvc' = pvcName
           \<and> Namespace pvc' = Namespace (owner v)
           \<and> owner v' = owner v
           \<and> faults (client v') = faults (client v)
           \<and> lookup (persistentVolumeClaims (client v')) (Namespace (owner v)) pvcName \<noteq> None"
proof -
  have k: "Namespace pvc = Namespace (owner v)" "Name pvc = pvcName"
    using lookup_Some_hasKey [OF assms(1)] by simp_all
  show ?thesis
    using assms k
    by (auto simp: validatePVCAndAddVRGOwnerRef_def getPVC_def client_Get_def
        PersistentVolumeClaims_def addLabelAndVRGOwnerRefAndUpdate_def addLabel_def Let_def
        addOwnerReference_def SetOwnerReference_def validateOwner_same_ns client_Update_def
        lookup_replace
        split: option.splits prod.splits sum.splits if_splits)
qed

lemma Prepare_missing:
  assumes "lookup (persistentVolumeClaims (client v)) (Namespace (owner v)) pvcName = None"
  shows "\<exists>e. PreparePVCForFinalSync v pvcName = ((False, Some e), v)"
  using validatePVC_missing [OF assms] by (auto simp: PreparePVCForFinalSync_def)

lemma Prepare_found:
  assumes "lookup (persistentVolumeClaims (client v)) (Namespace (owner v)) pvcName = Some pvc"
    and "(VGet, KPersistentVolumeClaim, pvcName) \<notin> faults (client v)"
    and "(VUpdate, KPersistentVolumeClaim, pvcName) \<notin> faults (client v)"
  shows "if (\<exists>opt. Annotations pvc ''apps.open-cluster-management.io/reconcile-option'' = Some opt
               \<and> opt \<noteq> ''merge'')
         then fst (PreparePVCForFinalSync v pvcName) = (False, None)
         else fst (PreparePVCForFinalSync v pvcName) = (True, None)
              \<and> (\<exists>pvc'. lookup (persistentVolumeClaims (client (snd (PreparePVCForFinalSync v pvcName))))
                           (Namespace (owner v)) pvcName = Some pvc'
                     \<and> (\<forall>k. Annotations pvc' k =
                            (if prefix ''apps.open-cluster-management.io'' k then None
                             else Annotations pvc k)))"
proof -
  obtain pvc1 v1 where r: "validatePVCAndAddVRGOwnerRef v pvcName = (Inr pvc1, v1)"
    and a: "Annotations pvc1 = Annotations pvc" and n: "Name pvc1 = pvcName"
    and ns: "Namespace pvc1 = Namespace (owner v)"
    and f: "faults (client v1) = faults (client v)"
    and l: "lookup (persistentVolumeClaims (client v1)) (Namespace (owner v)) pvcName \<noteq> None"
    using validatePVC_found [OF assms] by blast
  show ?thesis
    using r a n ns f l assms(3)
    by (auto simp: PreparePVCForFinalSync_def Let_def client_Update_def PersistentVolumeClaims_def
          lookup_replace split: option.splits)
qed

text \<open>
  Claim C8. \<open>PreparePVCForFinalSync\<close> fails with an error when the claim does not exist.
  When the claim exists (and the client's read and update of it do not fail): if the
  claim carries the reconcile-option annotation with a value other than \<open>merge\<close>, the
  call returns false and no error; otherwise it returns true and no error, and the
  stored claim then has no annotation whose key starts with
  \<open>apps.open-cluster-management.io\<close> and every other annotation as before.
\<close>

theorem C8_prepare_pvc_for_final_sync:
  "(lookup (persistentVolumeClaims (client v)) (Namespace (owner v)) pvcName = None \<longrightarrow>
      (\<exists>e. PreparePVCForFinalSync v pvcName = ((False, Some e), v))) \<and>
   (\<forall>pvc. lookup (persistentVolumeClaims (client v)) (Namespace (owner v)) pvcName = Some pvc
         \<and> (VGet, KPersistentVolumeClaim, pvcName) \<notin> faults (client v)
         \<and> (VUpdate, KPersistentVolumeClaim, pvcName) \<notin> faults (client v) \<longrightarrow>
      (if (\<exists>opt. Annotations pvc ''apps.open-cluster-management.io/reconcile-option'' = Some opt
               \<and> opt \<noteq> ''merge'')
       then fst (PreparePVCForFinalSync v pvcName) = (False, None)
       else fst (PreparePVCForFinalSync v pvcName) = (True, None)
            \<and> (\<exists>pvc'. lookup (persistentVolumeClaims
                                  (client (snd (PreparePVCForFinalSync v pvcName))))
                         (Namespace (owner v)) pvcName = Some pvc'
                   \<and> (\<forall>k. Annotations pvc' k =
                          (if prefix ''apps.open-cluster-management.io'' k then None
                           else Annotations pvc k)))))"
  using Prepare_missing [of v pvcName] Prepare_found [of v pvcName] by blast

theorem C8_prepare_pvc_for_final_sync_witness:
  "(\<exists>e. PreparePVCForFinalSync (exampleHandler emptyCluster) ''pvc1''
          = ((False, Some e), exampleHandler emptyCluster)) \<and>
   fst (PreparePVCForFinalSync
          (exampleHandler (emptyCluster\<lparr>persistentVolumeClaims :=
             [examplePVC [''apps.open-cluster-management.io/reconcile-option'' \<mapsto> ''mergeAndOwn'']
                None 10 []]\<rparr>)) ''pvc1'') = (False, None) \<and>
   fst (PreparePVCForFinalSync
          (exampleHandler (emptyCluster\<lparr>persistentVolumeClaims :=
             [examplePVC [''apps.open-cluster-management.io/reconcile-option'' \<mapsto> ''merge'',
                          ''volume.kubernetes.io/selected-node'' \<mapsto> ''node1'']
                None 10 []]\<rparr>)) ''pvc1'') = (True, None) \<and>
   (\<exists>pvc'. lookup (persistentVolumeClaims (client (snd (PreparePVCForFinalSync
          (exampleHandler (emptyCluster\<lparr>persistentVolumeClaims :=
             [examplePVC [''apps.open-cluster-management.io/reconcile-option'' \<mapsto> ''merge'',
                          ''volume.kubernetes.io/selected-node'' \<mapsto> ''node1'']
                None 10 []]\<rparr>)) ''pvc1'')))) ''ns1'' ''pvc1'' = Some pvc'
      \<and> Annotations pvc' ''apps.open-cluster-management.io/reconcile-option'' = None
      \<and> Annotations pvc' ''volume.kubernetes.io/selected-node'' = Some ''node1'')"
proof -
  note c = C8_prepare_pvc_for_final_sync
  let ?v1 = "exampleHandler (emptyCluster\<lparr>persistentVolumeClaims :=
             [examplePVC [''apps.open-cluster-management.io/reconcile-option'' \<mapsto> ''mergeAndOwn'']
                None 10 []]\<rparr>)"
  let ?p2 = "examplePVC [''apps.open-cluster-management.io/reconcile-option'' \<mapsto> ''merge'',
                          ''volume.kubernetes.io/selected-node'' \<mapsto> ''node1''] None 10 []"
  let ?v2 = "exampleHandler (emptyCluster\<lparr>persistentVolumeClaims := [?p2]\<rparr>)"
  have a: "\<exists>e. PreparePVCForFinalSync (exampleHandler emptyCluster) ''pvc1''
          = ((False, Some e), exampleHandler emptyCluster)"
    using c [of "exampleHandler emptyCluster" "''pvc1''"] by (simp add: example_defs)
  have b: "fst (PreparePVCForFinalSync ?v1 ''pvc1'') = (False, None)"
    using c [of ?v1 "''pvc1''"] by (simp add: example_defs lookup_Cons hasKey_def)
  have l2: "lookup (persistentVolumeClaims (client ?v2)) (Namespace (owner ?v2)) ''pvc1'' = Some ?p2
         \<and> (VGet, KPersistentVolumeClaim, ''pvc1'') \<notin> faults (client ?v2)
         \<and> (VUpdate, KPersistentVolumeClaim, ''pvc1'') \<notin> faults (client ?v2)"
    by (simp add: example_defs lookup_Cons hasKey_def)
  have n2: "\<not> (\<exists>opt. Annotations ?p2 ''apps.open-cluster-management.io/reconcile-option'' = Some opt
               \<and> opt \<noteq> ''merge'')"
    by (simp add: example_defs)
  have o2: "Namespace (owner ?v2) = ''ns1''" by (simp add: example_defs)
  from c [of ?v2 "''pvc1''"] l2 n2
  have d: "fst (PreparePVCForFinalSync ?v2 ''pvc1'') = (True, None)
            \<and> (\<exists>pvc'. lookup (persistentVolumeClaims
                                  (client (snd (PreparePVCForFinalSync ?v2 ''pvc1''))))
                         (Namespace (owner ?v2)) ''pvc1'' = Some pvc'
                   \<and> (\<forall>k. Annotations pvc' k =
                          (if prefix ''apps.open-cluster-management.io'' k then None
                           else Annotations ?p2 k)))"
    by meson
  then obtain pvc' where p: "lookup (persistentVolumeClaims
                                  (client (snd (PreparePVCForFinalSync ?v2 ''pvc1''))))
                         ''ns1'' ''pvc1'' = Some pvc'"
    and k: "\<forall>k. Annotations pvc' k =
                          (if prefix ''apps.open-cluster-management.io'' k then None
                           else Annotations ?p2 k)"
    unfolding o2 by blast
  have "Annotations pvc' ''apps.open-cluster-management.io/reconcile-option'' = None"
    using k by simp
  moreover have "Annotations pvc' ''volume.kubernetes.io/selected-node'' = Some ''node1''"
    using k by (simp add: example_defs)
  ultimately show ?thesis using a b d p by blast
qed


section \<open>Materializing a claim\<close>

lemma ensurePVC_mutate_key:
  "ensurePVCFromSnapshot_mutate rdSpec ref pvc flag = (Inr pvc', flag')
   \<Longrightarrow> Namespace pvc' = Namespace pvc \<and> Name pvc' = Name pvc"
  by (auto simp: ensurePVCFromSnapshot_mutate_def Let_def split: if_splits)

lemma ensurePVC_mismatch:
  assumes ex: "lookup (persistentVolumeClaims (client v)) (Namespace (owner v))
             (PVCName (RDProtectedPVC rdSpec)) = Some pvc"
    and ts: "CreationTimestamp pvc \<noteq> 0"
    and mm: "\<not> objectRefMatches (SpecDataSource pvc) (Some snapshotRef)"
    and g: "(VGet, KPersistentVolumeClaim, PVCName (RDProtectedPVC rdSpec)) \<notin> faults (client v)"
    and d: "(VDelete, KPersistentVolumeClaim, PVCName (RDProtectedPVC rdSpec)) \<notin> faults (client v)"
  shows "ensurePVCFromSnapshot v rdSpec snapshotRef =
           (Inl (PVCNeedsRecreation (PVCName (RDProtectedPVC rdSpec))),
            v\<lparr>client := (client v)\<lparr>persistentVolumeClaims :=
                 filter (\<lambda>x. \<not> hasKey (Namespace (owner v)) (PVCName (RDProtectedPVC rdSpec)) x)
                   (persistentVolumeClaims (client v))\<rparr>\<rparr>)"
proof -
  let ?obj = "\<lparr>Name = PVCName (RDProtectedPVC rdSpec), Namespace = Namespace (owner v),
                  Labels = Map.empty, Annotations = Map.empty, OwnerReferences = [],
                  CreationTimestamp = 0, SpecAccessModes = [], SpecStorageClassName = None,
                  SpecDataSource = None,
                  SpecResources = \<lparr>Limits = Map.empty, Requests = Map.empty\<rparr>,
                  StatusPhase = []\<rparr>"
  have k: "Namespace pvc = Namespace (owner v)" "Name pvc = PVCName (RDProtectedPVC rdSpec)"
    using lookup_Some_hasKey [OF ex] by simp_all
  have m: "ensurePVCFromSnapshot_mutate rdSpec snapshotRef pvc False = (Inr pvc, True)"
    using ts mm by (simp add: ensurePVCFromSnapshot_mutate_def)
  have "CreateOrUpdateEnv PersistentVolumeClaims (client v) ?obj
          (ensurePVCFromSnapshot_mutate rdSpec snapshotRef) False
        = (Inr (OperationResultNone, pvc), client v, True)"
    using CreateOrUpdateEnv_present [of PersistentVolumeClaims "client v" ?obj pvc
        "ensurePVCFromSnapshot_mutate rdSpec snapshotRef" False pvc True] ex g m
    by (simp add: PersistentVolumeClaims_def)
  then show ?thesis
    using ex d k
    by (simp add: ensurePVCFromSnapshot_def client_Delete_def PersistentVolumeClaims_def)
qed

lemma ensurePVC_absent:
  assumes ex: "lookup (persistentVolumeClaims (client v)) (Namespace (owner v))
             (PVCName (RDProtectedPVC rdSpec)) = None"
    and g: "(VGet, KPersistentVolumeClaim, PVCName (RDProtectedPVC rdSpec)) \<notin> faults (client v)"
    and cr: "(VCreate, KPersistentVolumeClaim, PVCName (RDProtectedPVC rdSpec)) \<notin> faults (client v)"
  shows "\<exists>pvc' v'. ensurePVCFromSnapshot v rdSpec snapshotRef = (Inr pvc', v')
           \<and> SpecDataSource pvc' = Some snapshotRef
           \<and> SpecResources pvc' = Resources (RDProtectedPVC rdSpec)
           \<and> SpecStorageClassName pvc' = StorageClassName (RDProtectedPVC rdSpec)
           \<and> lookup (persistentVolumeClaims (client v')) (Namespace (owner v))
                (PVCName (RDProtectedPVC rdSpec)) = Some pvc'"
proof -
  let ?obj = "\<lparr>Name = PVCName (RDProtectedPVC rdSpec), Namespace = Namespace (owner v),
                  Labels = Map.empty, Annotations = Map.empty, OwnerReferences = [],
                  CreationTimestamp = 0, SpecAccessModes = [], SpecStorageClassName = None,
                  SpecDataSource = None,
                  SpecResources = \<lparr>Limits = Map.empty, Requests = Map.empty\<rparr>,
                  StatusPhase = []\<rparr>"
  obtain obj' where m: "ensurePVCFromSnapshot_mutate rdSpec snapshotRef ?obj False = (Inr obj', False)"
    and ds: "SpecDataSource obj' = Some snapshotRef"
    and rs: "SpecResources obj' = Resources (RDProtectedPVC rdSpec)"
    and sc: "SpecStorageClassName obj' = StorageClassName (RDProtectedPVC rdSpec)"
    by (simp add: ensurePVCFromSnapshot_mutate_def Let_def ClaimBound_def)
  have k: "Namespace obj' = Namespace ?obj" "Name obj' = Name ?obj"
    using ensurePVC_mutate_key [OF m] by simp_all
  have "CreateOrUpdateEnv PersistentVolumeClaims (client v) ?obj
          (ensurePVCFromSnapshot_mutate rdSpec snapshotRef) False
        = (Inr (OperationResultCreated, obj'\<lparr>CreationTimestamp := Suc (now (client v))\<rparr>),
           res_upd PersistentVolumeClaims
             (res_sel PersistentVolumeClaims (client v)
                @ [obj'\<lparr>CreationTimestamp := Suc (now (client v))\<rparr>]) (client v), False)"
    using CreateOrUpdateEnv_absent [of PersistentVolumeClaims "client v" ?obj
        "ensurePVCFromSnapshot_mutate rdSpec snapshotRef" False obj' False, OF _ _ m k] ex g cr
    by (simp add: PersistentVolumeClaims_def)
  then show ?thesis
    using ex ds rs sc k
    by (simp add: ensurePVCFromSnapshot_def PersistentVolumeClaims_def lookup_append
        lookup_Cons hasKey_def)
qed


text \<open>
  Claim C3. When a claim of the target name exists (stored, so with a creation time)
  and its data source does not match the desired snapshot by kind and name, and the
  client's read and delete do not fail, \<open>ensurePVCFromSnapshot\<close> returns the
  recreation-required error and leaves the cluster as it was but for the claim, which
  is deleted: nothing is updated in place. A following call (whose create does not
  fail) succeeds and stores a claim whose data source is the desired snapshot.
\<close>

theorem C3_immutable_data_source_replace:
  assumes "lookup (persistentVolumeClaims (client v)) (Namespace (owner v))
             (PVCName (RDProtectedPVC rdSpec)) = Some pvc"
    and "CreationTimestamp pvc \<noteq> 0"
    and "\<not> objectRefMatches (SpecDataSource pvc) (Some snapshotRef)"
    and "(VGet, KPersistentVolumeClaim, PVCName (RDProtectedPVC rdSpec)) \<notin> faults (client v)"
    and "(VDelete, KPersistentVolumeClaim, PVCName (RDProtectedPVC rdSpec)) \<notin> faults (client v)"
    and "(VCreate, KPersistentVolumeClaim, PVCName (RDProtectedPVC rdSpec)) \<notin> faults (client v)"
  shows "\<exists>v1. ensurePVCFromSnapshot v rdSpec snapshotRef
                 = (Inl (PVCNeedsRecreation (PVCName (RDProtectedPVC rdSpec))), v1)
          \<and> v1 = v\<lparr>client := (client v)\<lparr>persistentVolumeClaims :=
                    filter (\<lambda>x. \<not> hasKey (Namespace (owner v))
                                     (PVCName (RDProtectedPVC rdSpec)) x)
                      (persistentVolumeClaims (client v))\<rparr>\<rparr>
          \<and> lookup (persistentVolumeClaims (client v1)) (Namespace (owner v))
                (PVCName (RDProtectedPVC rdSpec)) = None
          \<and> (\<exists>pvc2 v2. ensurePVCFromSnapshot v1 rdSpec snapshotRef = (Inr pvc2, v2)
                \<and> SpecDataSource pvc2 = Some snapshotRef
                \<and> lookup (persistentVolumeClaims (client v2)) (Namespace (owner v))
                     (PVCName (RDProtectedPVC rdSpec)) = Some pvc2)"
proof -
  let ?v1 = "v\<lparr>client := (client v)\<lparr>persistentVolumeClaims :=
                    filter (\<lambda>x. \<not> hasKey (Namespace (owner v))
                                     (PVCName (RDProtectedPVC rdSpec)) x)
                      (persistentVolumeClaims (client v))\<rparr>\<rparr>"
  have 1: "ensurePVCFromSnapshot v rdSpec snapshotRef
             = (Inl (PVCNeedsRecreation (PVCName (RDProtectedPVC rdSpec))), ?v1)"
    using assms(1-5) by (rule ensurePVC_mismatch)
  have 2: "lookup (persistentVolumeClaims (client ?v1)) (Namespace (owner ?v1))
             (PVCName (RDProtectedPVC rdSpec)) = None"
    by (simp add: lookup_delete)
  have 3: "\<exists>pvc2 v2. ensurePVCFromSnapshot ?v1 rdSpec snapshotRef = (Inr pvc2, v2)
                \<and> SpecDataSource pvc2 = Some snapshotRef
                \<and> lookup (persistentVolumeClaims (client v2)) (Namespace (owner v))
                     (PVCName (RDProtectedPVC rdSpec)) = Some pvc2"
    using ensurePVC_absent [OF 2, of snapshotRef] assms(4,6) by auto
  show ?thesis using 1 2 3 by simp
qed

theorem C3_immutable_data_source_replace_witness:
  "\<exists>v1. ensurePVCFromSnapshot
            (exampleHandler (emptyCluster\<lparr>persistentVolumeClaims :=
               [examplePVC Map.empty (Some (exampleSnapshotRef ''snapA'')) 10 ''Bound'']\<rparr>))
            \<lparr>RDProtectedPVC = exampleProtectedPVC\<rparr> (exampleSnapshotRef ''snapB'')
          = (Inl (PVCNeedsRecreation ''pvc1''), v1)
       \<and> persistentVolumeClaims (client v1) = []
       \<and> (\<exists>pvc2 v2. ensurePVCFromSnapshot v1 \<lparr>RDProtectedPVC = exampleProtectedPVC\<rparr>
                        (exampleSnapshotRef ''snapB'') = (Inr pvc2, v2)
             \<and> SpecDataSource pvc2 = Some (exampleSnapshotRef ''snapB'')
             \<and> lookup (persistentVolumeClaims (client v2)) ''ns1'' ''pvc1'' = Some pvc2)"
proof -
  let ?p = "examplePVC Map.empty (Some (exampleSnapshotRef ''snapA'')) 10 ''Bound''"
  let ?v = "exampleHandler (emptyCluster\<lparr>persistentVolumeClaims := [?p]\<rparr>)"
  let ?s = "\<lparr>RDProtectedPVC = exampleProtectedPVC\<rparr>"
  have "\<exists>v1. ensurePVCFromSnapshot ?v ?s (exampleSnapshotRef ''snapB'')
                 = (Inl (PVCNeedsRecreation (PVCName (RDProtectedPVC ?s))), v1)
          \<and> v1 = ?v\<lparr>client := (client ?v)\<lparr>persistentVolumeClaims :=
                    filter (\<lambda>x. \<not> hasKey (Namespace (owner ?v))
                                     (PVCName (RDProtectedPVC ?s)) x)
                      (persistentVolumeClaims (client ?v))\<rparr>\<rparr>
          \<and> lookup (persistentVolumeClaims (client v1)) (Namespace (owner ?v))
                (PVCName (RDProtectedPVC ?s)) = None
          \<and> (\<exists>pvc2 v2. ensurePVCFromSnapshot v1 ?s (exampleSnapshotRef ''snapB'') = (Inr pvc2, v2)
                \<and> SpecDataSource pvc2 = Some (exampleSnapshotRef ''snapB'')
                \<and> lookup (persistentVolumeClaims (client v2)) (Namespace (owner ?v))
                     (PVCName (RDProtectedPVC ?s)) = Some pvc2)"
    by (rule C3_immutable_data_source_replace [where pvc = ?p])
       (simp_all add: example_defs lookup_Cons hasKey_def objectRefMatches_def)
  then show ?thesis
    by (simp add: example_defs hasKey_def)
qed


section \<open>Resource requests of a materialized claim\<close>

lemma ensurePVC_unbound:
  assumes ex: "lookup (persistentVolumeClaims (client v)) (Namespace (owner v))
             (PVCName (RDProtectedPVC rdSpec)) = Some pvc"
    and ts: "CreationTimestamp pvc \<noteq> 0"
    and mm: "objectRefMatches (SpecDataSource pvc) (Some snapshotRef)"
    and ph: "StatusPhase pvc \<noteq> ClaimBound"
    and g: "(VGet, KPersistentVolumeClaim, PVCName (RDProtectedPVC rdSpec)) \<notin> faults (client v)"
    and u: "(VUpdate, KPersistentVolumeClaim, PVCName (RDProtectedPVC rdSpec)) \<notin> faults (client v)"
  shows "\<exists>pvc' v'. ensurePVCFromSnapshot v rdSpec snapshotRef = (Inr pvc', v')
           \<and> SpecResources pvc' = Resources (RDProtectedPVC rdSpec)
           \<and> SpecDataSource pvc' = SpecDataSource pvc
           \<and> lookup (persistentVolumeClaims (client v')) (Namespace (owner v))
                (PVCName (RDProtectedPVC rdSpec)) = Some pvc'"
proof -
  let ?obj = "\<lparr>Name = PVCName (RDProtectedPVC rdSpec), Namespace = Namespace (owner v),
                  Labels = Map.empty, Annotations = Map.empty, OwnerReferences = [],
                  CreationTimestamp = 0, SpecAccessModes = [], SpecStorageClassName = None,
                  SpecDataSource = None,
                  SpecResources = \<lparr>Limits = Map.empty, Requests = Map.empty\<rparr>,
                  StatusPhase = []\<rparr>"
  have k: "Namespace pvc = Namespace (owner v)" "Name pvc = PVCName (RDProtectedPVC rdSpec)"
    using lookup_Some_hasKey [OF ex] by simp_all
  obtain obj' where m: "ensurePVCFromSnapshot_mutate rdSpec snapshotRef pvc False = (Inr obj', False)"
    and rs: "SpecResources obj' = Resources (RDProtectedPVC rdSpec)"
    and ds: "SpecDataSource obj' = SpecDataSource pvc"
    using ts mm ph by (simp add: ensurePVCFromSnapshot_mutate_def Let_def)
  have k': "Namespace obj' = Namespace pvc" "Name obj' = Name pvc"
    using ensurePVC_mutate_key [OF m] by simp_all
  have c: "CreateOrUpdateEnv PersistentVolumeClaims (client v) ?obj
          (ensurePVCFromSnapshot_mutate rdSpec snapshotRef) False
        = (if pvc = obj' then (Inr (OperationResultNone, obj'), client v, False)
           else (Inr (OperationResultUpdated, obj'),
                 res_upd PersistentVolumeClaims
                   (map (\<lambda>x. if hasKey (Namespace (owner v)) (PVCName (RDProtectedPVC rdSpec)) x
                              then obj' else x)
                      (persistentVolumeClaims (client v))) (client v), False))"
    using CreateOrUpdateEnv_present [of PersistentVolumeClaims "client v" ?obj pvc
        "ensurePVCFromSnapshot_mutate rdSpec snapshotRef" False obj' False, OF _ _ m k'] ex g u
    by (simp add: PersistentVolumeClaims_def)
  show ?thesis
  proof (cases "pvc = obj'")
    case True
    then show ?thesis using c ex rs ds by (simp add: ensurePVCFromSnapshot_def)
  next
    case False
    then show ?thesis
      using c ex rs ds k k'
      by (simp add: ensurePVCFromSnapshot_def PersistentVolumeClaims_def lookup_replace)
  qed
qed

lemma ensurePVC_bound:
  assumes ex: "lookup (persistentVolumeClaims (client v)) (Namespace (owner v))
             (PVCName (RDProtectedPVC rdSpec)) = Some pvc"
    and mm: "objectRefMatches (SpecDataSource pvc) (Some snapshotRef)"
    and ph: "StatusPhase pvc = ClaimBound"
    and g: "(VGet, KPersistentVolumeClaim, PVCName (RDProtectedPVC rdSpec)) \<notin> faults (client v)"
  shows "ensurePVCFromSnapshot v rdSpec snapshotRef = (Inr pvc, v)"
proof -
  let ?obj = "\<lparr>Name = PVCName (RDProtectedPVC rdSpec), Namespace = Namespace (owner v),
                  Labels = Map.empty, Annotations = Map.empty, OwnerReferences = [],
                  CreationTimestamp = 0, SpecAccessModes = [], SpecStorageClassName = None,
                  SpecDataSource = None,
                  SpecResources = \<lparr>Limits = Map.empty, Requests = Map.empty\<rparr>,
                  StatusPhase = []\<rparr>"
  have m: "ensurePVCFromSnapshot_mutate rdSpec snapshotRef pvc False = (Inr pvc, False)"
    using mm ph by (simp add: ensurePVCFromSnapshot_mutate_def)
  have "CreateOrUpdateEnv PersistentVolumeClaims (client v) ?obj
          (ensurePVCFromSnapshot_mutate rdSpec snapshotRef) False
        = (Inr (OperationResultNone, pvc), client v, False)"
    using CreateOrUpdateEnv_present [of PersistentVolumeClaims "client v" ?obj pvc
        "ensurePVCFromSnapshot_mutate rdSpec snapshotRef" False pvc False] ex g m
    by (simp add: PersistentVolumeClaims_def)
  then show ?thesis by (simp add: ensurePVCFromSnapshot_def)
qed

text \<open>
  Claim C6, as the code has it. The resource requests of the descriptor are written to
  the claim when the call creates it, and when the call finds it with the desired data
  source and not yet bound (the client's calls not failing). A call that finds the
  claim bound, with the desired data source, returns at once and leaves the claim, its
  resource requests included, as it is.
\<close>

theorem C6_resources_reapplied_unless_bound:
  "(lookup (persistentVolumeClaims (client v)) (Namespace (owner v))
       (PVCName (RDProtectedPVC rdSpec)) = None
     \<and> (VGet, KPersistentVolumeClaim, PVCName (RDProtectedPVC rdSpec)) \<notin> faults (client v)
     \<and> (VCreate, KPersistentVolumeClaim, PVCName (RDProtectedPVC rdSpec)) \<notin> faults (client v)
     \<longrightarrow> (\<exists>pvc' v'. ensurePVCFromSnapshot v rdSpec snapshotRef = (Inr pvc', v')
            \<and> SpecResources pvc' = Resources (RDProtectedPVC rdSpec)
            \<and> lookup (persistentVolumeClaims (client v')) (Namespace (owner v))
                 (PVCName (RDProtectedPVC rdSpec)) = Some pvc')) \<and>
   (\<forall>pvc. lookup (persistentVolumeClaims (client v)) (Namespace (owner v))
             (PVCName (RDProtectedPVC rdSpec)) = Some pvc
         \<and> CreationTimestamp pvc \<noteq> 0
         \<and> objectRefMatches (SpecDataSource pvc) (Some snapshotRef)
         \<and> StatusPhase pvc \<noteq> ClaimBound
         \<and> (VGet, KPersistentVolumeClaim, PVCName (RDProtectedPVC rdSpec)) \<notin> faults (client v)
         \<and> (VUpdate, KPersistentVolumeClaim, PVCName (RDProtectedPVC rdSpec)) \<notin> faults (client v)
     \<longrightarrow> (\<exists>pvc' v'. ensurePVCFromSnapshot v rdSpec snapshotRef = (Inr pvc', v')
            \<and> SpecResources pvc' = Resources (RDProtectedPVC rdSpec)
            \<and> lookup (persistentVolumeClaims (client v')) (Namespace (owner v))
                 (PVCName (RDProtectedPVC rdSpec)) = Some pvc')) \<and>
   (\<forall>pvc. lookup (persistentVolumeClaims (client v)) (Namespace (owner v))
             (PVCName (RDProtectedPVC rdSpec)) = Some pvc
         \<and> objectRefMatches (SpecDataSource pvc) (Some snapshotRef)
         \<and> StatusPhase pvc = ClaimBound
         \<and> (VGet, KPersistentVolumeClaim, PVCName (RDProtectedPVC rdSpec)) \<notin> faults (client v)
     \<longrightarrow> ensurePVCFromSnapshot v rdSpec snapshotRef = (Inr pvc, v))"
proof (intro conjI allI impI)
  assume "lookup (persistentVolumeClaims (client v)) (Namespace (owner v))
       (PVCName (RDProtectedPVC rdSpec)) = None
     \<and> (VGet, KPersistentVolumeClaim, PVCName (RDProtectedPVC rdSpec)) \<notin> faults (client v)
     \<and> (VCreate, KPersistentVolumeClaim, PVCName (RDProtectedPVC rdSpec)) \<notin> faults (client v)"
  then show "\<exists>pvc' v'. ensurePVCFromSnapshot v rdSpec snapshotRef = (Inr pvc', v')
            \<and> SpecResources pvc' = Resources (RDProtectedPVC rdSpec)
            \<and> lookup (persistentVolumeClaims (client v')) (Namespace (owner v))
                 (PVCName (RDProtectedPVC rdSpec)) = Some pvc'"
    using ensurePVC_absent [of v rdSpec snapshotRef] by blast
next
  fix pvc
  assume "lookup (persistentVolumeClaims (client v)) (Namespace (owner v))
             (PVCName (RDProtectedPVC rdSpec)) = Some pvc
         \<and> CreationTimestamp pvc \<noteq> 0
         \<and> objectRefMatches (SpecDataSource pvc) (Some snapshotRef)
         \<and> StatusPhase pvc \<noteq> ClaimBound
         \<and> (VGet, KPersistentVolumeClaim, PVCName (RDProtectedPVC rdSpec)) \<notin> faults (client v)
         \<and> (VUpdate, KPersistentVolumeClaim, PVCName (RDProtectedPVC rdSpec)) \<notin> faults (client v)"
  then show "\<exists>pvc' v'. ensurePVCFromSnapshot v rdSpec snapshotRef = (Inr pvc', v')
            \<and> SpecResources pvc' = Resources (RDProtectedPVC rdSpec)
            \<and> lookup (persistentVolumeClaims (client v')) (Namespace (owner v))
                 (PVCName (RDProtectedPVC rdSpec)) = Some pvc'"
    using ensurePVC_unbound [of v rdSpec pvc snapshotRef] by blast
next
  fix pvc
  assume "lookup (persistentVolumeClaims (client v)) (Namespace (owner v))
             (PVCName (RDProtectedPVC rdSpec)) = Some pvc
         \<and> objectRefMatches (SpecDataSource pvc) (Some snapshotRef)
         \<and> StatusPhase pvc = ClaimBound
         \<and> (VGet, KPersistentVolumeClaim, PVCName (RDProtectedPVC rdSpec)) \<notin> faults (client v)"
  then show "ensurePVCFromSnapshot v rdSpec snapshotRef = (Inr pvc, v)"
    using ensurePVC_bound [of v rdSpec pvc snapshotRef] by blast
qed

theorem C6_resources_reapplied_unless_bound_witness:
  "(\<exists>pvc' v'. ensurePVCFromSnapshot
       (exampleHandler (emptyCluster\<lparr>persistentVolumeClaims :=
          [examplePVC Map.empty (Some (exampleSnapshotRef ''snap1'')) 5 ''Pending'']\<rparr>))
       \<lparr>RDProtectedPVC = exampleProtectedPVC\<rparr> (exampleSnapshotRef ''snap1'') = (Inr pvc', v')
     \<and> Requests (SpecResources pvc') ''storage'' = Some 10
     \<and> lookup (persistentVolumeClaims (client v')) ''ns1'' ''pvc1'' = Some pvc') \<and>
   (\<exists>pvc' v'. ensurePVCFromSnapshot (exampleHandler emptyCluster)
       \<lparr>RDProtectedPVC = exampleProtectedPVC\<rparr> (exampleSnapshotRef ''snap1'') = (Inr pvc', v')
     \<and> Requests (SpecResources pvc') ''storage'' = Some 10
     \<and> lookup (persistentVolumeClaims (client v')) ''ns1'' ''pvc1'' = Some pvc')"
proof -
  let ?p = "examplePVC Map.empty (Some (exampleSnapshotRef ''snap1'')) 5 ''Pending''"
  let ?v = "exampleHandler (emptyCluster\<lparr>persistentVolumeClaims := [?p]\<rparr>)"
  let ?e = "exampleHandler emptyCluster"
  let ?s = "\<lparr>RDProtectedPVC = exampleProtectedPVC\<rparr>"
  let ?r = "exampleSnapshotRef ''snap1''"
  have h: "lookup (persistentVolumeClaims (client ?v)) (Namespace (owner ?v))
             (PVCName (RDProtectedPVC ?s)) = Some ?p
         \<and> CreationTimestamp ?p \<noteq> 0
         \<and> objectRefMatches (SpecDataSource ?p) (Some ?r)
         \<and> StatusPhase ?p \<noteq> ClaimBound
         \<and> (VGet, KPersistentVolumeClaim, PVCName (RDProtectedPVC ?s)) \<notin> faults (client ?v)
         \<and> (VUpdate, KPersistentVolumeClaim, PVCName (RDProtectedPVC ?s)) \<notin> faults (client ?v)"
    by (simp add: example_defs lookup_Cons hasKey_def objectRefMatches_def ClaimBound_def)
  have "\<exists>pvc' v'. ensurePVCFromSnapshot ?v ?s ?r = (Inr pvc', v')
            \<and> SpecResources pvc' = Resources (RDProtectedPVC ?s)
            \<and> lookup (persistentVolumeClaims (client v')) (Namespace (owner ?v))
                 (PVCName (RDProtectedPVC ?s)) = Some pvc'"
    using C6_resources_reapplied_unless_bound [of ?v ?s ?r] h by blast
  then have 1: "\<exists>pvc' v'. ensurePVCFromSnapshot ?v ?s ?r = (Inr pvc', v')
     \<and> Requests (SpecResources pvc') ''storage'' = Some 10
     \<and> lookup (persistentVolumeClaims (client v')) ''ns1'' ''pvc1'' = Some pvc'"
    by (auto simp: example_defs)
  have h2: "lookup (persistentVolumeClaims (client ?e)) (Namespace (owner ?e))
       (PVCName (RDProtectedPVC ?s)) = None
     \<and> (VGet, KPersistentVolumeClaim, PVCName (RDProtectedPVC ?s)) \<notin> faults (client ?e)
     \<and> (VCreate, KPersistentVolumeClaim, PVCName (RDProtectedPVC ?s)) \<notin> faults (client ?e)"
    by (simp add: example_defs)
  have "\<exists>pvc' v'. ensurePVCFromSnapshot ?e ?s ?r = (Inr pvc', v')
            \<and> SpecResources pvc' = Resources (RDProtectedPVC ?s)
            \<and> lookup (persistentVolumeClaims (client v')) (Namespace (owner ?e))
                 (PVCName (RDProtectedPVC ?s)) = Some pvc'"
    using C6_resources_reapplied_unless_bound [of ?e ?s ?r] h2 by blast
  then have 2: "\<exists>pvc' v'. ensurePVCFromSnapshot ?e ?s ?r = (Inr pvc', v')
     \<and> Requests (SpecResources pvc') ''storage'' = Some 10
     \<and> lookup (persistentVolumeClaims (client v')) ''ns1'' ''pvc1'' = Some pvc'"
    by (auto simp: example_defs)
  show ?thesis using 1 2 by blast
qed

text \<open>
  The claim as stated fails on a bound claim: a claim bound to the desired snapshot with
  a request of 5 keeps it, though the descriptor asks for 10.
\<close>

theorem C6_bound_claim_keeps_resources_counterexample:
  "ensurePVCFromSnapshot
     (exampleHandler (emptyCluster\<lparr>persistentVolumeClaims :=
        [examplePVC Map.empty (Some (exampleSnapshotRef ''snap1'')) 5 ''Bound'']\<rparr>))
     \<lparr>RDProtectedPVC = exampleProtectedPVC\<rparr> (exampleSnapshotRef ''snap1'')
   = (Inr (examplePVC Map.empty (Some (exampleSnapshotRef ''snap1'')) 5 ''Bound''),
      exampleHandler (emptyCluster\<lparr>persistentVolumeClaims :=
        [examplePVC Map.empty (Some (exampleSnapshotRef ''snap1'')) 5 ''Bound'']\<rparr>))
   \<and> Requests (SpecResources
        (examplePVC Map.empty (Some (exampleSnapshotRef ''snap1'')) 5 ''Bound'')) ''storage''
       = Some 5
   \<and> Requests (Resources (RDProtectedPVC \<lparr>RDProtectedPVC = exampleProtectedPVC\<rparr>)) ''storage''
       = Some 10"
proof -
  let ?p = "examplePVC Map.empty (Some (exampleSnapshotRef ''snap1'')) 5 ''Bound''"
  let ?v = "exampleHandler (emptyCluster\<lparr>persistentVolumeClaims := [?p]\<rparr>)"
  have "ensurePVCFromSnapshot ?v \<lparr>RDProtectedPVC = exampleProtectedPVC\<rparr>
          (exampleSnapshotRef ''snap1'') = (Inr ?p, ?v)"
    by (rule ensurePVC_bound)
       (simp_all add: example_defs lookup_Cons hasKey_def objectRefMatches_def ClaimBound_def)
  then show ?thesis by (simp add: example_defs)
qed


section \<open>Exclusive roles\<close>
































section \<open>The final sync\<close>

lemma CreateOrUpdate_stored:
  assumes run: "CreateOrUpdate K c obj f = (Inr (op, res), c')"
    and sel: "\<And>xs d. res_sel K (res_upd K xs d) = xs"
  shows "lookup (res_sel K c') (Namespace obj) (Name obj) = Some res"
proof (cases "lookup (res_sel K c) (Namespace obj) (Name obj)")
  case None
  then show ?thesis
    using run
    by (auto simp: CreateOrUpdate_eq sel lookup_append lookup_Cons hasKey_def
        split: if_splits sum.splits)
next
  case (Some existing)
  have k: "Namespace existing = Namespace obj" "Name existing = Name obj"
    using lookup_Some_hasKey [OF Some] by simp_all
  show ?thesis
  proof (cases "f existing")
    case (Inl e)
    then show ?thesis using run Some by (simp add: CreateOrUpdate_eq split: if_splits)
  next
    case (Inr obj')
    show ?thesis
    proof (cases "existing = obj'")
      case True
      then show ?thesis
        using run Some Inr by (auto simp: CreateOrUpdate_eq split: if_splits)
    next
      case False
      then have c': "c' = res_upd K (map (\<lambda>x. if hasKey (Namespace obj') (Name obj') x
                                             then obj' else x) (res_sel K c)) c"
        and r: "res = obj'" and kk: "Namespace obj' = Namespace obj" "Name obj' = Name obj"
        using run Some Inr k by (auto simp: CreateOrUpdate_eq split: if_splits)
      show ?thesis
        unfolding c' sel r
        using Some by (simp add: kk lookup_replace [OF kk])
    qed
  qed
qed

lemma CreateOrUpdate_from:
  assumes run: "CreateOrUpdate K c obj f = (Inr (op, res), c')"
  shows "\<exists>y t. f (case lookup (res_sel K c) (Namespace obj) (Name obj) of
                    None \<Rightarrow> obj | Some existing \<Rightarrow> existing) = Inr y
               \<and> (res = y \<or> res = y\<lparr>CreationTimestamp := t\<rparr>)"
  using run
  by (auto simp: CreateOrUpdate_eq split: if_splits sum.splits option.splits)

lemma RS_mutate_final:
  assumes "createOrUpdateRS_mutate v rsSpec k True vsc addr x = Inr y"
  shows "Trigger y = Some \<lparr>Schedule = None, Manual = FinalSyncTriggerString\<rparr>"
    and "RSStatus y = RSStatus x"
proof -
  obtain x1 where s: "SetControllerReference (ownerGVK v) (owner v) x = Inr x1"
    using assms by (auto simp: createOrUpdateRS_mutate_def split: sum.splits)
  have x1: "RSStatus x1 = RSStatus x"
    by (subst SetControllerReference_refs [OF s]) simp
  show "Trigger y = Some \<lparr>Schedule = None, Manual = FinalSyncTriggerString\<rparr>"
    using assms s by (auto simp: createOrUpdateRS_mutate_def Let_def)
  show "RSStatus y = RSStatus x"
    using assms s x1 by (auto simp: createOrUpdateRS_mutate_def Let_def addVRGOwnerLabel_def)
qed

lemma createOrUpdateRS_final:
  assumes run: "createOrUpdateRS v rsSpec k True = (Inr rs, v')"
  shows "lookup (replicationSources (client v')) (Namespace (owner v))
           (PVCName (RSProtectedPVC rsSpec)) = Some rs"
    and "Trigger rs = Some \<lparr>Schedule = None, Manual = FinalSyncTriggerString\<rparr>"
    and "RSStatus rs =
           (case lookup (replicationSources (client v)) (Namespace (owner v))
                   (PVCName (RSProtectedPVC rsSpec)) of
              None \<Rightarrow> None | Some existing \<Rightarrow> RSStatus existing)"
proof -
  let ?sc = "StorageClassName (RSProtectedPVC rsSpec)"
  obtain r v1 where g: "GetVolumeSnapshotClassFromPVCStorageClass v ?sc = (r, v1)" by fastforce
  have v1: "v1 = v\<lparr>volumeSnapshotClassList := volumeSnapshotClassList v1\<rparr>"
    using GetVSC_cong [of v v ?sc] g by simp
  have cv1: "client v1 = client v" by (subst v1) simp
  have ov1: "owner v1 = owner v" by (subst v1) simp
  obtain vsc where r: "r = Inr vsc"
    using run g by (cases r) (auto simp: createOrUpdateRS_def)
  let ?obj = "\<lparr>Name = getReplicationSourceName (PVCName (RSProtectedPVC rsSpec)),
                     Namespace = Namespace (owner v1),
                     Labels = Map.empty, Annotations = Map.empty, OwnerReferences = [],
                     CreationTimestamp = 0, SourcePVC = [], Trigger = None,
                     RSSpecRsync = None, RSStatus = None\<rparr>"
  let ?addr = "getRemoteServiceNameForRDFromPVCName (PVCName (RSProtectedPVC rsSpec))
                   (Namespace (owner v1))"
  let ?M = "createOrUpdateRS_mutate v1 rsSpec k True vsc ?addr"
  obtain res c' where cu: "CreateOrUpdate ReplicationSources (client v1) ?obj ?M = (res, c')"
    by fastforce
  obtain op where res: "res = Inr (op, rs)" and v': "v' = v1\<lparr>client := c'\<rparr>"
    using run g r cu by (cases res) (auto simp: createOrUpdateRS_def Let_def)
  have st: "lookup (res_sel ReplicationSources c') (Namespace ?obj) (Name ?obj) = Some rs"
    using cu [unfolded res] RS_laws(1) by (rule CreateOrUpdate_stored)
  show "lookup (replicationSources (client v')) (Namespace (owner v))
           (PVCName (RSProtectedPVC rsSpec)) = Some rs"
    using st by (simp add: v' RS_laws ov1 getReplicationSourceName_def)
  obtain y t where y: "?M (case lookup (res_sel ReplicationSources (client v1))
                               (Namespace ?obj) (Name ?obj) of
                    None \<Rightarrow> ?obj | Some existing \<Rightarrow> existing) = Inr y"
    and ry: "rs = y \<or> rs = y\<lparr>CreationTimestamp := t\<rparr>"
    using CreateOrUpdate_from [OF cu [unfolded res]] by blast
  show "Trigger rs = Some \<lparr>Schedule = None, Manual = FinalSyncTriggerString\<rparr>"
    using RS_mutate_final(1) [OF y] ry by auto
  show "RSStatus rs =
           (case lookup (replicationSources (client v)) (Namespace (owner v))
                   (PVCName (RSProtectedPVC rsSpec)) of
              None \<Rightarrow> None | Some existing \<Rightarrow> RSStatus existing)"
    using RS_mutate_final(2) [OF y] ry
    by (auto simp: RS_laws cv1 ov1 getReplicationSourceName_def split: option.splits)
qed


lemma validateSecret_no_fault:
  assumes nf: "faults (client v) = {}"
  shows "snd (fst (validateSecretAndAddVRGOwnerRef v k)) = None"
proof (cases "lookup (secrets (client v)) (Namespace (owner v)) k")
  case None
  then show ?thesis
    using nf by (simp add: validateSecretAndAddVRGOwnerRef_def client_Get_def Secrets_def)
next
  case (Some secret)
  have kk: "Namespace secret = Namespace (owner v)" "Name secret = k"
    using lookup_Some_hasKey [OF Some] by simp_all
  have vo: "validateOwner (owner v) secret = None"
    using kk by (simp add: validateOwner_same_ns)
  show ?thesis
    using nf Some kk addOwnerReference_eq [OF vo, of "ownerGVK v"]
    by (simp add: validateSecretAndAddVRGOwnerRef_def addOwnerReferenceAndUpdate_def
        client_Get_def client_Update_def Secrets_def)
qed

lemma validateSecret_found:
  assumes "validateSecretAndAddVRGOwnerRef v k = ((b, None), v1)"
    and "lookup (secrets (client v)) (Namespace (owner v)) k = Some secret"
  shows "b"
  using assms
  by (auto simp: validateSecretAndAddVRGOwnerRef_def client_Get_def Secrets_def
      split: if_splits prod.splits option.splits)

lemma ReconcileRS_in_use:
  assumes en: "ProtectedByVolSync (RSProtectedPVC rsSpec)"
    and nf: "faults (client v) = {}"
    and pvc: "lookup (persistentVolumeClaims (client v)) (Namespace (owner v))
               (PVCName (RSProtectedPVC rsSpec)) = Some claim"
    and pod: "\<exists>pod\<in>set (pods (client v)).
                PVCName (RSProtectedPVC rsSpec) \<in> set (podClaimNames (Volumes pod))
                \<and> Namespace pod = Namespace (owner v)"
  shows "fst (ReconcileRS v rsSpec True) = (False, None, None)"
    and "replicationSources (client (snd (ReconcileRS v rsSpec True)))
           = replicationSources (client v)"
proof -
  let ?k = "GetVolSyncSSHSecretNameFromVRGName v (Name (owner v))"
  let ?n = "PVCName (RSProtectedPVC rsSpec)"
  obtain b e v1 where s1: "validateSecretAndAddVRGOwnerRef v ?k = ((b, e), v1)"
    by (metis prod.exhaust)
  have e: "e = None" using validateSecret_no_fault [OF nf, of ?k] s1 by simp
  obtain S where f1: "v1 = v\<lparr>client := (client v)\<lparr>secrets := S\<rparr>\<rparr>"
    using validateSecret_frame [of v ?k] s1 by simp
  have both: "fst (ReconcileRS v rsSpec True) = (False, None, None)
      \<and> replicationSources (client (snd (ReconcileRS v rsSpec True)))
           = replicationSources (client v)"
  proof (cases b)
    case False
    then show ?thesis
      using en s1 e by (simp add: ReconcileRS_def Let_def f1)
  next
    case True
    obtain d v2 where s2: "DeleteRD v1 ?n = (d, v2)" by fastforce
    have d: "d = None" using s2 nf by (auto simp: DeleteRD_eq f1 split: if_splits)
    obtain R where f2: "v2 = v1\<lparr>client := (client v1)\<lparr>replicationDestinations := R\<rparr>\<rparr>"
      using DeleteRD_frame [of v1 ?n] s2 by simp
    have s3: "validatePVCBeforeFinalSync v2 rsSpec True = (False, None)"
      using pvc pod nf
      by (simp add: validatePVCBeforeFinalSync_def pvcExistsAndInUse_eq f1 f2)
    show ?thesis
      using en s1 e True s2 d s3 by (simp add: ReconcileRS_def Let_def f1 f2)
  qed
  show "fst (ReconcileRS v rsSpec True) = (False, None, None)" using both by simp
  show "replicationSources (client (snd (ReconcileRS v rsSpec True)))
           = replicationSources (client v)" using both by simp
qed

lemma ReconcileRS_final_run:
  assumes run: "ReconcileRS v rsSpec True = ((fin, rso, None), v')"
    and sec: "lookup (secrets (client v)) (Namespace (owner v))
               (GetVolSyncSSHSecretNameFromVRGName v (Name (owner v))) = Some secret"
    and free: "\<not> (lookup (persistentVolumeClaims (client v)) (Namespace (owner v))
                    (PVCName (RSProtectedPVC rsSpec)) \<noteq> None
                \<and> (\<exists>pod\<in>set (pods (client v)).
                      PVCName (RSProtectedPVC rsSpec) \<in> set (podClaimNames (Volumes pod))
                      \<and> Namespace pod = Namespace (owner v)))"
  shows "\<exists>v2 rs v3. owner v2 = owner v
           \<and> replicationSources (client v2) = replicationSources (client v)
           \<and> createOrUpdateRS v2 rsSpec
                (GetVolSyncSSHSecretNameFromVRGName v (Name (owner v))) True = (Inr rs, v3)
           \<and> (if isRSLastSyncTimeReady (RSStatus rs) \<and> isFinalSyncComplete rs
               then fin \<and> rso = Some rs
                    \<and> deletePVC v3 (PVCName (RSProtectedPVC rsSpec)) = (None, v')
               else \<not> fin \<and> v' = v3
                    \<and> rso = (if isRSLastSyncTimeReady (RSStatus rs) then Some rs else None))"
proof -
  let ?k = "GetVolSyncSSHSecretNameFromVRGName v (Name (owner v))"
  let ?n = "PVCName (RSProtectedPVC rsSpec)"
  have p: "ProtectedByVolSync (RSProtectedPVC rsSpec)"
    using run by (auto simp: ReconcileRS_def split: if_splits)
  obtain b e v1 where s1: "validateSecretAndAddVRGOwnerRef v ?k = ((b, e), v1)"
    by (metis prod.exhaust)
  have e: "e = None"
    using run p s1 by (auto simp: ReconcileRS_def Let_def split: if_splits option.splits)
  have b: "b" using s1 [unfolded e] sec by (rule validateSecret_found)
  obtain S where f1: "v1 = v\<lparr>client := (client v)\<lparr>secrets := S\<rparr>\<rparr>"
    using validateSecret_frame [of v ?k] s1 by simp
  obtain d v2 where s2: "DeleteRD v1 ?n = (d, v2)" by fastforce
  have d: "d = None"
    using run p s1 e b s2 by (auto simp: ReconcileRS_def Let_def split: option.splits)
  obtain R where f2: "v2 = v1\<lparr>client := (client v1)\<lparr>replicationDestinations := R\<rparr>\<rparr>"
    using DeleteRD_frame [of v1 ?n] s2 by simp
  obtain ok err where s3: "validatePVCBeforeFinalSync v2 rsSpec True = (ok, err)"
    by fastforce
  have err: "err = None"
    using run p s1 e b s2 d s3
    by (auto simp: ReconcileRS_def Let_def split: if_splits prod.splits sum.splits)
  have ok: "ok"
    using s3 err free
    by (auto simp: validatePVCBeforeFinalSync_def pvcExistsAndInUse_eq f1 f2
        split: if_splits option.splits)
  obtain c v3 where s4: "createOrUpdateRS v2 rsSpec ?k True = (c, v3)" by fastforce
  obtain rs where c: "c = Inr rs"
    using run p s1 e b s2 d s3 err ok s4
    by (cases c) (auto simp: ReconcileRS_def Let_def)
  have "if isRSLastSyncTimeReady (RSStatus rs) \<and> isFinalSyncComplete rs
               then fin \<and> rso = Some rs \<and> deletePVC v3 ?n = (None, v')
               else \<not> fin \<and> v' = v3
                    \<and> rso = (if isRSLastSyncTimeReady (RSStatus rs) then Some rs else None)"
    using run p s1 e b s2 d s3 err ok s4 c
    by (auto simp: ReconcileRS_def Let_def cleanupAfterRSFinalSync_def
        split: if_splits prod.splits)
  moreover have "owner v2 = owner v" "replicationSources (client v2) = replicationSources (client v)"
    by (simp_all add: f1 f2)
  ultimately show ?thesis using s4 c by blast
qed


lemma ReconcileRS_final_result:
  assumes run: "ReconcileRS v rsSpec True = ((fin, rso, None), v')"
    and sec: "lookup (secrets (client v)) (Namespace (owner v))
               (GetVolSyncSSHSecretNameFromVRGName v (Name (owner v))) = Some secret"
    and free: "\<not> (lookup (persistentVolumeClaims (client v)) (Namespace (owner v))
                    (PVCName (RSProtectedPVC rsSpec)) \<noteq> None
                \<and> (\<exists>pod\<in>set (pods (client v)).
                      PVCName (RSProtectedPVC rsSpec) \<in> set (podClaimNames (Volumes pod))
                      \<and> Namespace pod = Namespace (owner v)))"
  shows "\<exists>rs. lookup (replicationSources (client v')) (Namespace (owner v))
                (PVCName (RSProtectedPVC rsSpec)) = Some rs
              \<and> Trigger rs = Some \<lparr>Schedule = None, Manual = FinalSyncTriggerString\<rparr>"
    and "fin \<longleftrightarrow>
           (\<exists>rs0 st t. lookup (replicationSources (client v)) (Namespace (owner v))
                          (PVCName (RSProtectedPVC rsSpec)) = Some rs0
                        \<and> RSStatus rs0 = Some st
                        \<and> LastManualSync st = FinalSyncTriggerString
                        \<and> LastSyncTime st = Some t \<and> t \<noteq> 0)"
    and "fin \<Longrightarrow> rso \<noteq> None
           \<and> rso = lookup (replicationSources (client v')) (Namespace (owner v))
                      (PVCName (RSProtectedPVC rsSpec))
           \<and> lookup (persistentVolumeClaims (client v')) (Namespace (owner v))
                (PVCName (RSProtectedPVC rsSpec)) = None"
proof -
  let ?k = "GetVolSyncSSHSecretNameFromVRGName v (Name (owner v))"
  let ?n = "PVCName (RSProtectedPVC rsSpec)"
  let ?ns = "Namespace (owner v)"
  let ?done = "\<lambda>rs. isRSLastSyncTimeReady (RSStatus rs) \<and> isFinalSyncComplete rs"
  obtain v2 rs v3 where o2: "owner v2 = owner v"
    and r2: "replicationSources (client v2) = replicationSources (client v)"
    and cu: "createOrUpdateRS v2 rsSpec ?k True = (Inr rs, v3)"
    and fc: "if ?done rs
             then fin \<and> rso = Some rs \<and> deletePVC v3 ?n = (None, v')
             else \<not> fin \<and> v' = v3
                  \<and> rso = (if isRSLastSyncTimeReady (RSStatus rs) then Some rs else None)"
    using ReconcileRS_final_run [OF run sec free] by blast
  have st3: "lookup (replicationSources (client v3)) ?ns ?n = Some rs"
    using createOrUpdateRS_final(1) [OF cu] by (simp add: o2)
  have tr: "Trigger rs = Some \<lparr>Schedule = None, Manual = FinalSyncTriggerString\<rparr>"
    using createOrUpdateRS_final(2) [OF cu] .
  have status: "RSStatus rs =
           (case lookup (replicationSources (client v)) ?ns ?n of
              None \<Rightarrow> None | Some existing \<Rightarrow> RSStatus existing)"
    using createOrUpdateRS_final(3) [OF cu] by (simp add: o2 r2)
  obtain L D where f3: "v3 = v2\<lparr>volumeSnapshotClassList := L,
                            client := (client v2)\<lparr>replicationSources := D\<rparr>\<rparr>"
    using createOrUpdateRS_frame [of v2 rsSpec ?k True] cu by simp
  have o3: "owner v3 = owner v" by (simp add: f3 o2)
  have rs': "replicationSources (client v') = replicationSources (client v3)"
    using fc by (auto simp: deletePVC_eq split: if_splits)
  have st': "lookup (replicationSources (client v')) ?ns ?n = Some rs"
    using st3 rs' by simp
  show "\<exists>rs. lookup (replicationSources (client v')) ?ns ?n = Some rs
              \<and> Trigger rs = Some \<lparr>Schedule = None, Manual = FinalSyncTriggerString\<rparr>"
    using st' tr by blast
  have fin: "fin = ?done rs" using fc by (auto split: if_splits)
  have dn: "?done rs \<longleftrightarrow>
           (\<exists>rs0 st t. lookup (replicationSources (client v)) ?ns ?n = Some rs0
                        \<and> RSStatus rs0 = Some st
                        \<and> LastManualSync st = FinalSyncTriggerString
                        \<and> LastSyncTime st = Some t \<and> t \<noteq> 0)"
    unfolding isRSLastSyncTimeReady_def isFinalSyncComplete_def status
    by (auto split: option.splits)
  show "fin \<longleftrightarrow>
           (\<exists>rs0 st t. lookup (replicationSources (client v)) ?ns ?n = Some rs0
                        \<and> RSStatus rs0 = Some st
                        \<and> LastManualSync st = FinalSyncTriggerString
                        \<and> LastSyncTime st = Some t \<and> t \<noteq> 0)"
    unfolding fin dn ..
  show "rso \<noteq> None
           \<and> rso = lookup (replicationSources (client v')) ?ns ?n
           \<and> lookup (persistentVolumeClaims (client v')) ?ns ?n = None" if "fin"
  proof -
    have d: "?done rs" using that fin by simp
    then have r: "rso = Some rs" and dp: "deletePVC v3 ?n = (None, v')"
      using fc by (simp_all split: if_splits)
    have "lookup (persistentVolumeClaims (client v')) ?ns ?n = None"
      using dp by (auto simp: deletePVC_eq o3 lookup_delete split: if_splits)
    then show ?thesis using r st' by simp
  qed
qed


text \<open>
  Claim C2. \<open>ReconcileRS\<close> with the final sync requested, for a volume that is
  VolSync-enabled (for one that is not, the call returns the not-enabled error and
  changes nothing):

  \<^item> while the claim exists and some pod of the owner's namespace mounts it, and no
    client call fails, the call returns false, nil and no error, and the replication
    sources on the cluster are as before;

  \<^item> when the call returns no error, the secret exists and the claim is not in use (it
    does not exist, or no pod mounts it), the source stored under the volume's name
    after the call has the manual trigger with the final-sync token and no schedule;

  \<^item> such a call reports the final sync complete exactly when the source stored before
    the call has a status whose last manual sync equals the token and whose last sync
    time is set and not zero; then it returns that stored source, and the claim is no
    longer on the cluster. The echo of the token alone is not enough: without a last
    sync time the call returns false and nil, and deletes nothing.
\<close>

theorem C2_final_sync_protocol:
  "(ProtectedByVolSync (RSProtectedPVC rsSpec) \<and> faults (client v) = {}
      \<and> lookup (persistentVolumeClaims (client v)) (Namespace (owner v))
            (PVCName (RSProtectedPVC rsSpec)) \<noteq> None
      \<and> (\<exists>pod\<in>set (pods (client v)).
            PVCName (RSProtectedPVC rsSpec) \<in> set (podClaimNames (Volumes pod))
            \<and> Namespace pod = Namespace (owner v))
     \<longrightarrow> fst (ReconcileRS v rsSpec True) = (False, None, None)
         \<and> replicationSources (client (snd (ReconcileRS v rsSpec True)))
             = replicationSources (client v))
   \<and> (ReconcileRS v rsSpec True = ((finalSyncComplete, rs, None), v')
      \<and> lookup (secrets (client v)) (Namespace (owner v))
            (GetVolSyncSSHSecretNameFromVRGName v (Name (owner v))) \<noteq> None
      \<and> \<not> (lookup (persistentVolumeClaims (client v)) (Namespace (owner v))
                (PVCName (RSProtectedPVC rsSpec)) \<noteq> None
            \<and> (\<exists>pod\<in>set (pods (client v)).
                  PVCName (RSProtectedPVC rsSpec) \<in> set (podClaimNames (Volumes pod))
                  \<and> Namespace pod = Namespace (owner v)))
     \<longrightarrow> (\<exists>stored. lookup (replicationSources (client v')) (Namespace (owner v))
                       (PVCName (RSProtectedPVC rsSpec)) = Some stored
                   \<and> Trigger stored
                       = Some \<lparr>Schedule = None, Manual = FinalSyncTriggerString\<rparr>)
         \<and> (finalSyncComplete \<longleftrightarrow>
               (\<exists>rs0 st t. lookup (replicationSources (client v)) (Namespace (owner v))
                              (PVCName (RSProtectedPVC rsSpec)) = Some rs0
                          \<and> RSStatus rs0 = Some st
                          \<and> LastManualSync st = FinalSyncTriggerString
                          \<and> LastSyncTime st = Some t \<and> t \<noteq> 0))
         \<and> (finalSyncComplete \<longrightarrow>
               rs \<noteq> None
               \<and> rs = lookup (replicationSources (client v')) (Namespace (owner v))
                        (PVCName (RSProtectedPVC rsSpec))
               \<and> lookup (persistentVolumeClaims (client v')) (Namespace (owner v))
                    (PVCName (RSProtectedPVC rsSpec)) = None))
   \<and> (\<not> ProtectedByVolSync (RSProtectedPVC rsSpec)
     \<longrightarrow> ReconcileRS v rsSpec True
           = ((False, None, Some (NotVolSyncEnabled (PVCName (RSProtectedPVC rsSpec)))), v))"
proof (intro conjI impI)
  assume a: "ProtectedByVolSync (RSProtectedPVC rsSpec) \<and> faults (client v) = {}
      \<and> lookup (persistentVolumeClaims (client v)) (Namespace (owner v))
            (PVCName (RSProtectedPVC rsSpec)) \<noteq> None
      \<and> (\<exists>pod\<in>set (pods (client v)).
            PVCName (RSProtectedPVC rsSpec) \<in> set (podClaimNames (Volumes pod))
            \<and> Namespace pod = Namespace (owner v))"
  then obtain claim where c: "lookup (persistentVolumeClaims (client v)) (Namespace (owner v))
            (PVCName (RSProtectedPVC rsSpec)) = Some claim" by auto
  from a have en: "ProtectedByVolSync (RSProtectedPVC rsSpec)"
    and nf: "faults (client v) = {}"
    and pod: "\<exists>pod\<in>set (pods (client v)).
            PVCName (RSProtectedPVC rsSpec) \<in> set (podClaimNames (Volumes pod))
            \<and> Namespace pod = Namespace (owner v)" by simp_all
  show "fst (ReconcileRS v rsSpec True) = (False, None, None)"
    using en nf c pod by (rule ReconcileRS_in_use(1))
  show "replicationSources (client (snd (ReconcileRS v rsSpec True)))
             = replicationSources (client v)"
    using en nf c pod by (rule ReconcileRS_in_use(2))
next
  assume "\<not> ProtectedByVolSync (RSProtectedPVC rsSpec)"
  then show "ReconcileRS v rsSpec True
           = ((False, None, Some (NotVolSyncEnabled (PVCName (RSProtectedPVC rsSpec)))), v)"
    by (simp add: ReconcileRS_def)
next
  assume a: "ReconcileRS v rsSpec True = ((finalSyncComplete, rs, None), v')
      \<and> lookup (secrets (client v)) (Namespace (owner v))
            (GetVolSyncSSHSecretNameFromVRGName v (Name (owner v))) \<noteq> None
      \<and> \<not> (lookup (persistentVolumeClaims (client v)) (Namespace (owner v))
                (PVCName (RSProtectedPVC rsSpec)) \<noteq> None
            \<and> (\<exists>pod\<in>set (pods (client v)).
                  PVCName (RSProtectedPVC rsSpec) \<in> set (podClaimNames (Volumes pod))
                  \<and> Namespace pod = Namespace (owner v)))"
  then obtain secret where sec: "lookup (secrets (client v)) (Namespace (owner v))
            (GetVolSyncSSHSecretNameFromVRGName v (Name (owner v))) = Some secret" by auto
  from a have run: "ReconcileRS v rsSpec True = ((finalSyncComplete, rs, None), v')"
    and free: "\<not> (lookup (persistentVolumeClaims (client v)) (Namespace (owner v))
                (PVCName (RSProtectedPVC rsSpec)) \<noteq> None
            \<and> (\<exists>pod\<in>set (pods (client v)).
                  PVCName (RSProtectedPVC rsSpec) \<in> set (podClaimNames (Volumes pod))
                  \<and> Namespace pod = Namespace (owner v)))" by simp_all
  note r = ReconcileRS_final_result [OF run sec free]
  show "\<exists>stored. lookup (replicationSources (client v')) (Namespace (owner v))
                       (PVCName (RSProtectedPVC rsSpec)) = Some stored
                   \<and> Trigger stored
                       = Some \<lparr>Schedule = None, Manual = FinalSyncTriggerString\<rparr>"
    by (rule r(1))
  show "finalSyncComplete \<longleftrightarrow>
               (\<exists>rs0 st t. lookup (replicationSources (client v)) (Namespace (owner v))
                              (PVCName (RSProtectedPVC rsSpec)) = Some rs0
                          \<and> RSStatus rs0 = Some st
                          \<and> LastManualSync st = FinalSyncTriggerString
                          \<and> LastSyncTime st = Some t \<and> t \<noteq> 0)"
    by (rule r(2))
  assume "finalSyncComplete"
  then show "rs \<noteq> None"
    and "rs = lookup (replicationSources (client v')) (Namespace (owner v))
                        (PVCName (RSProtectedPVC rsSpec))"
    and "lookup (persistentVolumeClaims (client v')) (Namespace (owner v))
                    (PVCName (RSProtectedPVC rsSpec)) = None"
    using r(3) by blast+
qed


theorem C2_final_sync_protocol_witness:
  "fst (ReconcileRS
          (exampleHandler (readyCluster\<lparr>persistentVolumeClaims :=
             [examplePVC Map.empty None 10 ''Bound''], pods := [examplePod]\<rparr>))
          \<lparr>RSProtectedPVC = exampleProtectedPVC\<rparr> True) = (False, None, None)
   \<and> fst (fst (ReconcileRS
        (exampleHandler (readyCluster\<lparr>replicationSources :=
           [exampleRS (Some \<lparr>LastSyncTime = Some 5, LastManualSync = ''vrg-final-sync''\<rparr>)],
           persistentVolumeClaims := [examplePVC Map.empty None 10 ''Bound'']\<rparr>))
        \<lparr>RSProtectedPVC = exampleProtectedPVC\<rparr> True))
   \<and> lookup (persistentVolumeClaims (client (snd (ReconcileRS
        (exampleHandler (readyCluster\<lparr>replicationSources :=
           [exampleRS (Some \<lparr>LastSyncTime = Some 5, LastManualSync = ''vrg-final-sync''\<rparr>)],
           persistentVolumeClaims := [examplePVC Map.empty None 10 ''Bound'']\<rparr>))
        \<lparr>RSProtectedPVC = exampleProtectedPVC\<rparr> True)))) ''ns1'' ''pvc1'' = None
   \<and> (\<exists>stored. lookup (replicationSources (client (snd (ReconcileRS
        (exampleHandler (readyCluster\<lparr>replicationSources :=
           [exampleRS (Some \<lparr>LastSyncTime = Some 5, LastManualSync = ''vrg-final-sync''\<rparr>)],
           persistentVolumeClaims := [examplePVC Map.empty None 10 ''Bound'']\<rparr>))
        \<lparr>RSProtectedPVC = exampleProtectedPVC\<rparr> True)))) ''ns1'' ''pvc1'' = Some stored
        \<and> Trigger stored = Some \<lparr>Schedule = None, Manual = ''vrg-final-sync''\<rparr>)
   \<and> ReconcileRS (exampleHandler emptyCluster)
        \<lparr>RSProtectedPVC = exampleProtectedPVC\<lparr>ProtectedByVolSync := False\<rparr>\<rparr> True
      = ((False, None, Some (NotVolSyncEnabled ''pvc1'')), exampleHandler emptyCluster)"
proof -
  let ?u = "exampleHandler (readyCluster\<lparr>persistentVolumeClaims :=
             [examplePVC Map.empty None 10 ''Bound''], pods := [examplePod]\<rparr>)"
  let ?w = "exampleHandler (readyCluster\<lparr>replicationSources :=
           [exampleRS (Some \<lparr>LastSyncTime = Some 5, LastManualSync = ''vrg-final-sync''\<rparr>)],
           persistentVolumeClaims := [examplePVC Map.empty None 10 ''Bound'']\<rparr>)"
  let ?s = "\<lparr>RSProtectedPVC = exampleProtectedPVC\<rparr>"
  let ?x = "\<lparr>RSProtectedPVC = exampleProtectedPVC\<lparr>ProtectedByVolSync := False\<rparr>\<rparr>"
  define R where "R = ReconcileRS ?w ?s True"
  have ow: "Namespace (owner ?w) = ''ns1''" "PVCName (RSProtectedPVC ?s) = ''pvc1''"
    by (simp_all add: example_defs)
  have h1: "ProtectedByVolSync (RSProtectedPVC ?s) \<and> faults (client ?u) = {}
      \<and> lookup (persistentVolumeClaims (client ?u)) (Namespace (owner ?u))
            (PVCName (RSProtectedPVC ?s)) \<noteq> None
      \<and> (\<exists>pod\<in>set (pods (client ?u)).
            PVCName (RSProtectedPVC ?s) \<in> set (podClaimNames (Volumes pod))
            \<and> Namespace pod = Namespace (owner ?u))"
    by (simp add: example_defs lookup_Cons hasKey_def)
  have p1: "fst (ReconcileRS ?u ?s True) = (False, None, None)"
    using C2_final_sync_protocol [where v = ?u and rsSpec = ?s, THEN conjunct1] h1 by blast
  have e: "snd (snd (fst R)) = None"
    unfolding R_def by (simp add: ReconcileRS_def eval_defs)
  have run: "ReconcileRS ?w ?s True = ((fst (fst R), fst (snd (fst R)), None), snd R)"
    using e unfolding R_def [symmetric] by (cases R) auto
  have h2: "lookup (secrets (client ?w)) (Namespace (owner ?w))
              (GetVolSyncSSHSecretNameFromVRGName ?w (Name (owner ?w))) \<noteq> None"
    by (simp add: example_defs lookup_Cons hasKey_def)
  have h3: "\<not> (lookup (persistentVolumeClaims (client ?w)) (Namespace (owner ?w))
                (PVCName (RSProtectedPVC ?s)) \<noteq> None
            \<and> (\<exists>pod\<in>set (pods (client ?w)).
                  PVCName (RSProtectedPVC ?s) \<in> set (podClaimNames (Volumes pod))
                  \<and> Namespace pod = Namespace (owner ?w)))"
    by (simp add: example_defs)
  note t = C2_final_sync_protocol [where v = ?w and rsSpec = ?s
      and finalSyncComplete = "fst (fst R)" and rs = "fst (snd (fst R))" and v' = "snd R",
      THEN conjunct2, THEN conjunct1, THEN mp, OF conjI [OF run conjI [OF h2 h3]]]
  have st: "\<exists>rs0 st t. lookup (replicationSources (client ?w)) (Namespace (owner ?w))
                              (PVCName (RSProtectedPVC ?s)) = Some rs0
                          \<and> RSStatus rs0 = Some st
                          \<and> LastManualSync st = FinalSyncTriggerString
                          \<and> LastSyncTime st = Some t \<and> t \<noteq> 0"
    by (simp add: example_defs lookup_Cons hasKey_def FinalSyncTriggerString_def)
  have fin: "fst (fst R)" using t [THEN conjunct2, THEN conjunct1] st by blast
  have p3: "lookup (persistentVolumeClaims (client (snd R))) ''ns1'' ''pvc1'' = None"
    using t [THEN conjunct2, THEN conjunct2] fin unfolding ow by blast
  have p4: "\<exists>stored. lookup (replicationSources (client (snd R))) ''ns1'' ''pvc1'' = Some stored
        \<and> Trigger stored = Some \<lparr>Schedule = None, Manual = ''vrg-final-sync''\<rparr>"
    using t [THEN conjunct1] unfolding ow FinalSyncTriggerString_def .
  have p5: "ReconcileRS (exampleHandler emptyCluster) ?x True
      = ((False, None, Some (NotVolSyncEnabled ''pvc1'')), exampleHandler emptyCluster)"
    using C2_final_sync_protocol [where v = "exampleHandler emptyCluster" and rsSpec = ?x,
        THEN conjunct2, THEN conjunct2]
    by (simp add: example_defs)
  show ?thesis
    unfolding R_def [symmetric]
    by (intro conjI p1 fin p3 p4 p5)
qed

text \<open>
  The claim as stated fails where the status echoes the token without a last sync
  time: the call returns false, nil and no error, and the claim stays. It fails as well
  for a volume that is not VolSync-enabled, whose claim is mounted by a pod: the call
  returns an error.
\<close>

theorem C2_echo_without_sync_time_counterexample:
  "lookup (replicationSources (client
        (exampleHandler (readyCluster\<lparr>replicationSources :=
           [exampleRS (Some \<lparr>LastSyncTime = None, LastManualSync = FinalSyncTriggerString\<rparr>)],
           persistentVolumeClaims := [examplePVC Map.empty None 10 ''Bound'']\<rparr>))))
        ''ns1'' ''pvc1''
     = Some (exampleRS (Some \<lparr>LastSyncTime = None, LastManualSync = FinalSyncTriggerString\<rparr>))
   \<and> fst (ReconcileRS
        (exampleHandler (readyCluster\<lparr>replicationSources :=
           [exampleRS (Some \<lparr>LastSyncTime = None, LastManualSync = FinalSyncTriggerString\<rparr>)],
           persistentVolumeClaims := [examplePVC Map.empty None 10 ''Bound'']\<rparr>))
        \<lparr>RSProtectedPVC = exampleProtectedPVC\<rparr> True) = (False, None, None)
   \<and> lookup (persistentVolumeClaims (client (snd (ReconcileRS
        (exampleHandler (readyCluster\<lparr>replicationSources :=
           [exampleRS (Some \<lparr>LastSyncTime = None, LastManualSync = FinalSyncTriggerString\<rparr>)],
           persistentVolumeClaims := [examplePVC Map.empty None 10 ''Bound'']\<rparr>))
        \<lparr>RSProtectedPVC = exampleProtectedPVC\<rparr> True)))) ''ns1'' ''pvc1''
     = Some (examplePVC Map.empty None 10 ''Bound'')
   \<and> fst (ReconcileRS
          (exampleHandler (readyCluster\<lparr>persistentVolumeClaims :=
             [examplePVC Map.empty None 10 ''Bound''], pods := [examplePod]\<rparr>))
          \<lparr>RSProtectedPVC = exampleProtectedPVC\<lparr>ProtectedByVolSync := False\<rparr>\<rparr> True)
     = (False, None, Some (NotVolSyncEnabled ''pvc1''))"
proof -
  let ?w = "exampleHandler (readyCluster\<lparr>replicationSources :=
           [exampleRS (Some \<lparr>LastSyncTime = None, LastManualSync = FinalSyncTriggerString\<rparr>)],
           persistentVolumeClaims := [examplePVC Map.empty None 10 ''Bound'']\<rparr>)"
  let ?s = "\<lparr>RSProtectedPVC = exampleProtectedPVC\<rparr>"
  have a: "lookup (replicationSources (client ?w)) ''ns1'' ''pvc1''
     = Some (exampleRS (Some \<lparr>LastSyncTime = None, LastManualSync = FinalSyncTriggerString\<rparr>))"
    by (simp add: example_defs lookup_Cons hasKey_def)
  have b: "fst (ReconcileRS ?w ?s True) = (False, None, None)"
    by (simp add: ReconcileRS_def eval_defs)
  have c: "lookup (persistentVolumeClaims (client (snd (ReconcileRS ?w ?s True))))
             ''ns1'' ''pvc1'' = Some (examplePVC Map.empty None 10 ''Bound'')"
    by (simp add: ReconcileRS_def eval_defs)
  have d: "fst (ReconcileRS
          (exampleHandler (readyCluster\<lparr>persistentVolumeClaims :=
             [examplePVC Map.empty None 10 ''Bound''], pods := [examplePod]\<rparr>))
          \<lparr>RSProtectedPVC = exampleProtectedPVC\<lparr>ProtectedByVolSync := False\<rparr>\<rparr> True)
     = (False, None, Some (NotVolSyncEnabled ''pvc1''))"
    by (simp add: ReconcileRS_def example_defs)
  show ?thesis
    by (intro conjI a b c d)
qed


section \<open>Reconciling twice\<close>

text \<open>
  Claim C9. A reconcile that returned no error, called again at once with the same
  descriptor, returns the same value and leaves the handler and the whole cluster as
  the first call left them: the second call deletes nothing, and its create-or-update
  finds the stored object equal to the one it would submit and writes nothing. This
  holds for \<open>ReconcileRD\<close> and for \<open>ReconcileRS\<close>, with or without the final sync, from
  every state and under every fault setting.
\<close>

theorem C9_reconcile_twice:
  "(ReconcileRD v rdSpec = (Inr r, v1) \<longrightarrow> ReconcileRD v1 rdSpec = (Inr r, v1))
   \<and> (ReconcileRS v rsSpec runFinalSync = ((finalSyncComplete, rs, None), v2)
        \<longrightarrow> ReconcileRS v2 rsSpec runFinalSync = ((finalSyncComplete, rs, None), v2))"
  using ReconcileRD_again [of v rdSpec r v1]
    ReconcileRS_again [of v rsSpec runFinalSync finalSyncComplete rs v2]
  by blast

theorem C9_reconcile_twice_witness:
  "fst (ReconcileRD (exampleHandler readyCluster) \<lparr>RDProtectedPVC = exampleProtectedPVC\<rparr>)
     = Inr None
   \<and> replicationDestinations (client (snd (ReconcileRD (exampleHandler readyCluster)
        \<lparr>RDProtectedPVC = exampleProtectedPVC\<rparr>))) \<noteq> []
   \<and> ReconcileRD (snd (ReconcileRD (exampleHandler readyCluster)
          \<lparr>RDProtectedPVC = exampleProtectedPVC\<rparr>)) \<lparr>RDProtectedPVC = exampleProtectedPVC\<rparr>
     = ReconcileRD (exampleHandler readyCluster) \<lparr>RDProtectedPVC = exampleProtectedPVC\<rparr>
   \<and> fst (fst (ReconcileRS
        (exampleHandler (readyCluster\<lparr>replicationSources :=
           [exampleRS (Some \<lparr>LastSyncTime = Some 5, LastManualSync = ''vrg-final-sync''\<rparr>)],
           persistentVolumeClaims := [examplePVC Map.empty None 10 ''Bound'']\<rparr>))
        \<lparr>RSProtectedPVC = exampleProtectedPVC\<rparr> True)) = True
   \<and> snd (snd (fst (ReconcileRS
        (exampleHandler (readyCluster\<lparr>replicationSources :=
           [exampleRS (Some \<lparr>LastSyncTime = Some 5, LastManualSync = ''vrg-final-sync''\<rparr>)],
           persistentVolumeClaims := [examplePVC Map.empty None 10 ''Bound'']\<rparr>))
        \<lparr>RSProtectedPVC = exampleProtectedPVC\<rparr> True))) = None
   \<and> ReconcileRS (snd (ReconcileRS
        (exampleHandler (readyCluster\<lparr>replicationSources :=
           [exampleRS (Some \<lparr>LastSyncTime = Some 5, LastManualSync = ''vrg-final-sync''\<rparr>)],
           persistentVolumeClaims := [examplePVC Map.empty None 10 ''Bound'']\<rparr>))
        \<lparr>RSProtectedPVC = exampleProtectedPVC\<rparr> True))
        \<lparr>RSProtectedPVC = exampleProtectedPVC\<rparr> True
     = ReconcileRS
        (exampleHandler (readyCluster\<lparr>replicationSources :=
           [exampleRS (Some \<lparr>LastSyncTime = Some 5, LastManualSync = ''vrg-final-sync''\<rparr>)],
           persistentVolumeClaims := [examplePVC Map.empty None 10 ''Bound'']\<rparr>))
        \<lparr>RSProtectedPVC = exampleProtectedPVC\<rparr> True"
proof -
  let ?v = "exampleHandler readyCluster"
  let ?d = "\<lparr>RDProtectedPVC = exampleProtectedPVC\<rparr>"
  let ?w = "exampleHandler (readyCluster\<lparr>replicationSources :=
           [exampleRS (Some \<lparr>LastSyncTime = Some 5, LastManualSync = ''vrg-final-sync''\<rparr>)],
           persistentVolumeClaims := [examplePVC Map.empty None 10 ''Bound'']\<rparr>)"
  let ?s = "\<lparr>RSProtectedPVC = exampleProtectedPVC\<rparr>"
  define D where "D = ReconcileRD ?v ?d"
  define R where "R = ReconcileRS ?w ?s True"
  have d1: "fst D = Inr None"
    unfolding D_def by (simp add: ReconcileRD_def eval_defs)
  have d2: "replicationDestinations (client (snd D)) \<noteq> []"
    unfolding D_def by (simp add: ReconcileRD_def eval_defs)
  have d3: "ReconcileRD ?v ?d = (Inr None, snd D)"
    using d1 unfolding D_def [symmetric] by (cases D) simp
  have d4: "ReconcileRD (snd D) ?d = (Inr None, snd D)"
    using C9_reconcile_twice [where v = ?v and rdSpec = ?d and r = None and ?v1.0 = "snd D"]
      d3 by blast
  have d5: "ReconcileRD (snd D) ?d = D"
    using d4 d1 by (cases D) simp
  have s1: "fst (fst R) = True"
    unfolding R_def by (simp add: ReconcileRS_def eval_defs)
  have s2: "snd (snd (fst R)) = None"
    unfolding R_def by (simp add: ReconcileRS_def eval_defs)
  have s3: "ReconcileRS ?w ?s True = ((True, fst (snd (fst R)), None), snd R)"
    using s1 s2 unfolding R_def [symmetric] by (cases R) auto
  have s4: "ReconcileRS (snd R) ?s True = ((True, fst (snd (fst R)), None), snd R)"
    using C9_reconcile_twice [where v = ?w and rsSpec = ?s and runFinalSync = True
        and finalSyncComplete = True and rs = "fst (snd (fst R))" and ?v2.0 = "snd R"]
      s3 by blast
  have s5: "ReconcileRS (snd R) ?s True = R"
    using s4 s1 s2 by (cases R) auto
  show ?thesis
    unfolding D_def [symmetric] R_def [symmetric]
    using d1 d2 d5 s1 s2 s5 by blast
qed
end
